(* ===== verification/Prelude.thy ===== *)
theory Prelude
  imports Main "HOL-Library.Word"
begin

text \<open>
  Shared vocabulary of the development: the types that every component of the person server
  uses (byte strings, Go slices, 64-bit integers, instants of time), the generic lemmas on
  lists and maps, and the collections of facts the component proofs pass to the simplifier.
\<close>

section \<open>Types\<close>

text \<open>
  A Go string is an immutable sequence of bytes, and so is a \<open>[]byte\<close> value as this program
  uses it; both are HOL strings, whose characters are the 256 byte values.
  A Go slice can be nil, which \<open>encoding/json\<close> prints differently from an empty slice
  (\<open>null\<close> against \<open>[]\<close>), so it is an optional list.
  An instant of time is a number of nanoseconds since the Unix epoch.
\<close>

type_synonym bytes = string
type_synonym 'a slice = "'a list option"
type_synonym time = int

definition elems :: "'a slice \<Rightarrow> 'a list" where
  "elems s = (case s of None \<Rightarrow> [] | Some xs \<Rightarrow> xs)"

named_theorems result_defs \<open>operations to unfold when a result is analysed\<close>
named_theorems wf_intros \<open>preservation lemmas of well-formedness invariants\<close>

lemma elems_simps [simp]: "elems None = []" "elems (Some xs) = xs"
  by (simp_all add: elems_def)

section \<open>Lists and maps\<close>

lemma append_eq_sep:
  assumes "xs @ c # ys = xs' @ c # ys'" and "c \<notin> set xs" and "c \<notin> set xs'"
  shows "xs = xs' \<and> ys = ys'"
  using assms
proof (induction xs arbitrary: xs')
  case Nil
  then show ?case by (cases xs') auto
next
  case (Cons x xs)
  then show ?case by (cases xs') auto
qed

lemma append_eq_sep_last:
  assumes "xs @ c # ys = xs' @ c # ys'" and "c \<notin> set ys" and "c \<notin> set ys'"
  shows "xs = xs' \<and> ys = ys'"
proof -
  have "rev ys @ c # rev xs = rev ys' @ c # rev xs'"
    using arg_cong [OF assms(1), of rev] by simp
  then have "rev ys = rev ys' \<and> rev xs = rev xs'"
    using assms(2,3) by (intro append_eq_sep) auto
  then show ?thesis by simp
qed

lemma ran_upd_cases: "v \<in> ran (m(k \<mapsto> w)) \<Longrightarrow> v = w \<or> v \<in> ran m"
  by (auto simp: ran_def split: if_splits)

section \<open>Characters\<close>

abbreviation char_val :: "char \<Rightarrow> nat" where
  "char_val c \<equiv> of_char c"

lemma char_val_less [simp]: "char_val c < 256"
proof -
  have "char_val c = char_val c mod 256" by simp
  also have "\<dots> < 256" by simp
  finally show ?thesis .
qed

lemma char_of_char_val: "n < 256 \<Longrightarrow> char_val (char_of n) = n"
  by simp

definition is_ascii :: "string \<Rightarrow> bool" where
  "is_ascii s = list_all (\<lambda>c. char_val c < 128) s"

lemma is_ascii_simps [simp]:
  "is_ascii []" "is_ascii (c # s) = (char_val c < 128 \<and> is_ascii s)"
  "is_ascii (s @ t) = (is_ascii s \<and> is_ascii t)"
  by (simp_all add: is_ascii_def)

section \<open>Machine integers\<close>

text \<open>
  An \<open>int64\<close> is kept as an integer in \<open>-2^63 ..< 2^63\<close>; the arithmetic of the source wraps,
  and the model writes the wrap out with \<open>i64\<close> wherever the source computes.
  A \<open>uint64\<close> (the revocation nonce) is a \<open>64 word\<close>.
\<close>

definition i64 :: "int \<Rightarrow> int" where
  "i64 x = (x + 2 ^ 63) mod 2 ^ 64 - 2 ^ 63"

definition in_i64 :: "int \<Rightarrow> bool" where
  "in_i64 x = (- (2 ^ 63) \<le> x \<and> x < 2 ^ 63)"

lemma i64_range: "in_i64 (i64 x)"
proof -
  have "0 \<le> (x + 2 ^ 63) mod 2 ^ 64" "(x + 2 ^ 63) mod 2 ^ 64 < 2 ^ 64"
    by simp_all
  then show ?thesis by (simp add: i64_def in_i64_def)
qed

lemma i64_id: "in_i64 x \<Longrightarrow> i64 x = x"
  by (simp add: i64_def in_i64_def)

lemma i64_wrap:
  assumes "2 ^ 63 \<le> x" and "x < 2 ^ 64"
  shows "i64 x = x - 2 ^ 64"
proof -
  have "(x + 2 ^ 63) mod 2 ^ 64 = (x + 2 ^ 63 - 2 ^ 64) mod 2 ^ 64"
    by (rule minus_mod_self2 [symmetric])
  also have "\<dots> = x + 2 ^ 63 - 2 ^ 64" using assms by (intro mod_pos_pos_trivial) simp_all
  finally show ?thesis by (simp add: i64_def)
qed

lemma i64_bounds: "- 9223372036854775808 \<le> i64 x" "i64 x < 9223372036854775808"
  using i64_range [of x] by (simp_all add: in_i64_def)

lemma unat_inject64 [simp]: "unat (a :: 64 word) = unat b \<longleftrightarrow> a = b"
  by (simp add: word_unat_eq_iff)

lemma uint_inject64 [simp]: "uint (a :: 64 word) = uint b \<longleftrightarrow> a = b"
  by (simp add: word_uint_eq_iff)

section \<open>Time\<close>

text \<open>The \<open>time\<close> package: durations are nanoseconds, \<open>Unix\<close> gives whole seconds.\<close>

definition Second :: int where "Second = 1000000000"
definition Minute :: int where "Minute = 60 * Second"
definition Hour :: int where "Hour = 3600 * Second"

definition Unix :: "time \<Rightarrow> int" where
  "Unix t = t div Second"

lemma Unix_mono: "s \<le> t \<Longrightarrow> Unix s \<le> Unix t"
  by (simp add: Unix_def Second_def zdiv_mono1)

lemma Unix_add_seconds: "Unix (t + k * Second) = Unix t + k"
  by (simp add: Unix_def Second_def)

section \<open>Transition systems\<close>

text \<open>
  Every component with state is shown correct the same way: a step relation of its operations,
  an invariant the steps keep, and facts that, once true, no later step takes back. The two
  contracts are locales, interpreted by the components on their own steps.
\<close>

locale transition_invariant =
  fixes step :: "'s \<Rightarrow> 's \<Rightarrow> bool" and inv :: "'s \<Rightarrow> bool"
  assumes inv_step: "step s s' \<Longrightarrow> inv s \<Longrightarrow> inv s'"
begin

lemma inv_reaches: "step\<^sup>*\<^sup>* s s' \<Longrightarrow> inv s \<Longrightarrow> inv s'"
  by (induction rule: rtranclp_induct) (auto intro: inv_step)

end

locale permanent_facts = transition_invariant step inv
  for step :: "'s \<Rightarrow> 's \<Rightarrow> bool" and inv :: "'s \<Rightarrow> bool" +
  fixes known :: "'s \<Rightarrow> 'k \<Rightarrow> 'v option"
  assumes known_step: "step s s' \<Longrightarrow> inv s \<Longrightarrow> known s k = Some v \<Longrightarrow> known s' k = Some v"
begin

lemma known_reaches: "step\<^sup>*\<^sup>* s s' \<Longrightarrow> inv s \<Longrightarrow> known s k = Some v \<Longrightarrow> known s' k = Some v"
proof (induction rule: rtranclp_induct)
  case (step s' s'')
  then show ?case using inv_reaches known_step by blast
qed simp

end

end
