(* ===== verification/Go_Std.thy ===== *)
theory Go_Std
  imports Prelude
begin

text \<open>
  The parts of Go's standard library that the person server uses on strings and bytes:
  decimal numerals (\<open>fmt.Sprint\<close>, \<open>big.Int.SetString\<close>), \<open>encoding/hex\<close>,
  \<open>encoding/base64\<close> and the functions of \<open>strings\<close>, with the round trips the
  components rely on. Where a function depends on the Unicode tables of the runtime, the model
  computes the ASCII case and takes the other case as an argument.
\<close>

section \<open>Decimal numerals\<close>

definition digit_char :: "nat \<Rightarrow> char" where
  "digit_char n = char_of (48 + n)"

definition is_digit :: "char \<Rightarrow> bool" where
  "is_digit c = (48 \<le> char_val c \<and> char_val c \<le> 57)"

fun show_nat :: "nat \<Rightarrow> string" where
  "show_nat n = (if n < 10 then [digit_char n] else show_nat (n div 10) @ [digit_char (n mod 10)])"

declare show_nat.simps [simp del]

definition show_int :: "int \<Rightarrow> string" where
  "show_int i = (if i < 0 then CHR ''-'' # show_nat (nat (- i)) else show_nat (nat i))"

definition read_nat :: "string \<Rightarrow> nat" where
  "read_nat s = foldl (\<lambda>a c. 10 * a + (char_val c - 48)) 0 s"

definition all_digits :: "string \<Rightarrow> bool" where
  "all_digits s = (s \<noteq> [] \<and> list_all is_digit s)"

text \<open>
  \<open>new(big.Int).SetString(s, 10)\<close>: an optional sign, then one or more decimal digits, and
  nothing after them.
\<close>

definition bigSetString :: "string \<Rightarrow> int option" where
  "bigSetString s =
     (case s of
        [] \<Rightarrow> None
      | c # r \<Rightarrow>
          if c = CHR ''-'' then (if all_digits r then Some (- int (read_nat r)) else None)
          else if c = CHR ''+'' then (if all_digits r then Some (int (read_nat r)) else None)
          else if all_digits s then Some (int (read_nat s)) else None)"

lemma char_val_digit_char [simp]: "n < 10 \<Longrightarrow> char_val (digit_char n) = 48 + n"
  by (simp add: digit_char_def)

lemma is_digit_digit_char [simp]: "n < 10 \<Longrightarrow> is_digit (digit_char n)"
  by (simp add: is_digit_def)

lemma all_digits_show_nat [simp]: "all_digits (show_nat n)"
proof (induction n rule: show_nat.induct)
  case (1 n)
  then show ?case
    by (cases "n < 10") (auto simp: show_nat.simps [of n] all_digits_def)
qed

lemma read_show_nat [simp]: "read_nat (show_nat n) = n"
proof (induction n rule: show_nat.induct)
  case (1 n)
  then show ?case
    by (cases "n < 10") (auto simp: show_nat.simps [of n] read_nat_def)
qed

lemma show_nat_inject [simp]: "show_nat m = show_nat n \<longleftrightarrow> m = n"
  by (metis read_show_nat)

lemma show_nat_digits: "c \<in> set (show_nat n) \<Longrightarrow> is_digit c"
  using all_digits_show_nat [of n] by (auto simp: all_digits_def list_all_iff)

lemma show_nat_not_Nil [simp]: "show_nat n \<noteq> []"
  using all_digits_show_nat [of n] by (auto simp: all_digits_def)

lemma is_digit_not_punct: "is_digit c \<Longrightarrow> c \<noteq> CHR ''#'' \<and> c \<noteq> CHR ''-'' \<and> c \<noteq> CHR ''+'' \<and> c \<noteq> CHR '':''"
  by (auto simp: is_digit_def)

lemma bigSetString_show_int [simp]: "bigSetString (show_int i) = Some i"
proof (cases "i < 0")
  case True
  then show ?thesis by (simp add: show_int_def bigSetString_def)
next
  case False
  obtain c r where cr: "show_nat (nat i) = c # r"
    by (cases "show_nat (nat i)") auto
  then have "is_digit c" by (metis list.set_intros(1) show_nat_digits)
  then have "c \<noteq> CHR ''-''" "c \<noteq> CHR ''+''" by (auto dest: is_digit_not_punct)
  moreover have "all_digits (c # r)" "read_nat (c # r) = nat i"
    using cr by (metis all_digits_show_nat, metis read_show_nat)
  ultimately show ?thesis using False cr by (simp add: show_int_def bigSetString_def)
qed

lemma show_int_inject [simp]: "show_int i = show_int j \<longleftrightarrow> i = j"
  by (metis bigSetString_show_int option.inject)

lemma show_int_chars: "c \<in> set (show_int i) \<Longrightarrow> is_digit c \<or> c = CHR ''-''"
  by (auto simp: show_int_def dest: show_nat_digits split: if_splits)

section \<open>encoding/hex\<close>

definition hex_char :: "nat \<Rightarrow> char" where
  "hex_char n = (if n < 10 then char_of (48 + n) else char_of (87 + n))"

definition hex_val :: "char \<Rightarrow> nat option" where
  "hex_val c =
     (let v = char_val c in
      if 48 \<le> v \<and> v \<le> 57 then Some (v - 48)
      else if 97 \<le> v \<and> v \<le> 102 then Some (v - 87)
      else if 65 \<le> v \<and> v \<le> 70 then Some (v - 55)
      else None)"

fun hex_encode :: "bytes \<Rightarrow> string" where
  "hex_encode [] = []"
| "hex_encode (b # bs) = hex_char (char_val b div 16) # hex_char (char_val b mod 16) # hex_encode bs"

text \<open>
  \<open>hex.DecodeString\<close> returns the bytes decoded before the first malformed pair together with
  the error; the flag says whether the whole input was well formed.
\<close>

fun hex_decode :: "string \<Rightarrow> bytes \<times> bool" where
  "hex_decode [] = ([], True)"
| "hex_decode [c] = ([], False)"
| "hex_decode (c # d # r) =
     (case (hex_val c, hex_val d) of
        (Some x, Some y) \<Rightarrow> (case hex_decode r of (bs, ok) \<Rightarrow> (char_of (16 * x + y) # bs, ok))
      | _ \<Rightarrow> ([], False))"

lemma hex_val_hex_char [simp]: "n < 16 \<Longrightarrow> hex_val (hex_char n) = Some n"
  by (auto simp: hex_val_def hex_char_def)

lemma hex_nibble [simp]: "char_val b div 16 < 16" 
  using char_val_less [of b] by linarith

lemma hex_decode_encode [simp]: "hex_decode (hex_encode bs) = (bs, True)"
  by (induction bs) simp_all

lemma hex_encode_inject [simp]: "hex_encode a = hex_encode b \<longleftrightarrow> a = b"
  by (metis fst_conv hex_decode_encode)

lemma length_hex_encode [simp]: "length (hex_encode bs) = 2 * length bs"
  by (induction bs) simp_all

section \<open>encoding/base64\<close>

definition b64_char :: "bool \<Rightarrow> nat \<Rightarrow> char" where
  "b64_char url n =
     (if n < 26 then char_of (65 + n)
      else if n < 52 then char_of (71 + n)
      else if n < 62 then char_of (n - 4)
      else if n = 62 then (if url then CHR ''-'' else CHR ''+'')
      else (if url then CHR ''_'' else CHR ''/''))"

definition b64_val :: "bool \<Rightarrow> char \<Rightarrow> nat option" where
  "b64_val url c =
     (let v = char_val c in
      if 65 \<le> v \<and> v \<le> 90 then Some (v - 65)
      else if 97 \<le> v \<and> v \<le> 122 then Some (v - 71)
      else if 48 \<le> v \<and> v \<le> 57 then Some (v + 4)
      else if c = (if url then CHR ''-'' else CHR ''+'') then Some 62
      else if c = (if url then CHR ''_'' else CHR ''/'') then Some 63
      else None)"

text \<open>The unpadded encoding (\<open>base64.RawURLEncoding\<close> for \<open>url\<close>).\<close>

fun b64_raw :: "bool \<Rightarrow> bytes \<Rightarrow> string" where
  "b64_raw url [] = []"
| "b64_raw url [a] = [b64_char url (char_val a div 4), b64_char url (char_val a mod 4 * 16)]"
| "b64_raw url [a, b] =
     [b64_char url (char_val a div 4),
      b64_char url (char_val a mod 4 * 16 + char_val b div 16),
      b64_char url (char_val b mod 16 * 4)]"
| "b64_raw url (a # b # c # r) =
     b64_char url (char_val a div 4)
     # b64_char url (char_val a mod 4 * 16 + char_val b div 16)
     # b64_char url (char_val b mod 16 * 4 + char_val c div 64)
     # b64_char url (char_val c mod 64)
     # b64_raw url r"

text \<open>The padded encoding (\<open>base64.StdEncoding\<close>), which \<open>encoding/json\<close> uses for \<open>[]byte\<close>.\<close>

definition b64_std :: "bytes \<Rightarrow> string" where
  "b64_std bs = b64_raw False bs @ replicate ((3 - length bs mod 3) mod 3) (CHR ''='')"

fun b64_quanta :: "bool \<Rightarrow> string \<Rightarrow> bytes option" where
  "b64_quanta url [] = Some []"
| "b64_quanta url [w] = None"
| "b64_quanta url [w, x] =
     (case (b64_val url w, b64_val url x) of
        (Some i, Some j) \<Rightarrow> Some [char_of (i * 4 + j div 16)]
      | _ \<Rightarrow> None)"
| "b64_quanta url [w, x, y] =
     (case (b64_val url w, b64_val url x, b64_val url y) of
        (Some i, Some j, Some k) \<Rightarrow> Some [char_of (i * 4 + j div 16), char_of (j mod 16 * 16 + k div 4)]
      | _ \<Rightarrow> None)"
| "b64_quanta url (w # x # y # z # r) =
     (case (b64_val url w, b64_val url x, b64_val url y, b64_val url z, b64_quanta url r) of
        (Some i, Some j, Some k, Some l, Some bs) \<Rightarrow>
          Some (char_of (i * 4 + j div 16) # char_of (j mod 16 * 16 + k div 4)
                # char_of (k mod 4 * 64 + l) # bs)
      | _ \<Rightarrow> None)"

text \<open>
  \<open>base64.RawURLEncoding.DecodeString\<close> skips carriage returns and line feeds and does not
  check the unused bits of the last quantum.
\<close>

definition b64_raw_decode :: "bool \<Rightarrow> string \<Rightarrow> bytes option" where
  "b64_raw_decode url s =
     b64_quanta url (filter (\<lambda>c. c \<noteq> CHR ''\<newline>'' \<and> c \<noteq> CHR 0x0D) s)"

lemma b64_val_char [simp]: "n < 64 \<Longrightarrow> b64_val url (b64_char url n) = Some n"
  by (auto simp: b64_val_def b64_char_def Let_def)

definition b64_class :: "char \<Rightarrow> bool" where
  "b64_class c =
     (let v = char_val c in
      48 \<le> v \<and> v \<le> 57 \<or> 65 \<le> v \<and> v \<le> 90 \<or> 97 \<le> v \<and> v \<le> 122
      \<or> v = 43 \<or> v = 45 \<or> v = 47 \<or> v = 95)"

lemma b64_class_char: "n < 64 \<Longrightarrow> b64_class (b64_char url n)"
  by (auto simp: b64_class_def b64_char_def Let_def)

lemma b64_sextets [simp]:
  "char_val a div 4 < 64" "char_val a mod 4 * 16 < 64"
  "char_val a mod 4 * 16 + char_val b div 16 < 64" "char_val b mod 16 * 4 < 64"
  "char_val b mod 16 * 4 + char_val c div 64 < 64" "char_val c mod 64 < 64"
  using char_val_less [of a] char_val_less [of b] char_val_less [of c] by linarith+

lemma set_b64_raw: "c \<in> set (b64_raw url bs) \<Longrightarrow> b64_class c"
  by (induction url bs rule: b64_raw.induct) (auto simp: b64_class_char)

lemma b64_class_not:
  "b64_class c \<Longrightarrow> c \<notin> {CHR ''.'', CHR ''\<newline>'', CHR 0x0D, CHR ''='', CHR ''#'', CHR '' ''}"
  by (auto simp: b64_class_def Let_def)

lemma b64_raw_no_dot [simp]: "CHR ''.'' \<notin> set (b64_raw url bs)"
  using set_b64_raw b64_class_not by blast

lemma sextet_arith:
  fixes a b c :: nat
  assumes "b < 256" "c < 256"
  shows "a div 4 * 4 + (a mod 4 * 16 + b div 16) div 16 = a"
    and "a div 4 * 4 + a mod 4 * 16 div 16 = a"
    and "(a mod 4 * 16 + b div 16) mod 16 * 16 + (b mod 16 * 4 + c div 64) div 4 = b"
    and "(a mod 4 * 16 + b div 16) mod 16 * 16 + b mod 16 * 4 div 4 = b"
    and "(b mod 16 * 4 + c div 64) mod 4 * 64 + c mod 64 = c"
proof -
  have b: "b div 16 < 16" and c: "c div 64 < 4" using assms by linarith+
  have "(a mod 4 * 16 + b div 16) div 16 = a mod 4" "(a mod 4 * 16 + b div 16) mod 16 = b div 16"
    "(b mod 16 * 4 + c div 64) div 4 = b mod 16" "(b mod 16 * 4 + c div 64) mod 4 = c div 64"
    using b c by simp_all
  then show "a div 4 * 4 + (a mod 4 * 16 + b div 16) div 16 = a"
    "a div 4 * 4 + a mod 4 * 16 div 16 = a"
    "(a mod 4 * 16 + b div 16) mod 16 * 16 + (b mod 16 * 4 + c div 64) div 4 = b"
    "(a mod 4 * 16 + b div 16) mod 16 * 16 + b mod 16 * 4 div 4 = b"
    "(b mod 16 * 4 + c div 64) mod 4 * 64 + c mod 64 = c"
    by (simp_all only: div_mult_mod_eq nonzero_mult_div_cancel_right mult.commute) (simp_all add: mult.commute)
qed

lemma b64_bytes:
  "char_of (char_val a div 4 * 4 + (char_val a mod 4 * 16 + char_val b div 16) div 16) = a"
  "char_of (char_val a div 4 * 4 + char_val a mod 4 * 16 div 16) = a"
  "char_of ((char_val a mod 4 * 16 + char_val b div 16) mod 16 * 16
            + (char_val b mod 16 * 4 + char_val c div 64) div 4) = b"
  "char_of ((char_val a mod 4 * 16 + char_val b div 16) mod 16 * 16 + char_val b mod 16 * 4 div 4) = b"
  "char_of ((char_val b mod 16 * 4 + char_val c div 64) mod 4 * 64 + char_val c mod 64) = c"
  by (simp_all only: sextet_arith [OF char_val_less char_val_less] char_of_char)

lemma b64_quanta_raw: "b64_quanta url (b64_raw url bs) = Some bs"
  by (induction url bs rule: b64_raw.induct) (simp_all only: b64_raw.simps b64_quanta.simps
      b64_val_char b64_sextets b64_bytes prod.case option.case)

lemma b64_raw_decode_raw [simp]: "b64_raw_decode url (b64_raw url bs) = Some bs"
proof -
  have "filter (\<lambda>c. c \<noteq> CHR ''\<newline>'' \<and> c \<noteq> CHR 0x0D) (b64_raw url bs) = b64_raw url bs"
    using set_b64_raw b64_class_not by (fastforce simp: filter_id_conv)
  then show ?thesis by (simp add: b64_raw_decode_def b64_quanta_raw)
qed

lemma b64_raw_inject [simp]: "b64_raw url a = b64_raw url b \<longleftrightarrow> a = b"
  by (metis b64_raw_decode_raw option.inject)

section \<open>strings\<close>

fun split_on :: "char \<Rightarrow> string \<Rightarrow> string list" where
  "split_on c [] = [[]]"
| "split_on c (x # xs) =
     (if x = c then [] # split_on c xs
      else (case split_on c xs of [] \<Rightarrow> [[x]] | p # ps \<Rightarrow> (x # p) # ps))"

lemma split_on_not_Nil [simp]: "split_on c s \<noteq> []"
  by (cases s) (auto split: list.splits)

lemma split_on_none: "c \<notin> set s \<Longrightarrow> split_on c s = [s]"
  by (induction s) auto

lemma split_on_append: "c \<notin> set s \<Longrightarrow> split_on c (s @ c # t) = s # split_on c t"
  by (induction s) auto

definition HasPrefix :: "string \<Rightarrow> string \<Rightarrow> bool" where
  "HasPrefix s p = (take (length p) s = p)"

definition TrimPrefix :: "string \<Rightarrow> string \<Rightarrow> string" where
  "TrimPrefix s p = (if HasPrefix s p then drop (length p) s else s)"

definition TrimRight :: "char \<Rightarrow> string \<Rightarrow> string" where
  "TrimRight c s = rev (dropWhile (\<lambda>x. x = c) (rev s))"

lemma TrimPrefix_append [simp]: "TrimPrefix (p @ s) p = s"
  by (simp add: TrimPrefix_def HasPrefix_def)

definition ascii_lower :: "char \<Rightarrow> char" where
  "ascii_lower c = (if 65 \<le> char_val c \<and> char_val c \<le> 90 then char_of (char_val c + 32) else c)"

text \<open>
  \<open>strings.ToLower\<close> and \<open>strings.EqualFold\<close>: the ASCII paths of the library, with the
  Unicode path as an argument. \<open>EqualFold\<close> compares byte by byte until it meets a byte
  outside ASCII and hands the rest of both strings to the Unicode comparison.
\<close>

definition ToLower :: "(string \<Rightarrow> string) \<Rightarrow> string \<Rightarrow> string" where
  "ToLower uni s = (if is_ascii s then map ascii_lower s else uni s)"

fun EqualFold :: "(string \<Rightarrow> string \<Rightarrow> bool) \<Rightarrow> string \<Rightarrow> string \<Rightarrow> bool" where
  "EqualFold uni (c # s) (d # t) =
     (if 128 \<le> char_val c \<or> 128 \<le> char_val d then uni (c # s) (d # t)
      else ascii_lower c = ascii_lower d \<and> EqualFold uni s t)"
| "EqualFold uni s t = (s = t)"

lemma ascii_lower_idem [simp]: "ascii_lower (ascii_lower c) = ascii_lower c"
  by (simp add: ascii_lower_def)

lemma EqualFold_ascii:
  "is_ascii s \<Longrightarrow> is_ascii t \<Longrightarrow> EqualFold uni s t \<longleftrightarrow> map ascii_lower s = map ascii_lower t"
by (induction uni s t rule: EqualFold.induct) auto

lemma EqualFold_refl_ascii: "is_ascii s \<Longrightarrow> EqualFold uni s s"
  by (simp add: EqualFold_ascii)

text \<open>
  \<open>strings.TrimSpace\<close>: ASCII white space is cut off at both ends; a byte outside ASCII at an
  end hands the rest to the Unicode definition of white space.
\<close>

definition is_space :: "char \<Rightarrow> bool" where
  "is_space c = (c = CHR '' '' \<or> (9 \<le> char_val c \<and> char_val c \<le> 13))"

definition TrimSpace :: "(string \<Rightarrow> string) \<Rightarrow> string \<Rightarrow> string" where
  "TrimSpace uni s =
     (let t = dropWhile is_space s in
      if t \<noteq> [] \<and> 128 \<le> char_val (hd t) then uni t
      else let u = rev (dropWhile is_space (rev t)) in
           if u \<noteq> [] \<and> 128 \<le> char_val (last u) then uni u else u)"

end
