(* ===== verification/Go_Json.thy ===== *)
theory Go_Json
  imports Go_Std
begin

text \<open>
  \<open>encoding/json\<close> as the program uses it: JSON values, the compact text that
  \<open>json.Marshal\<close> prints for them (with the HTML-safe string escapes that are on by default),
  and the way \<open>json.Unmarshal\<close> stores the members of an object into the fields of a struct.
  The components say how each of their structs becomes a JSON value and back, following the
  struct tags of the source.
\<close>

section \<open>Values\<close>

text \<open>
  An integer literal is \<open>JNum\<close>; any other number literal (with a fraction or an exponent) is kept
  as its text, since no struct of the program can hold one.
\<close>

datatype json =
    JNull
  | JBool bool
  | JNum int
  | JReal string
  | JStr string
  | JArr "json list"
  | JObj "(string \<times> json) list"

section \<open>Strings\<close>

text \<open>
  The number of bytes of the well-formed UTF-8 sequence of two to four bytes at the head of a
  string, or 0 if there is none (\<open>utf8.DecodeRuneInString\<close> then reports an error of width 1).
\<close>

definition utf8_cont :: "char \<Rightarrow> bool" where
  "utf8_cont c = (128 \<le> char_val c \<and> char_val c \<le> 191)"

definition rune2 :: "char \<Rightarrow> char \<Rightarrow> bool" where
  "rune2 a b = (194 \<le> char_val a \<and> char_val a \<le> 223 \<and> utf8_cont b)"

definition rune3 :: "char \<Rightarrow> char \<Rightarrow> char \<Rightarrow> bool" where
  "rune3 a b c =
     (224 \<le> char_val a \<and> char_val a \<le> 239 \<and> utf8_cont c
      \<and> (if char_val a = 224 then 160 else 128) \<le> char_val b
      \<and> char_val b \<le> (if char_val a = 237 then 159 else 191))"

definition rune4 :: "char \<Rightarrow> char \<Rightarrow> char \<Rightarrow> char \<Rightarrow> bool" where
  "rune4 a b c d =
     (240 \<le> char_val a \<and> char_val a \<le> 244 \<and> utf8_cont c \<and> utf8_cont d
      \<and> (if char_val a = 240 then 144 else 128) \<le> char_val b
      \<and> char_val b \<le> (if char_val a = 244 then 143 else 191))"

definition utf8_width :: "string \<Rightarrow> nat" where
  "utf8_width s =
     (case s of
        a # b # r \<Rightarrow>
          if rune2 a b then 2
          else (case r of
                  [] \<Rightarrow> 0
                | c # r' \<Rightarrow>
                    if rune3 a b c then 3
                    else (case r' of [] \<Rightarrow> 0 | d # _ \<Rightarrow> if rune4 a b c d then 4 else 0))
      | _ \<Rightarrow> 0)"

definition bslash :: char where
  "bslash = CHR 0x5C"

definition dquote :: char where
  "dquote = CHR 0x22"

definition u00 :: "nat \<Rightarrow> string" where
  "u00 n = bslash # ''u00'' @ [hex_char (n div 16), hex_char (n mod 16)]"

definition json_escape_ascii :: "char \<Rightarrow> string" where
  "json_escape_ascii c =
     (let v = char_val c in
      if c = dquote \<or> c = bslash then [bslash, c]
      else if c = CHR 0x08 then [bslash, CHR ''b'']
      else if c = CHR 0x0C then [bslash, CHR ''f'']
      else if c = CHR 0x0A then [bslash, CHR ''n'']
      else if c = CHR 0x0D then [bslash, CHR ''r'']
      else if c = CHR 0x09 then [bslash, CHR ''t'']
      else if v < 32 \<or> c = CHR ''<'' \<or> c = CHR ''>'' \<or> c = CHR ''&'' then u00 v
      else [c])"

text \<open>
  A well-formed multi-byte sequence is copied, except for U+2028 and U+2029, which are escaped;
  an ill-formed byte becomes the escape of U+FFFD.
\<close>

definition json_escape_rune :: "string \<Rightarrow> string" where
  "json_escape_rune r =
     (if r = map char_of [226 :: nat, 128, 168] then bslash # ''u2028''
      else if r = map char_of [226 :: nat, 128, 169] then bslash # ''u2029''
      else r)"

function json_escape :: "string \<Rightarrow> string" where
  "json_escape [] = []"
| "json_escape (c # s) =
     (if char_val c < 128 then json_escape_ascii c @ json_escape s
      else if utf8_width (c # s) = 0 then bslash # ''ufffd'' @ json_escape s
      else json_escape_rune (take (utf8_width (c # s)) (c # s))
           @ json_escape (drop (utf8_width (c # s) - 1) s))"
  by pat_completeness auto
termination
  by (relation "measure length") auto

definition json_quote :: "string \<Rightarrow> string" where
  "json_quote s = dquote # json_escape s @ [dquote]"

section \<open>Printing\<close>

fun join :: "string \<Rightarrow> string list \<Rightarrow> string" where
  "join sep [] = []"
| "join sep [s] = s"
| "join sep (s # t # r) = s @ sep @ join sep (t # r)"

fun json_print :: "json \<Rightarrow> string" where
  "json_print JNull = ''null''"
| "json_print (JBool b) = (if b then ''true'' else ''false'')"
| "json_print (JNum n) = show_int n"
| "json_print (JReal s) = s"
| "json_print (JStr s) = json_quote s"
| "json_print (JArr vs) = ''['' @ join '','' (map json_print vs) @ '']''"
| "json_print (JObj ms) =
     ''{'' @ join '','' (map (\<lambda>(k, v). json_quote k @ '':'' @ json_print v) ms) @ ''}''"

text \<open>Values of the basic Go types.\<close>

definition json_strings :: "string slice \<Rightarrow> json" where
  "json_strings s = (case s of None \<Rightarrow> JNull | Some xs \<Rightarrow> JArr (map JStr xs))"

definition json_bytes :: "bytes option \<Rightarrow> json" where
  "json_bytes s = (case s of None \<Rightarrow> JNull | Some bs \<Rightarrow> JStr (b64_std bs))"

text \<open>A member with the \<open>omitempty\<close> option is left out when it holds the empty value.\<close>

definition omitempty :: "bool \<Rightarrow> string \<Rightarrow> json \<Rightarrow> (string \<times> json) list" where
  "omitempty is_empty k v = (if is_empty then [] else [(k, v)])"

section \<open>Storing members into a struct\<close>

text \<open>
  \<open>json.Unmarshal\<close> looks a member's key up among the field names, exactly first and then up
  to case folding (two runes outside ASCII, the long s and the Kelvin sign, fold to ASCII letters),
  ignores unknown members, and lets a later member overwrite an earlier one. A \<open>null\<close> leaves
  the field as it is (a slice becomes nil) and a value of the wrong type is an error.
\<close>

function fold_key :: "string \<Rightarrow> string" where
  "fold_key [] = []"
| "fold_key (c # s) =
     (if take 2 (c # s) = map char_of [197 :: nat, 191] then CHR ''s'' # fold_key (drop 1 s)
      else if take 3 (c # s) = map char_of [226 :: nat, 132, 170] then CHR ''k'' # fold_key (drop 2 s)
      else ascii_lower c # fold_key s)"
  by pat_completeness auto
termination
  by (relation "measure length") auto

type_synonym 'a setter = "json \<Rightarrow> 'a \<Rightarrow> 'a option"

definition find_field :: "(string \<times> 'a setter) list \<Rightarrow> string \<Rightarrow> 'a setter option" where
  "find_field fs k =
     (case map_of fs k of
        Some f \<Rightarrow> Some f
      | None \<Rightarrow> map_of (map (\<lambda>(n, f). (fold_key n, f)) fs) (fold_key k))"

fun store_members :: "(string \<times> 'a setter) list \<Rightarrow> (string \<times> json) list \<Rightarrow> 'a \<Rightarrow> 'a option" where
  "store_members fs [] a = Some a"
| "store_members fs ((k, v) # ms) a =
     (case find_field fs k of
        None \<Rightarrow> store_members fs ms a
      | Some f \<Rightarrow> (case f v a of None \<Rightarrow> None | Some a' \<Rightarrow> store_members fs ms a'))"

definition into_struct :: "(string \<times> 'a setter) list \<Rightarrow> 'a \<Rightarrow> json \<Rightarrow> 'a option" where
  "into_struct fs zero v =
     (case v of JNull \<Rightarrow> Some zero | JObj ms \<Rightarrow> store_members fs ms zero | _ \<Rightarrow> None)"

lemma into_struct_simps [simp]:
  "into_struct fs a JNull = Some a" "into_struct fs a (JObj ms) = store_members fs ms a"
  by (simp_all add: into_struct_def)

definition into_string :: "(string \<Rightarrow> 'a \<Rightarrow> 'a) \<Rightarrow> 'a setter" where
  "into_string upd v a = (case v of JNull \<Rightarrow> Some a | JStr s \<Rightarrow> Some (upd s a) | _ \<Rightarrow> None)"

definition into_int64 :: "(int \<Rightarrow> 'a \<Rightarrow> 'a) \<Rightarrow> 'a setter" where
  "into_int64 upd v a =
     (case v of JNull \<Rightarrow> Some a | JNum n \<Rightarrow> if in_i64 n then Some (upd n a) else None | _ \<Rightarrow> None)"

definition into_uint64 :: "(64 word \<Rightarrow> 'a \<Rightarrow> 'a) \<Rightarrow> 'a setter" where
  "into_uint64 upd v a =
     (case v of
        JNull \<Rightarrow> Some a
      | JNum n \<Rightarrow> if 0 \<le> n \<and> n < 2 ^ 64 then Some (upd (word_of_int n) a) else None
      | _ \<Rightarrow> None)"

fun into_elems :: "json list \<Rightarrow> string list option" where
  "into_elems [] = Some []"
| "into_elems (JStr s # vs) = map_option ((#) s) (into_elems vs)"
| "into_elems (JNull # vs) = map_option ((#) []) (into_elems vs)"
| "into_elems (v # vs) = None"

definition into_strings :: "(string slice \<Rightarrow> 'a \<Rightarrow> 'a) \<Rightarrow> 'a setter" where
  "into_strings upd v a =
     (case v of
        JNull \<Rightarrow> Some (upd None a)
      | JArr vs \<Rightarrow> (case into_elems vs of None \<Rightarrow> None | Some xs \<Rightarrow> Some (upd (Some xs) a))
      | _ \<Rightarrow> None)"

text \<open>\<open>base64.StdEncoding\<close>, padded: the decoder demands whole quanta of four characters.\<close>

definition b64_std_decode :: "string \<Rightarrow> bytes option" where
  "b64_std_decode s =
     (let t = filter (\<lambda>c. c \<noteq> CHR ''\<newline>'' \<and> c \<noteq> CHR 0x0D) s;
          pad = (if drop (length t - 2) t = ''=='' then 2
                 else if drop (length t - 1) t = ''='' then 1 else 0)
      in if length t mod 4 = 0 then b64_quanta False (take (length t - pad) t) else None)"

definition into_bytes :: "(bytes option \<Rightarrow> 'a \<Rightarrow> 'a) \<Rightarrow> 'a setter" where
  "into_bytes upd v a =
     (case v of
        JNull \<Rightarrow> Some (upd None a)
      | JStr s \<Rightarrow> (case b64_std_decode s of None \<Rightarrow> None | Some bs \<Rightarrow> Some (upd (Some bs) a))
      | _ \<Rightarrow> None)"

text \<open>A field that is a struct, and one that is a pointer to a struct (\<open>null\<close> makes it nil).\<close>

definition into_record ::
  "(string \<times> 'r setter) list \<Rightarrow> ('r \<Rightarrow> 'a \<Rightarrow> 'a) \<Rightarrow> ('a \<Rightarrow> 'r) \<Rightarrow> 'a setter" where
  "into_record fs upd get v a =
     (case into_struct fs (get a) v of None \<Rightarrow> None | Some x \<Rightarrow> Some (upd x a))"

definition into_pointer ::
  "(string \<times> 'r setter) list \<Rightarrow> 'r \<Rightarrow> ('r option \<Rightarrow> 'a \<Rightarrow> 'a) \<Rightarrow> ('a \<Rightarrow> 'r option) \<Rightarrow> 'a setter" where
  "into_pointer fs zero upd get v a =
     (case v of
        JNull \<Rightarrow> Some (upd None a)
      | _ \<Rightarrow> (case into_struct fs (case get a of None \<Rightarrow> zero | Some x \<Rightarrow> x) v of
                None \<Rightarrow> None | Some x \<Rightarrow> Some (upd (Some x) a)))"

text \<open>A slice of structs; each element starts from the zero value.\<close>

fun into_structs :: "(string \<times> 'r setter) list \<Rightarrow> 'r \<Rightarrow> json list \<Rightarrow> 'r list option" where
  "into_structs fs zero [] = Some []"
| "into_structs fs zero (v # vs) =
     (case into_struct fs zero v of
        None \<Rightarrow> None
      | Some x \<Rightarrow> (case into_structs fs zero vs of None \<Rightarrow> None | Some xs \<Rightarrow> Some (x # xs)))"

definition into_slice ::
  "(string \<times> 'r setter) list \<Rightarrow> 'r \<Rightarrow> ('r slice \<Rightarrow> 'a \<Rightarrow> 'a) \<Rightarrow> 'a setter" where
  "into_slice fs zero upd v a =
     (case v of
        JNull \<Rightarrow> Some (upd None a)
      | JArr vs \<Rightarrow>
          (case into_structs fs zero vs of None \<Rightarrow> None | Some xs \<Rightarrow> Some (upd (Some xs) a))
      | _ \<Rightarrow> None)"

lemma store_member_exact:
  "map_of fs k = Some f \<Longrightarrow>
   store_members fs ((k, v) # ms) a = (case f v a of None \<Rightarrow> None | Some a' \<Rightarrow> store_members fs ms a')"
  by (simp add: find_field_def)

lemma into_elems_strings [simp]: "into_elems (map JStr xs) = Some xs"
  by (induction xs) simp_all

lemma into_strings_json [simp]: "into_strings upd (json_strings s) a = Some (upd s a)"
  by (cases s) (simp_all add: into_strings_def json_strings_def)

lemma b64_raw_length: "length (b64_raw url bs) = (4 * length bs + 2) div 3"
  by (induction url bs rule: b64_raw.induct) simp_all

lemma b64_std_decode_std [simp]: "b64_std_decode (b64_std bs) = Some bs"
proof -
  define r where "r = b64_raw False bs"
  have clean: "\<forall>c \<in> set r. c \<noteq> CHR ''\<newline>'' \<and> c \<noteq> CHR 0x0D \<and> c \<noteq> CHR ''=''"
    using set_b64_raw b64_class_not unfolding r_def by blast
  then have f: "filter (\<lambda>c. c \<noteq> CHR ''\<newline>'' \<and> c \<noteq> CHR 0x0D) r = r"
    by (simp add: filter_id_conv)
  have len: "length r = (4 * length bs + 2) div 3"
    unfolding r_def by (rule b64_raw_length)
  have dec: "b64_quanta False r = Some bs"
    unfolding r_def by (rule b64_quanta_raw)
  consider "length bs mod 3 = 0" | "length bs mod 3 = 1" | "length bs mod 3 = 2" by linarith
  then show ?thesis
  proof cases
    case 1
    then obtain k where "length bs = 3 * k" by (metis dvdE mod_eq_0_iff_dvd)
    then have l: "length r = 4 * k" using len by simp
    have "drop (length r - 1) r \<noteq> ''=''" "drop (length r - 2) r \<noteq> ''==''"
      using clean in_set_dropD by (metis list.set_intros(1))+
    then show ?thesis using 1 f l dec by (simp add: b64_std_def b64_std_decode_def r_def [symmetric])
  next
    case 2
    then obtain k where "length bs = 3 * k + 1" by (metis mod_div_mult_eq add.commute mult.commute)
    then have "length r = 4 * k + 2" using len by simp
    then show ?thesis using 2 f dec
      by (simp add: b64_std_def b64_std_decode_def r_def [symmetric] numeral_2_eq_2)
  next
    case 3
    then obtain k where "length bs = 3 * k + 2" by (metis mod_div_mult_eq add.commute mult.commute)
    then have l: "length r = 4 * k + 3" using len by simp
    then obtain xs x where xs: "r = xs @ [x]" by (cases r rule: rev_cases) auto
    have x: "x \<noteq> CHR ''\<newline>''" "x \<noteq> CHR 0x0D" "x \<noteq> CHR ''=''"
      and fx: "filter (\<lambda>c. c \<noteq> CHR ''\<newline>'' \<and> c \<noteq> CHR 0x0D) xs = xs"
      using clean xs by (auto simp: filter_id_conv)
    have "length xs = 4 * k + 2" using l xs by simp
    moreover have "b64_quanta False (xs @ [x]) = Some bs" using dec xs by simp
    ultimately show ?thesis using 3 x fx
      by (simp add: b64_std_def b64_std_decode_def r_def [symmetric] xs)
  qed
qed

lemma into_bytes_json [simp]: "into_bytes upd (json_bytes s) a = Some (upd s a)"
  by (cases s) (simp_all add: into_bytes_def json_bytes_def)

lemma into_basic_json [simp]:
  "into_string upd (JStr s) a = Some (upd s a)"
  "in_i64 n \<Longrightarrow> into_int64 updi (JNum n) a = Some (updi n a)"
  "into_uint64 updw (JNum (uint w)) a = Some (updw w a)"
  using uint_lt2p [of w] by (simp_all add: into_string_def into_int64_def into_uint64_def)

section \<open>Well-formed text\<close>

text \<open>
  A string survives printing and parsing when it is well-formed UTF-8; a value survives when all
  its strings do.
\<close>

function utf8_ok :: "string \<Rightarrow> bool" where
  "utf8_ok [] = True"
| "utf8_ok (c # s) =
     (if char_val c < 128 then utf8_ok s
      else utf8_width (c # s) \<noteq> 0 \<and> utf8_ok (drop (utf8_width (c # s) - 1) s))"
  by pat_completeness auto
termination
  by (relation "measure length") auto

fun json_clean :: "json \<Rightarrow> bool" where
  "json_clean (JStr s) = utf8_ok s"
| "json_clean (JArr vs) = list_all json_clean vs"
| "json_clean (JObj ms) = list_all (\<lambda>(k, v). utf8_ok k \<and> json_clean v) ms"
| "json_clean (JReal s) = False"
| "json_clean v = True"

lemma is_ascii_utf8_ok: "is_ascii s \<Longrightarrow> utf8_ok s"
  by (induction s) simp_all

text \<open>The texts the program builds itself are ASCII.\<close>

lemma is_ascii_show_int [simp]: "is_ascii (show_int n)"
  using show_int_chars by (fastforce simp: is_ascii_def list_all_iff is_digit_def)

lemma is_ascii_hex_encode [simp]: "is_ascii (hex_encode bs)"
proof (induction bs rule: hex_encode.induct)
  case (2 b bs)
  have "char_val (hex_char n) < 128" if "n < 16" for n
    using that by (simp add: hex_char_def)
  then show ?case using 2 hex_nibble by simp
qed simp

lemma is_ascii_b64_raw [simp]: "is_ascii (b64_raw url bs)"
  using set_b64_raw by (fastforce simp: is_ascii_def list_all_iff b64_class_def Let_def)

lemma utf8_ok_ascii_append: "is_ascii s \<Longrightarrow> utf8_ok (s @ t) = utf8_ok t"
  by (induction s) simp_all

lemma utf8_ok_texts [simp]:
  "utf8_ok (show_int n)" "utf8_ok (hex_encode bs)" "utf8_ok (b64_raw url bs)"
  "utf8_ok (show_int n @ t) = utf8_ok t" "utf8_ok (hex_encode bs @ t) = utf8_ok t"
  "utf8_ok (b64_raw url bs @ t) = utf8_ok t"
  by (simp_all add: is_ascii_utf8_ok utf8_ok_ascii_append)

end
