(* ===== verification/Json_Read.thy ===== *)
theory Json_Read
  imports Go_Json
begin

text \<open>
  Reading JSON text (the scanner and decoder of \<open>encoding/json\<close>) and the round trip with
  \<open>json_print\<close>: a value whose strings are well-formed UTF-8 reads back as itself, so printing is
  injective on such values. Content hashes, key commitments and the mission log rest on this.
\<close>

section \<open>Strings\<close>

definition utf8_encode :: "nat \<Rightarrow> string" where
  "utf8_encode u =
     (if u < 128 then [char_of u]
      else if u < 2048 then [char_of (192 + u div 64), char_of (128 + u mod 64)]
      else if u < 65536 then
        [char_of (224 + u div 4096), char_of (128 + u div 64 mod 64), char_of (128 + u mod 64)]
      else
        [char_of (240 + u div 262144), char_of (128 + u div 4096 mod 64),
         char_of (128 + u div 64 mod 64), char_of (128 + u mod 64)])"

definition replacement :: string where
  "replacement = map char_of [239 :: nat, 191, 189]"

definition hex4 :: "string \<Rightarrow> nat option" where
  "hex4 s =
     (case s of
        a # b # c # d # _ \<Rightarrow>
          (case (hex_val a, hex_val b, hex_val c, hex_val d) of
             (Some w, Some x, Some y, Some z) \<Rightarrow> Some (w * 4096 + x * 256 + y * 16 + z)
           | _ \<Rightarrow> None)
      | _ \<Rightarrow> None)"

text \<open>The code point of a high surrogate \<open>u\<close> followed by the escape of a low one.\<close>

definition surrogate_pair :: "nat \<Rightarrow> string \<Rightarrow> nat option" where
  "surrogate_pair u s =
     (case s of
        b # c # r \<Rightarrow>
          (if b = bslash \<and> c = CHR ''u'' then
             (case hex4 r of
                Some l \<Rightarrow>
                  if u < 56320 \<and> 56320 \<le> l \<and> l < 57344
                  then Some ((u - 55296) * 1024 + (l - 56320) + 65536) else None
              | None \<Rightarrow> None)
           else None)
      | _ \<Rightarrow> None)"

fun cons_text :: "string \<Rightarrow> (string \<times> 'a) option \<Rightarrow> (string \<times> 'a) option" where
  "cons_text x None = None"
| "cons_text x (Some (y, r)) = Some (x @ y, r)"

definition simple_escape :: "char \<Rightarrow> string option" where
  "simple_escape e =
     (if e = dquote \<or> e = bslash \<or> e = CHR ''/'' then Some [e]
      else if e = CHR ''b'' then Some [CHR 0x08]
      else if e = CHR ''f'' then Some [CHR 0x0C]
      else if e = CHR ''n'' then Some [CHR 0x0A]
      else if e = CHR ''r'' then Some [CHR 0x0D]
      else if e = CHR ''t'' then Some [CHR 0x09]
      else None)"

text \<open>The text after an opening quote, up to the closing one.\<close>

function read_string :: "string \<Rightarrow> (string \<times> string) option" where
  "read_string [] = None"
| "read_string (c # s) =
     (if c = dquote then Some ([], s)
      else if c = bslash then
        (case s of
           [] \<Rightarrow> None
         | e # r \<Rightarrow>
             (case simple_escape e of
                Some x \<Rightarrow> cons_text x (read_string r)
              | None \<Rightarrow>
                  if e = CHR ''u'' then
                    (case hex4 r of
                       None \<Rightarrow> None
                     | Some u \<Rightarrow>
                         if 55296 \<le> u \<and> u < 57344 then
                           (case surrogate_pair u (drop 4 r) of
                              Some p \<Rightarrow> cons_text (utf8_encode p) (read_string (drop 10 r))
                            | None \<Rightarrow> cons_text replacement (read_string (drop 4 r)))
                         else cons_text (utf8_encode u) (read_string (drop 4 r)))
                  else None))
      else if char_val c < 32 then None
      else if char_val c < 128 then cons_text [c] (read_string s)
      else if utf8_width (c # s) = 0 then cons_text replacement (read_string s)
      else cons_text (take (utf8_width (c # s)) (c # s))
             (read_string (drop (utf8_width (c # s) - 1) s)))"
  by pat_completeness auto
termination
  by (relation "measure length") auto

lemma read_string_ascii:
  assumes "char_val c < 128"
  shows "read_string (json_escape_ascii c @ r) = cons_text [c] (read_string r)"
proof -
  have h: "hex_val (CHR ''0'') = Some 0" by (simp add: hex_val_def)
  have u00: "read_string (u00 (char_val c) @ r) = cons_text [c] (read_string r)"
    using assms by (simp add: u00_def hex4_def h bslash_def dquote_def simple_escape_def utf8_encode_def)
  show ?thesis
    using assms u00
    by (auto simp: json_escape_ascii_def Let_def bslash_def dquote_def simple_escape_def)
qed

lemma utf8_width_bounds:
  "utf8_width (c # s) \<noteq> 0 \<Longrightarrow> 2 \<le> utf8_width (c # s) \<and> utf8_width (c # s) \<le> Suc (length s)"
  by (auto simp: utf8_width_def split: list.splits if_splits)

text \<open>The width depends on the sequence alone, not on what follows it.\<close>

lemma utf8_width_take:
  "utf8_width (c # s) \<noteq> 0 \<Longrightarrow>
   utf8_width (take (utf8_width (c # s)) (c # s) @ r) = utf8_width (c # s)"
  by (auto simp: utf8_width_def numeral_eq_Suc split: list.splits if_splits)

lemma read_string_rune:
  assumes c: "128 \<le> char_val c" and w: "utf8_width (c # s) \<noteq> 0"
  shows "read_string (json_escape_rune (take (utf8_width (c # s)) (c # s)) @ r)
         = cons_text (take (utf8_width (c # s)) (c # s)) (read_string r)"
proof -
  define w where "w = utf8_width (c # s)"
  define x where "x = take w (c # s)"
  have w2: "2 \<le> w" "w \<le> Suc (length s)"
    using utf8_width_bounds [OF assms(2)] unfolding w_def by simp_all
  then obtain y where y: "x = c # y" and ly: "length y = w - 1"
    unfolding x_def by (cases w) auto
  have wx: "utf8_width (c # y @ r) = w"
    using utf8_width_take [OF assms(2), of r] y unfolding w_def x_def by simp
  have neq: "c \<noteq> dquote" "c \<noteq> bslash" using c by (auto simp: dquote_def bslash_def)
  have plain: "read_string (x @ r) = cons_text x (read_string r)"
  proof -
    have "take w (c # y @ r) = x" "drop (w - 1) (y @ r) = r"
      using y ly w2 by (simp_all add: take_Cons')
    then show ?thesis using c neq w2 wx y by simp
  qed
  have h: "hex_val (CHR ''2'') = Some 2" "hex_val (CHR ''0'') = Some 0"
    "hex_val (CHR ''8'') = Some 8" "hex_val (CHR ''9'') = Some 9"
    by (simp_all add: hex_val_def)
  have esc: "read_string (bslash # ''u2028'' @ r) = cons_text (map char_of [226 :: nat, 128, 168]) (read_string r)"
    "read_string (bslash # ''u2029'' @ r) = cons_text (map char_of [226 :: nat, 128, 169]) (read_string r)"
    by (simp_all add: hex4_def h bslash_def dquote_def simple_escape_def utf8_encode_def)
  show ?thesis
    using plain esc unfolding json_escape_rune_def w_def [symmetric] x_def [symmetric] by auto
qed

lemma cons_text_append: "cons_text x (cons_text y m) = cons_text (x @ y) m"
  by (cases m) auto

lemma read_string_escape:
  "utf8_ok s \<Longrightarrow> read_string (json_escape s @ r) = cons_text s (read_string r)"
proof (induction s arbitrary: r rule: json_escape.induct)
  case 1
  then show ?case by (cases "read_string r") auto
next
  case (2 c s)
  show ?case
  proof (cases "char_val c < 128")
    case True
    then show ?thesis using 2 by (simp add: read_string_ascii cons_text_append)
  next
    case False
    define w where "w = utf8_width (c # s)"
    have w: "w \<noteq> 0" and ok: "utf8_ok (drop (w - 1) s)" using 2 False by (auto simp: w_def)
    have IH: "read_string (json_escape (drop (w - 1) s) @ r)
              = cons_text (drop (w - 1) s) (read_string r)"
      using "2.IH"(3) [of r] False w ok unfolding w_def by simp
    have "take w (c # s) @ drop (w - 1) s = c # s"
      using w by (cases w) auto
    then show ?thesis
      using False w IH read_string_rune [of c s "json_escape (drop (w - 1) s) @ r"]
      by (simp add: w_def [symmetric] cons_text_append)
  qed
qed

lemma read_string_quote:
  "utf8_ok s \<Longrightarrow> read_string (json_escape s @ dquote # r) = Some (s, r)"
  by (simp add: read_string_escape)

section \<open>Numbers\<close>

fun digits_of :: "string \<Rightarrow> string \<times> string" where
  "digits_of [] = ([], [])"
| "digits_of (c # s) =
     (if is_digit c then (case digits_of s of (d, r) \<Rightarrow> (c # d, r)) else ([], c # s))"

text \<open>The integer part: a single zero, or digits that do not start with one.\<close>

definition int_part :: "string \<Rightarrow> (string \<times> string) option" where
  "int_part s =
     (case s of
        [] \<Rightarrow> None
      | c # r \<Rightarrow>
          if c = CHR ''0'' then Some ([c], r)
          else if is_digit c then Some (digits_of s) else None)"

definition frac_part :: "string \<Rightarrow> (string \<times> string) option" where
  "frac_part s =
     (case s of
        [] \<Rightarrow> Some ([], [])
      | c # r \<Rightarrow>
          if c = CHR ''.'' then
            (case digits_of r of (d, r') \<Rightarrow> if d = [] then None else Some (c # d, r'))
          else Some ([], s))"

definition exp_part :: "string \<Rightarrow> (string \<times> string) option" where
  "exp_part s =
     (case s of
        [] \<Rightarrow> Some ([], [])
      | c # r \<Rightarrow>
          if c = CHR ''e'' \<or> c = CHR ''E'' then
            (let sg = takeWhile (\<lambda>x. x = CHR ''+'' \<or> x = CHR ''-'') (take 1 r) in
             case digits_of (drop (length sg) r) of
               (d, r') \<Rightarrow> if d = [] then None else Some (c # sg @ d, r'))
          else Some ([], s))"

definition read_number :: "string \<Rightarrow> (json \<times> string) option" where
  "read_number s =
     (let neg = (case s of [] \<Rightarrow> False | c # _ \<Rightarrow> c = CHR ''-'');
          s1 = (if neg then drop 1 s else s)
      in case int_part s1 of
           None \<Rightarrow> None
         | Some (i, s2) \<Rightarrow>
             (case frac_part s2 of
                None \<Rightarrow> None
              | Some (f, s3) \<Rightarrow>
                  (case exp_part s3 of
                     None \<Rightarrow> None
                   | Some (e, s4) \<Rightarrow>
                       Some (if f = [] \<and> e = []
                             then JNum (if neg then - int (read_nat i) else int (read_nat i))
                             else JReal ((if neg then ''-'' else []) @ i @ f @ e), s4))))"

text \<open>What may follow a printed number: anything that does not continue it.\<close>

definition ends_number :: "string \<Rightarrow> bool" where
  "ends_number r =
     (case r of
        [] \<Rightarrow> True
      | c # _ \<Rightarrow> \<not> is_digit c \<and> c \<noteq> CHR ''.'' \<and> c \<noteq> CHR ''e'' \<and> c \<noteq> CHR ''E'')"

lemma digits_of_append:
  "list_all is_digit d \<Longrightarrow> (case r of [] \<Rightarrow> True | c # _ \<Rightarrow> \<not> is_digit c) \<Longrightarrow> digits_of (d @ r) = (d, r)"
  by (induction d) (auto split: list.splits)

lemma show_nat_first: "show_nat n = c # r \<Longrightarrow> n \<noteq> 0 \<Longrightarrow> c \<noteq> CHR ''0''"
proof (induction n arbitrary: c r rule: show_nat.induct)
  case (1 n)
  show ?case
  proof (cases "n < 10")
    case True
    then have "char_val c = 48 + n" using "1.prems" by (auto simp: show_nat.simps [of n])
    then show ?thesis using "1.prems"(2) by auto
  next
    case False
    obtain d s where ds: "show_nat (n div 10) = d # s" by (cases "show_nat (n div 10)") auto
    then have "d \<noteq> CHR ''0''" using "1.IH" False by auto
    moreover have "c = d" using "1.prems" False ds by (simp add: show_nat.simps [of n])
    ultimately show ?thesis by simp
  qed
qed

lemma int_part_show_nat:
  assumes "ends_number r"
  shows "int_part (show_nat n @ r) = Some (show_nat n, r)"
proof (cases "n = 0")
  case True
  then have "show_nat n = ''0''" by (simp add: show_nat.simps [of 0] digit_char_def char_of_eq_iff)
  then show ?thesis by (simp add: int_part_def)
next
  case False
  obtain c s where cs: "show_nat n = c # s" by (cases "show_nat n") auto
  have c: "c \<noteq> CHR ''0''" using show_nat_first [OF cs False] .
  have d: "list_all is_digit (c # s)" using all_digits_show_nat [of n] cs by (simp add: all_digits_def)
  have r: "case r of [] \<Rightarrow> True | c # _ \<Rightarrow> \<not> is_digit c"
    using assms by (auto simp: ends_number_def split: list.splits)
  show ?thesis using digits_of_append [OF d r] c d by (simp add: int_part_def cs)
qed

lemma ends_number_parts:
  assumes "ends_number r"
  shows "frac_part r = Some ([], r)" and "exp_part r = Some ([], r)"
  using assms by (auto simp: ends_number_def frac_part_def exp_part_def split: list.splits)

lemma read_number_show_int:
  assumes "ends_number r"
  shows "read_number (show_int n @ r) = Some (JNum n, r)"
proof (cases "n < 0")
  case True
  then show ?thesis
    using assms by (simp add: read_number_def show_int_def int_part_show_nat ends_number_parts)
next
  case False
  obtain c s where cs: "show_nat (nat n) = c # s" by (cases "show_nat (nat n)") auto
  then have "is_digit c" by (metis list.set_intros(1) show_nat_digits)
  then have "c \<noteq> CHR ''-''" by (auto dest: is_digit_not_punct)
  then have "(case show_nat (nat n) @ r of [] \<Rightarrow> False | c # _ \<Rightarrow> c = CHR ''-'') = False"
    using cs by simp
  then show ?thesis
    using False assms
    by (simp add: read_number_def show_int_def int_part_show_nat ends_number_parts Let_def)
qed

section \<open>Values\<close>

text \<open>
  The scanner of \<open>encoding/json\<close> refuses nesting deeper than 10000. The first argument bounds
  the recursion; twice the length of the text is enough (\<open>read_fuel_enough\<close>).
\<close>

definition max_depth :: nat where
  "max_depth = 10000"

definition is_ws :: "char \<Rightarrow> bool" where
  "is_ws c = (c = CHR '' '' \<or> c = CHR 0x09 \<or> c = CHR 0x0A \<or> c = CHR 0x0D)"

definition skip_ws :: "string \<Rightarrow> string" where
  "skip_ws s = dropWhile is_ws s"

definition read_literal :: "string \<Rightarrow> json \<Rightarrow> string \<Rightarrow> (json \<times> string) option" where
  "read_literal l v s = (if take (length l) s = l then Some (v, drop (length l) s) else None)"

fun read_value :: "nat \<Rightarrow> nat \<Rightarrow> string \<Rightarrow> (json \<times> string) option"
  and read_elems :: "nat \<Rightarrow> nat \<Rightarrow> string \<Rightarrow> (json list \<times> string) option"
  and read_members :: "nat \<Rightarrow> nat \<Rightarrow> string \<Rightarrow> ((string \<times> json) list \<times> string) option" where
  "read_value 0 d s = None"
| "read_value (Suc n) d s =
     (case skip_ws s of
        [] \<Rightarrow> None
      | c # r \<Rightarrow>
          if c = dquote then
            (case read_string r of None \<Rightarrow> None | Some (x, r') \<Rightarrow> Some (JStr x, r'))
          else if c = CHR ''['' then
            (case d of
               0 \<Rightarrow> None
             | Suc d' \<Rightarrow>
                 (case skip_ws r of
                    [] \<Rightarrow> None
                  | b # r' \<Rightarrow>
                      if b = CHR '']'' then Some (JArr [], r')
                      else (case read_elems n d' r of
                              None \<Rightarrow> None | Some (vs, q) \<Rightarrow> Some (JArr vs, q))))
          else if c = CHR ''{'' then
            (case d of
               0 \<Rightarrow> None
             | Suc d' \<Rightarrow>
                 (case skip_ws r of
                    [] \<Rightarrow> None
                  | b # r' \<Rightarrow>
                      if b = CHR ''}'' then Some (JObj [], r')
                      else (case read_members n d' r of
                              None \<Rightarrow> None | Some (ms, q) \<Rightarrow> Some (JObj ms, q))))
          else if c = CHR ''t'' then read_literal ''true'' (JBool True) (c # r)
          else if c = CHR ''f'' then read_literal ''false'' (JBool False) (c # r)
          else if c = CHR ''n'' then read_literal ''null'' JNull (c # r)
          else read_number (c # r))"
| "read_elems 0 d s = None"
| "read_elems (Suc n) d s =
     (case read_value n d s of
        None \<Rightarrow> None
      | Some (v, r) \<Rightarrow>
          (case skip_ws r of
             [] \<Rightarrow> None
           | c # r' \<Rightarrow>
               if c = CHR '','' then
                 (case read_elems n d r' of None \<Rightarrow> None | Some (vs, q) \<Rightarrow> Some (v # vs, q))
               else if c = CHR '']'' then Some ([v], r')
               else None))"
| "read_members 0 d s = None"
| "read_members (Suc n) d s =
     (case skip_ws s of
        [] \<Rightarrow> None
      | c # r \<Rightarrow>
          if c = dquote then
            (case read_string r of
               None \<Rightarrow> None
             | Some (k, r1) \<Rightarrow>
                 (case skip_ws r1 of
                    [] \<Rightarrow> None
                  | b # r2 \<Rightarrow>
                      if b = CHR '':'' then
                        (case read_value n d r2 of
                           None \<Rightarrow> None
                         | Some (v, r3) \<Rightarrow>
                             (case skip_ws r3 of
                                [] \<Rightarrow> None
                              | e # r4 \<Rightarrow>
                                  if e = CHR '','' then
                                    (case read_members n d r4 of
                                       None \<Rightarrow> None | Some (ms, q) \<Rightarrow> Some ((k, v) # ms, q))
                                  else if e = CHR ''}'' then Some ([(k, v)], r4)
                                  else None))
                      else None))
          else None)"

text \<open>
  \<open>json.Unmarshal\<close> wants one value and nothing but white space after it;
  \<open>json.NewDecoder(r).Decode\<close> reads the first value of the stream.
\<close>

definition json_decode :: "bytes \<Rightarrow> json option" where
  "json_decode s = map_option fst (read_value (2 * length s + 1) max_depth s)"

definition json_unmarshal :: "bytes \<Rightarrow> json option" where
  "json_unmarshal s =
     (case read_value (2 * length s + 1) max_depth s of
        None \<Rightarrow> None | Some (v, r) \<Rightarrow> if skip_ws r = [] then Some v else None)"

section \<open>Reading what was printed\<close>

fun json_depth :: "json \<Rightarrow> nat" where
  "json_depth (JArr vs) = Suc (fold max (map json_depth vs) 0)"
| "json_depth (JObj ms) = Suc (fold max (map (\<lambda>(k, v). json_depth v) ms) 0)"
| "json_depth v = 0"

text \<open>The fuel a value needs.\<close>

fun fuel_list :: "nat list \<Rightarrow> nat" where
  "fuel_list [] = 0"
| "fuel_list (n # ns) = Suc (max n (fuel_list ns))"

fun json_fuel :: "json \<Rightarrow> nat" where
  "json_fuel (JArr vs) = Suc (fuel_list (map json_fuel vs))"
| "json_fuel (JObj ms) = Suc (fuel_list (map (\<lambda>(k, v). json_fuel v) ms))"
| "json_fuel v = 1"

lemma fold_max_le: "fold max ns (a :: nat) \<le> d \<longleftrightarrow> a \<le> d \<and> (\<forall>n \<in> set ns. n \<le> d)"
  by (induction ns arbitrary: a) auto

lemma fuel_list_join:
  "list_all2 (\<lambda>n s. n \<le> length s) ns ss \<Longrightarrow> length sep = 1 \<Longrightarrow>
   fuel_list ns \<le> Suc (length (join sep ss))"
proof (induction sep ss arbitrary: ns rule: join.induct)
  case (1 sep)
  then show ?case by simp
next
  case (2 sep s)
  then show ?case by (auto simp: list_all2_Cons2)
next
  case (3 sep s t r)
  then obtain n ms where "ns = n # ms" "n \<le> length s" "list_all2 (\<lambda>n s. n \<le> length s) ms (t # r)"
    by (auto simp: list_all2_Cons2)
  with "3.IH" [of ms] "3.prems"(2) show ?case by simp
qed

lemma json_fuel_length: "json_clean v \<Longrightarrow> json_fuel v \<le> length (json_print v)"
proof (induction v rule: json_fuel.induct)
  case (1 vs)
  then have "list_all2 (\<lambda>n s. n \<le> length s) (map json_fuel vs) (map json_print vs)"
    by (auto simp: list_all2_conv_all_nth list_all_length)
  then show ?case using fuel_list_join [where sep = "'',''"] by fastforce
next
  case (2 ms)
  have "list_all2 (\<lambda>n s. n \<le> length s) (map (\<lambda>(k, v). json_fuel v) ms)
          (map (\<lambda>(k, v). json_quote k @ '':'' @ json_print v) ms)"
    unfolding list_all2_conv_all_nth
  proof (intro conjI allI impI)
    fix i assume i: "i < length (map (\<lambda>(k, v). json_fuel v) ms)"
    then have m: "ms ! i \<in> set ms" by simp
    obtain k v where kv: "ms ! i = (k, v)" by (cases "ms ! i")
    have "json_fuel v \<le> length (json_print v)"
      using 2 m kv by (fastforce simp: list_all_iff)
    then show "map (\<lambda>(k, v). json_fuel v) ms ! i
               \<le> length (map (\<lambda>(k, v). json_quote k @ '':'' @ json_print v) ms ! i)"
      using i kv by simp
  qed simp
  then show ?case using fuel_list_join [where sep = "'',''"] by fastforce
qed (auto simp: json_quote_def show_int_def Suc_le_eq)

lemma skip_ws_Cons [simp]: "skip_ws (c # s) = (if is_ws c then skip_ws s else c # s)"
  by (simp add: skip_ws_def)

lemma skip_ws_Nil [simp]: "skip_ws [] = []"
  by (simp add: skip_ws_def)

lemma show_int_head: "\<exists>c s. show_int n = c # s \<and> (is_digit c \<or> c = CHR ''-'')"
proof (cases "show_int n")
  case Nil
  then show ?thesis by (simp add: show_int_def split: if_splits)
next
  case (Cons c s)
  then show ?thesis using show_int_chars [of c n] by simp
qed

lemma number_head:
  "is_digit c \<or> c = CHR ''-'' \<Longrightarrow>
   \<not> is_ws c \<and> c \<noteq> dquote \<and> c \<noteq> CHR ''['' \<and> c \<noteq> CHR ''{'' \<and> c \<noteq> CHR ''t'' \<and> c \<noteq> CHR ''f''
   \<and> c \<noteq> CHR ''n'' \<and> c \<noteq> CHR '']''"
  by (auto simp: is_digit_def is_ws_def dquote_def)

lemma json_print_head: "json_clean v \<Longrightarrow> \<exists>c s. json_print v = c # s \<and> \<not> is_ws c \<and> c \<noteq> CHR '']''"
proof (cases v)
  case (JNum n)
  then show ?thesis using show_int_head [of n] number_head by fastforce
qed (auto simp: is_ws_def json_quote_def dquote_def)

lemma join_Cons: "join sep (s # ss) = (if ss = [] then s else s @ sep @ join sep ss)"
  by (cases ss) simp_all

lemma join_head: "\<exists>t. join sep ((c # s) # ss) = c # t"
  by (cases ss) simp_all

definition reads_back :: "json \<Rightarrow> bool" where
  "reads_back v =
     (\<forall>n d r. json_fuel v \<le> n \<longrightarrow> json_depth v \<le> d \<longrightarrow> ends_number r \<longrightarrow>
        read_value n d (json_print v @ r) = Some (v, r))"

lemma reads_backD:
  "reads_back v \<Longrightarrow> json_fuel v \<le> n \<Longrightarrow> json_depth v \<le> d \<Longrightarrow> ends_number r \<Longrightarrow>
   read_value n d (json_print v @ r) = Some (v, r)"
  by (simp add: reads_back_def)

lemma ends_number_punct [simp]:
  "ends_number []" "ends_number (CHR '','' # r)" "ends_number (CHR '']'' # r)"
  "ends_number (CHR ''}'' # r)" "ends_number (CHR 0x0A # r)"
  by (simp_all add: ends_number_def is_digit_def)

lemma read_elems_print:
  assumes "vs \<noteq> []" and "\<forall>v \<in> set vs. reads_back v \<and> json_depth v \<le> d"
    and "fuel_list (map json_fuel vs) \<le> n"
  shows "read_elems n d (join '','' (map json_print vs) @ CHR '']'' # r) = Some (vs, r)"
  using assms
proof (induction vs arbitrary: n)
  case Nil
  then show ?case by simp
next
  case (Cons v vs)
  then obtain m where m: "n = Suc m" by (cases n) auto
  have f: "json_fuel v \<le> m" "fuel_list (map json_fuel vs) \<le> m" using Cons.prems(3) m by simp_all
  have v: "reads_back v" "json_depth v \<le> d" using Cons.prems(2) by simp_all
  show ?case
  proof (cases "vs = []")
    case True
    then show ?thesis using m f v by (simp add: reads_backD is_ws_def)
  next
    case False
    then show ?thesis
      using m f v Cons.IH [OF False, of m] Cons.prems(2)
      by (simp add: join_Cons reads_backD is_ws_def)
  qed
qed

abbreviation print_member :: "string \<times> json \<Rightarrow> string" where
  "print_member \<equiv> \<lambda>(k, v). json_quote k @ '':'' @ json_print v"

lemma read_members_print:
  assumes "ms \<noteq> []" and "\<forall>(k, v) \<in> set ms. utf8_ok k \<and> reads_back v \<and> json_depth v \<le> d"
    and "fuel_list (map (\<lambda>(k, v). json_fuel v) ms) \<le> n"
  shows "read_members n d (join '','' (map print_member ms) @ CHR ''}'' # r) = Some (ms, r)"
  using assms
proof (induction ms arbitrary: n)
  case Nil
  then show ?case by simp
next
  case (Cons kv ms)
  obtain k v where kv: "kv = (k, v)" by (cases kv)
  from Cons kv obtain m where m: "n = Suc m" by (cases n) auto
  have f: "json_fuel v \<le> m" "fuel_list (map (\<lambda>(k, v). json_fuel v) ms) \<le> m"
    using Cons.prems(3) m kv by simp_all
  have v: "utf8_ok k" "reads_back v" "json_depth v \<le> d" using Cons.prems(2) kv by simp_all
  have q: "\<not> is_ws dquote" by (simp add: is_ws_def dquote_def)
  show ?case
  proof (cases "ms = []")
    case True
    then show ?thesis
      using m f v q kv by (simp add: json_quote_def read_string_quote reads_backD is_ws_def [of "CHR '':''"]
          is_ws_def [of "CHR ''}''"])
  next
    case False
    then show ?thesis
      using m f v q kv Cons.IH [OF False, of m] Cons.prems(2)
      by (simp add: join_Cons json_quote_def read_string_quote reads_backD is_ws_def [of "CHR '':''"]
          is_ws_def [of "CHR '',''"])
  qed
qed

lemma depth_arr: "json_depth (JArr vs) \<le> d \<Longrightarrow> \<exists>e. d = Suc e \<and> (\<forall>v \<in> set vs. json_depth v \<le> e)"
  by (cases d) (auto simp: fold_max_le)

lemma depth_obj:
  "json_depth (JObj ms) \<le> d \<Longrightarrow> \<exists>e. d = Suc e \<and> (\<forall>(k, v) \<in> set ms. json_depth v \<le> e)"
  by (cases d) (auto simp: fold_max_le)

lemma reads_back_JNum: "reads_back (JNum n)"
proof -
  have "read_value m d (show_int n @ r) = Some (JNum n, r)" if "1 \<le> m" "ends_number r" for m d r
  proof -
    obtain c s where cs: "show_int n = c # s" and c: "is_digit c \<or> c = CHR ''-''"
      using show_int_head by blast
    obtain k where "m = Suc k" using \<open>1 \<le> m\<close> by (cases m) auto
    moreover have "read_number (c # s @ r) = Some (JNum n, r)"
      using read_number_show_int [OF that(2), of n] cs by simp
    ultimately show ?thesis using number_head [OF c] cs by simp
  qed
  then show ?thesis by (simp add: reads_back_def)
qed

lemma reads_back_JStr: "utf8_ok s \<Longrightarrow> reads_back (JStr s)"
  unfolding reads_back_def
proof (intro allI impI)
  fix n d r assume "utf8_ok s" "json_fuel (JStr s) \<le> n"
  then show "read_value n d (json_print (JStr s) @ r) = Some (JStr s, r)"
    by (cases n) (simp_all add: json_quote_def read_string_quote is_ws_def dquote_def [symmetric],
        simp add: dquote_def)
qed

lemma reads_back_atom: "v \<in> {JNull, JBool b} \<Longrightarrow> reads_back v"
  unfolding reads_back_def
proof (intro allI impI)
  fix n d r assume "v \<in> {JNull, JBool b}" "json_fuel v \<le> n"
  then show "read_value n d (json_print v @ r) = Some (v, r)"
    by (cases n) (auto simp: read_literal_def is_ws_def dquote_def)
qed

lemma reads_back_JArr:
  assumes "\<forall>v \<in> set vs. reads_back v \<and> json_clean v"
  shows "reads_back (JArr vs)"
  unfolding reads_back_def
proof (intro allI impI)
  fix n d r assume n: "json_fuel (JArr vs) \<le> n" and d: "json_depth (JArr vs) \<le> d"
  obtain m where m: "n = Suc m" using n by (cases n) auto
  obtain e where e: "d = Suc e" "\<forall>v \<in> set vs. json_depth v \<le> e" using depth_arr [OF d] by blast
  show "read_value n d (json_print (JArr vs) @ r) = Some (JArr vs, r)"
  proof (cases vs)
    case Nil
    then show ?thesis using m e by (simp add: is_ws_def dquote_def)
  next
    case (Cons v ws)
    then obtain c s where cs: "json_print v = c # s" "\<not> is_ws c" "c \<noteq> CHR '']''"
      using json_print_head [of v] assms by auto
    have "read_elems m e (join '','' (map json_print vs) @ CHR '']'' # r) = Some (vs, r)"
      using n m e assms Cons by (intro read_elems_print) auto
    moreover obtain t where t: "join '','' (map json_print vs) = c # t"
      using join_head [of "'',''" c s "map json_print ws"] cs Cons by auto
    ultimately show ?thesis using m e cs t by (simp add: is_ws_def [of "CHR ''[''"] dquote_def)
  qed
qed

lemma reads_back_JObj:
  assumes "\<forall>(k, v) \<in> set ms. utf8_ok k \<and> reads_back v"
  shows "reads_back (JObj ms)"
  unfolding reads_back_def
proof (intro allI impI)
  fix n d r assume n: "json_fuel (JObj ms) \<le> n" and d: "json_depth (JObj ms) \<le> d"
  obtain m where m: "n = Suc m" using n by (cases n) auto
  obtain e where e: "d = Suc e" "\<forall>(k, v) \<in> set ms. json_depth v \<le> e" using depth_obj [OF d] by blast
  show "read_value n d (json_print (JObj ms) @ r) = Some (JObj ms, r)"
  proof (cases ms)
    case Nil
    then show ?thesis using m e by (simp add: is_ws_def dquote_def)
  next
    case (Cons kv ws)
    have "read_members m e (join '','' (map print_member ms) @ CHR ''}'' # r) = Some (ms, r)"
      using n m e assms Cons by (intro read_members_print) auto
    moreover obtain t where t: "join '','' (map print_member ms) = dquote # t"
      using join_head [of "'',''" dquote _ "map print_member ws"] Cons
      by (cases kv) (auto simp: json_quote_def)
    ultimately show ?thesis using m e t by (simp add: is_ws_def dquote_def)
  qed
qed

theorem json_clean_reads_back: "json_clean v \<Longrightarrow> reads_back v"
proof (induction v rule: json_clean.induct)
  case (2 vs)
  then show ?case by (intro reads_back_JArr) (auto simp: list_all_iff)
next
  case (3 ms)
  then show ?case by (intro reads_back_JObj) (auto simp: list_all_iff)
qed (simp_all add: reads_back_JNum reads_back_JStr reads_back_atom)

text \<open>
  The round trips. The nesting of the program's own documents is at most three, far below the
  bound of the scanner.
\<close>

lemma json_unmarshal_print:
  assumes "json_clean v" and "json_depth v \<le> max_depth"
  shows "json_unmarshal (json_print v) = Some v"
proof -
  have "read_value (2 * length (json_print v) + 1) max_depth (json_print v @ []) = Some (v, [])"
    using assms json_clean_reads_back json_fuel_length [of v] by (intro reads_backD) auto
  then show ?thesis by (simp add: json_unmarshal_def)
qed

lemma json_decode_print:
  assumes "json_clean v" and "json_depth v \<le> max_depth"
  shows "json_decode (json_print v @ ''\<newline>'') = Some v"
proof -
  have "read_value (2 * length (json_print v @ ''\<newline>'') + 1) max_depth (json_print v @ ''\<newline>'') = Some (v, ''\<newline>'')"
    using assms json_clean_reads_back json_fuel_length [of v]
    by (intro reads_backD) auto
  then show ?thesis by (simp add: json_decode_def)
qed

lemma json_print_inject:
  assumes "json_print v = json_print w" and "json_clean v" "json_clean w"
    and "json_depth v \<le> max_depth" "json_depth w \<le> max_depth"
  shows "v = w"
  by (metis assms json_unmarshal_print option.inject)

section \<open>The fuel is enough\<close>

text \<open>
  Every step consumes text, so twice the length of the text bounds the recursion: more fuel never
  changes the result.
\<close>

lemma cons_text_SomeD: "cons_text y m = Some (x, r) \<Longrightarrow> \<exists>x'. m = Some (x', r)"
  by (cases m) auto

lemma read_string_consumes: "read_string s = Some (x, r) \<Longrightarrow> length r < length s"
proof (induction "length s" arbitrary: s x r rule: less_induct)
  case less
  show ?case
  proof (cases s)
    case Nil
    with less.prems show ?thesis by simp
  next
    case (Cons c t)
    have IH: "length r < Suc (length t)" if "read_string u = Some (y, r)" "length u \<le> length t" for u y
      using less.hyps [of u y r] that Cons by simp
    have IHd: "length r < Suc (length t)" if "read_string (drop k t) = Some (y, r)" for k y
      using IH [OF that] by simp
    have IHc: "length r < Suc (Suc (length u))" if "read_string (drop k u) = Some (y, r)" "t = e # u" for e k u y
      using IH [OF that(1)] that(2) by simp
    show ?thesis
      using less.prems unfolding Cons
      by (auto split: if_splits list.splits option.splits 
          dest!: cons_text_SomeD dest: IH IHd IHc)
  qed
qed

lemma digits_of_length: "digits_of s = (d, r) \<Longrightarrow> length s = length d + length r"
  by (induction s arbitrary: d r) (auto split: if_splits prod.splits)

lemma read_number_consumes: "read_number s = Some (v, r) \<Longrightarrow> length r < length s"
proof -
  assume a: "read_number s = Some (v, r)"
  have i: "length q < length u" if "int_part u = Some (p, q)" for u p q
    using that by (auto simp: int_part_def dest!: digits_of_length split: list.splits if_splits prod.splits)
  have f: "length q \<le> length u" if "frac_part u = Some (p, q)" for u p q
    using that by (auto simp: frac_part_def dest!: digits_of_length split: list.splits if_splits prod.splits)
  have e: "length q \<le> length u" if "exp_part u = Some (p, q)" for u p q
    using that by (auto simp: exp_part_def Let_def dest!: digits_of_length split: list.splits if_splits prod.splits)
  have "length (if b then drop 1 s else s) \<le> length s" for b by simp
  then show ?thesis using a
    by (auto simp: read_number_def Let_def dest!: i f e split: option.splits prod.splits list.splits if_splits)
qed

lemma skip_ws_length: "length (skip_ws s) \<le> length s"
  by (simp add: skip_ws_def length_dropWhile_le)

lemma skip_ws_ConsD: "skip_ws s = c # r \<Longrightarrow> length r < length s"
  using skip_ws_length [of s] by simp

lemma read_literal_consumes: "read_literal l v s = Some (w, r) \<Longrightarrow> l \<noteq> [] \<Longrightarrow> length r < length s"
  by (auto simp: read_literal_def split: if_splits)
    (metis Suc_leI diff_less length_0_conv length_greater_0_conv take_Nil take_eq_Nil2)

lemma read_consumes_all:
  "(\<forall>d s v r. read_value n d s = Some (v, r) \<longrightarrow> length r < length s) \<and>
   (\<forall>d s vs r. read_elems n d s = Some (vs, r) \<longrightarrow> length r < length s) \<and>
   (\<forall>d s ms r. read_members n d s = Some (ms, r) \<longrightarrow> length r < length s)"
proof (induction n)
  case 0
  then show ?case by simp
next
  case (Suc n)
  have v: "length r < length s" if "read_value n d s = Some (v, r)" for d s v r
    using Suc that by blast
  have e: "length r < length s" if "read_elems n d s = Some (vs, r)" for d s vs r
    using Suc that by blast
  have m: "length r < length s" if "read_members n d s = Some (ms, r)" for d s ms r
    using Suc that by blast
  note splits = list.splits option.splits if_splits nat.splits prod.splits
  note dests = skip_ws_ConsD read_string_consumes read_literal_consumes read_number_consumes v e m
  show ?case
  proof (intro conjI allI impI)
    fix d s v r assume "read_value (Suc n) d s = Some (v, r)"
    then show "length r < length s" by (auto split: splits dest!: dests)
  next
    fix d s vs r assume "read_elems (Suc n) d s = Some (vs, r)"
    then show "length r < length s" by (auto split: splits dest!: dests)
  next
    fix d s ms r assume "read_members (Suc n) d s = Some (ms, r)"
    then show "length r < length s" by (auto split: splits dest!: dests)
  qed
qed

lemma read_value_consumes: "read_value n d s = Some (v, r) \<Longrightarrow> length r < length s"
  using read_consumes_all by blast

lemma read_fuel_step:
  "(\<forall>d s. 2 * length s < n \<longrightarrow> read_value (Suc n) d s = read_value n d s) \<and>
   (\<forall>d s. 2 * length s + 1 < n \<longrightarrow> read_elems (Suc n) d s = read_elems n d s) \<and>
   (\<forall>d s. 2 * length s + 1 < n \<longrightarrow> read_members (Suc n) d s = read_members n d s)"
proof (induction n)
  case 0
  then show ?case by simp
next
  case (Suc n)
  have v: "read_value (Suc n) d s = read_value n d s" if "2 * length s < n" for d s
    using Suc that by blast
  have e: "read_elems (Suc n) d s = read_elems n d s" if "2 * length s + 1 < n" for d s
    using Suc that by blast
  have m: "read_members (Suc n) d s = read_members n d s" if "2 * length s + 1 < n" for d s
    using Suc that by blast
  show ?case
  proof (intro conjI allI impI)
    fix d and s :: string assume l: "2 * length s < Suc n"
    show "read_value (Suc (Suc n)) d s = read_value (Suc n) d s"
    proof (cases "skip_ws s")
      case Nil
      then show ?thesis by simp
    next
      case (Cons c r)
      then have "2 * length r + 1 < n" using l skip_ws_ConsD [OF Cons] by linarith
      with e [of r] m [of r] Cons show ?thesis
        unfolding read_value.simps(2) [of "Suc n"] read_value.simps(2) [of n]
        by (auto simp del: read_value.simps read_elems.simps read_members.simps
            split: list.splits nat.splits)
    qed
  next
    fix d and s :: string assume l: "2 * length s + 1 < Suc n"
    show "read_elems (Suc (Suc n)) d s = read_elems (Suc n) d s"
    proof (cases "read_value n d s")
      case None
      then show ?thesis using v [of s d] l by (simp del: read_value.simps)
    next
      case (Some p)
      obtain x r where p: "p = (x, r)" by (cases p)
      have "length r < length s" using Some p read_value_consumes by blast
      then have "read_elems (Suc n) d q = read_elems n d q" if "skip_ws r = c # q" for c q
        using skip_ws_ConsD [OF that] l by (intro e) linarith
      then show ?thesis using Some p v [of s d] l
        unfolding read_elems.simps(2) [of "Suc n"] read_elems.simps(2) [of n]
        by (auto simp del: read_value.simps read_elems.simps split: list.splits)
    qed
  next
    fix d and s :: string assume l: "2 * length s + 1 < Suc n"
    show "read_members (Suc (Suc n)) d s = read_members (Suc n) d s"
    proof (cases "skip_ws s")
      case Nil
      then show ?thesis by simp
    next
      case (Cons c r)
      note 1 = Cons
      show ?thesis
      proof (cases "read_string r")
        case None
        with 1 show ?thesis by simp
      next
        case (Some p)
        then obtain k r1 where 2: "read_string r = Some (k, r1)" by (cases p) auto
        show ?thesis
        proof (cases "skip_ws r1")
          case Nil
          with 1 2 show ?thesis by simp
        next
          case (Cons b r2)
          have l2: "length r2 + 1 < length s"
            using skip_ws_ConsD [OF 1] read_string_consumes [OF 2] skip_ws_ConsD [OF Cons] by linarith
          then have 3: "read_value (Suc n) d r2 = read_value n d r2" using l by (intro v) linarith
          have 4: "read_members (Suc n) d r4 = read_members n d r4"
            if "read_value n d r2 = Some (x, r3)" "skip_ws r3 = e # r4" for x r3 e r4
            using read_value_consumes [OF that(1)] skip_ws_ConsD [OF that(2)] l l2 by (intro m) linarith
          show ?thesis
            unfolding read_members.simps(2) [of "Suc n"] read_members.simps(2) [of n]
              1 2 Cons list.case option.case prod.case 3
            by (intro if_cong refl option.case_cong prod.case_cong list.case_cong)
               (auto simp: 4 [unfolded read_members.simps(2) [of n]]
                 simp del: read_members.simps read_value.simps)
        qed
      qed
    qed
  qed
qed

lemma read_fuel_enough:
  assumes "2 * length s < n" shows "read_value n d s = read_value (2 * length s + 1) d s"
  using assms
proof (induction n)
  case 0
  then show ?case by simp
next
  case (Suc n)
  then show ?case using read_fuel_step [of n] by (cases "n = 2 * length s") (simp_all del: read_value.simps)
qed
end
