(* ===== verification/Extern.thy ===== *)
theory Extern
  imports Json_Read
begin

text \<open>
  The code the person server calls and does not contain, gathered in one record that every
  definition using it takes as its argument: go-ethereum's EIP-712 hashing and secp256k1
  recovery, the cryptographic primitives, and the Unicode and time-zone tables of the runtime. The theorems hold for every choice of these functions; where one needs a documented
  law of such a function (a signature made with a key pair verifies) the law is a named predicate and a hypothesis of the theorem, and where one rests on collision
  resistance its conclusion exhibits the collision.
\<close>

section \<open>EIP-712 typed data\<close>

text \<open>\<open>apitypes.TypedData\<close>: a schema, the primary type, the domain and the message.\<close>

datatype td_value =
    TDString string
  | TDMessage "(string \<times> td_value) list"

type_synonym td_types = "(string \<times> (string \<times> string) list) list"

record td_domain =
  Name :: string
  Version :: string
  ChainId :: int
  VerifyingContract :: string

record typed_data =
  Types :: td_types
  PrimaryType :: string
  Domain :: td_domain
  Message :: "(string \<times> td_value) list"

section \<open>The external functions\<close>

record ext =
  TypedDataAndHash :: "typed_data \<Rightarrow> bytes option"
  SigToPub :: "bytes \<Rightarrow> bytes \<Rightarrow> bytes option"
  PubkeyToAddressHex :: "bytes \<Rightarrow> string"
  Keccak256 :: "bytes \<Rightarrow> bytes"
  SHA256 :: "bytes \<Rightarrow> bytes"
  Ed25519Sign :: "bytes \<Rightarrow> bytes \<Rightarrow> bytes"
  Ed25519Verify :: "bytes \<Rightarrow> bytes \<Rightarrow> bytes \<Rightarrow> bool"
  TimeText :: "time \<Rightarrow> string"
  UnicodeLower :: "string \<Rightarrow> string"
  UnicodeEqualFold :: "string \<Rightarrow> string \<Rightarrow> bool"
  UnicodeQuote :: "string \<Rightarrow> string"
  UnicodeTrim :: "string \<Rightarrow> string"

text \<open>
  \<open>TypedDataAndHash\<close> is the EIP-712 hash or an error; \<open>SigToPub\<close> recovers the public key
  that made a signature over a digest; \<open>PubkeyToAddressHex\<close> is the checksummed address of a
  key; \<open>TimeText\<close> is the RFC 3339 text \<open>encoding/json\<close> prints for an instant in the
  server's time zone.
\<close>

section \<open>Documented laws\<close>

text \<open>A signature made with an Ed25519 key pair verifies under its public half.\<close>

definition ed25519_pair :: "ext \<Rightarrow> bytes \<Rightarrow> bytes \<Rightarrow> bool" where
  "ed25519_pair E priv pub =
     (length pub = 32 \<and> (\<forall>m. Ed25519Verify E pub m (Ed25519Sign E priv m)))"

section \<open>Collisions\<close>

text \<open>Two different inputs that a hash function maps to the same value.\<close>

definition collision :: "('a \<Rightarrow> 'b) \<Rightarrow> 'a \<Rightarrow> 'a \<Rightarrow> bool" where
  "collision h x y = (x \<noteq> y \<and> h x = h y)"

lemma hash_eq_cases: "h x = h y \<Longrightarrow> x = y \<or> collision h x y"
  by (auto simp: collision_def)

section \<open>A concrete instance\<close>

text \<open>
  One concrete choice of the external functions, on which the witnesses of the development are
  evaluated. Its hashes are checksums, typed data is hashed without regard to letter case (as
  addresses are), and a signature carries the digest it signs next to the key that made it.
\<close>

fun td_text :: "td_value \<Rightarrow> string" where
  "td_text (TDString s) = s"
| "td_text (TDMessage ms) = concat (map (\<lambda>(k, v). td_text v) ms)"

definition checksum :: "nat \<Rightarrow> bytes \<Rightarrow> bytes" where
  "checksum k s = [char_of (foldl (\<lambda>a c. (k * a + char_val c) mod 256) 7 s)]"

definition sample_ext :: ext where
  "sample_ext =
     \<lparr>TypedDataAndHash = (\<lambda>td. Some (checksum 3 (PrimaryType td @ map ascii_lower (td_text (TDMessage (Message td)))))),
      SigToPub = (\<lambda>d s. if take 32 s = d then Some (drop 32 (take 64 s)) else None),
      PubkeyToAddressHex = (\<lambda>p. ''0x'' @ hex_encode (take 2 p)),
      Keccak256 = checksum 3,
      SHA256 = checksum 5,
      Ed25519Sign = (\<lambda>k m. k @ checksum 7 m),
      Ed25519Verify = (\<lambda>k m s. s = k @ checksum 7 m),
      TimeText = show_int,
      UnicodeLower = id,
      UnicodeEqualFold = (=),
      UnicodeQuote = id,
      UnicodeTrim = id\<rparr>"

lemma sample_ed25519_pair: "length k = 32 \<Longrightarrow> ed25519_pair sample_ext k k"
  by (simp add: ed25519_pair_def sample_ext_def)

end
