(* ===== verification/Attest.thy ===== *)
theory Attest
  imports Extern
begin

text \<open>
  Package \<open>attest\<close> (\<open>internal/attest/psa.go\<close>): the two root-signed attestations
  (PersonServerAuthorization and AgentGrant), their EIP-712 digests, and the verification that
  closes the chain from a root key to an issuer key or to an agent key.
\<close>

section \<open>Types\<close>

record Scope =
  MaxTokenTTLSeconds :: int
  AllowedClaims :: "string slice"
  PaymentCapWei :: string
  StepUpAboveWei :: string

record PSA =
  psa_Root :: string
  psa_Issuer :: string
  psa_KeyThumbprints :: "string slice"
  psa_Scope :: Scope
  psa_NotBefore :: int
  psa_NotAfter :: int
  psa_RegistryChain :: int
  psa_Registry :: string
  psa_Nonce :: "64 word"
  psa_Signature :: "bytes option"

record AgentGrant =
  ag_Root :: string
  ag_AgentIdentifier :: string
  ag_AgentThumbprint :: string
  ag_AgentPubKey :: string
  ag_MissionScopeS256 :: string
  ag_NotBefore :: int
  ag_NotAfter :: int
  ag_RegistryChain :: int
  ag_Registry :: string
  ag_Nonce :: "64 word"
  ag_Signature :: "bytes option"

section \<open>JSON form\<close>

definition Scope_json :: "Scope \<Rightarrow> json" where
  "Scope_json s = JObj
     [(''maxTokenTTLSeconds'', JNum (MaxTokenTTLSeconds s)),
      (''allowedClaims'', json_strings (AllowedClaims s)),
      (''paymentCapWei'', JStr (PaymentCapWei s)),
      (''stepUpAboveWei'', JStr (StepUpAboveWei s))]"

definition PSA_json :: "PSA \<Rightarrow> json" where
  "PSA_json p = JObj
     [(''root'', JStr (psa_Root p)),
      (''issuer'', JStr (psa_Issuer p)),
      (''keyThumbprints'', json_strings (psa_KeyThumbprints p)),
      (''scope'', Scope_json (psa_Scope p)),
      (''notBefore'', JNum (psa_NotBefore p)),
      (''notAfter'', JNum (psa_NotAfter p)),
      (''registryChain'', JNum (psa_RegistryChain p)),
      (''registry'', JStr (psa_Registry p)),
      (''nonce'', JNum (uint (psa_Nonce p))),
      (''signature'', json_bytes (psa_Signature p))]"

definition AgentGrant_json :: "AgentGrant \<Rightarrow> json" where
  "AgentGrant_json g = JObj
     ([(''root'', JStr (ag_Root g)),
       (''agentIdentifier'', JStr (ag_AgentIdentifier g)),
       (''agentThumbprint'', JStr (ag_AgentThumbprint g))]
      @ omitempty (ag_AgentPubKey g = []) ''agentPubKey'' (JStr (ag_AgentPubKey g))
      @ [(''missionScopeS256'', JStr (ag_MissionScopeS256 g)),
         (''notBefore'', JNum (ag_NotBefore g)),
         (''notAfter'', JNum (ag_NotAfter g)),
         (''registryChain'', JNum (ag_RegistryChain g)),
         (''registry'', JStr (ag_Registry g)),
         (''nonce'', JNum (uint (ag_Nonce g))),
         (''signature'', json_bytes (ag_Signature g))])"

definition Scope_zero :: Scope where
  "Scope_zero = \<lparr>MaxTokenTTLSeconds = 0, AllowedClaims = None, PaymentCapWei = [], StepUpAboveWei = []\<rparr>"

definition PSA_zero :: PSA where
  "PSA_zero = \<lparr>psa_Root = [], psa_Issuer = [], psa_KeyThumbprints = None, psa_Scope = Scope_zero,
     psa_NotBefore = 0, psa_NotAfter = 0, psa_RegistryChain = 0, psa_Registry = [], psa_Nonce = 0,
     psa_Signature = None\<rparr>"

definition AgentGrant_zero :: AgentGrant where
  "AgentGrant_zero = \<lparr>ag_Root = [], ag_AgentIdentifier = [], ag_AgentThumbprint = [],
     ag_AgentPubKey = [], ag_MissionScopeS256 = [], ag_NotBefore = 0, ag_NotAfter = 0,
     ag_RegistryChain = 0, ag_Registry = [], ag_Nonce = 0, ag_Signature = None\<rparr>"

definition Scope_fields :: "(string \<times> Scope setter) list" where
  "Scope_fields =
     [(''maxTokenTTLSeconds'', into_int64 (\<lambda>n s. s\<lparr>MaxTokenTTLSeconds := n\<rparr>)),
      (''allowedClaims'', into_strings (\<lambda>x s. s\<lparr>AllowedClaims := x\<rparr>)),
      (''paymentCapWei'', into_string (\<lambda>x s. s\<lparr>PaymentCapWei := x\<rparr>)),
      (''stepUpAboveWei'', into_string (\<lambda>x s. s\<lparr>StepUpAboveWei := x\<rparr>))]"

definition PSA_fields :: "(string \<times> PSA setter) list" where
  "PSA_fields =
     [(''root'', into_string (\<lambda>x p. p\<lparr>psa_Root := x\<rparr>)),
      (''issuer'', into_string (\<lambda>x p. p\<lparr>psa_Issuer := x\<rparr>)),
      (''keyThumbprints'', into_strings (\<lambda>x p. p\<lparr>psa_KeyThumbprints := x\<rparr>)),
      (''scope'', into_record Scope_fields (\<lambda>x p. p\<lparr>psa_Scope := x\<rparr>) psa_Scope),
      (''notBefore'', into_int64 (\<lambda>n p. p\<lparr>psa_NotBefore := n\<rparr>)),
      (''notAfter'', into_int64 (\<lambda>n p. p\<lparr>psa_NotAfter := n\<rparr>)),
      (''registryChain'', into_int64 (\<lambda>n p. p\<lparr>psa_RegistryChain := n\<rparr>)),
      (''registry'', into_string (\<lambda>x p. p\<lparr>psa_Registry := x\<rparr>)),
      (''nonce'', into_uint64 (\<lambda>n p. p\<lparr>psa_Nonce := n\<rparr>)),
      (''signature'', into_bytes (\<lambda>x p. p\<lparr>psa_Signature := x\<rparr>))]"

definition AgentGrant_fields :: "(string \<times> AgentGrant setter) list" where
  "AgentGrant_fields =
     [(''root'', into_string (\<lambda>x g. g\<lparr>ag_Root := x\<rparr>)),
      (''agentIdentifier'', into_string (\<lambda>x g. g\<lparr>ag_AgentIdentifier := x\<rparr>)),
      (''agentThumbprint'', into_string (\<lambda>x g. g\<lparr>ag_AgentThumbprint := x\<rparr>)),
      (''agentPubKey'', into_string (\<lambda>x g. g\<lparr>ag_AgentPubKey := x\<rparr>)),
      (''missionScopeS256'', into_string (\<lambda>x g. g\<lparr>ag_MissionScopeS256 := x\<rparr>)),
      (''notBefore'', into_int64 (\<lambda>n g. g\<lparr>ag_NotBefore := n\<rparr>)),
      (''notAfter'', into_int64 (\<lambda>n g. g\<lparr>ag_NotAfter := n\<rparr>)),
      (''registryChain'', into_int64 (\<lambda>n g. g\<lparr>ag_RegistryChain := n\<rparr>)),
      (''registry'', into_string (\<lambda>x g. g\<lparr>ag_Registry := x\<rparr>)),
      (''nonce'', into_uint64 (\<lambda>n g. g\<lparr>ag_Nonce := n\<rparr>)),
      (''signature'', into_bytes (\<lambda>x g. g\<lparr>ag_Signature := x\<rparr>))]"

definition PSA_of_json :: "json \<Rightarrow> PSA option" where
  "PSA_of_json = into_struct PSA_fields PSA_zero"

definition AgentGrant_of_json :: "json \<Rightarrow> AgentGrant option" where
  "AgentGrant_of_json = into_struct AgentGrant_fields AgentGrant_zero"

text \<open>The \<open>int64\<close> fields hold 64-bit values.\<close>

definition PSA_in_range :: "PSA \<Rightarrow> bool" where
  "PSA_in_range p =
     (in_i64 (MaxTokenTTLSeconds (psa_Scope p)) \<and> in_i64 (psa_NotBefore p)
      \<and> in_i64 (psa_NotAfter p) \<and> in_i64 (psa_RegistryChain p))"

definition AgentGrant_in_range :: "AgentGrant \<Rightarrow> bool" where
  "AgentGrant_in_range g =
     (in_i64 (ag_NotBefore g) \<and> in_i64 (ag_NotAfter g) \<and> in_i64 (ag_RegistryChain g))"

lemma into_Scope:
  "in_i64 (MaxTokenTTLSeconds s) \<Longrightarrow> get a = Scope_zero \<Longrightarrow>
   into_record Scope_fields upd get (Scope_json s) a = Some (upd s a)"
  by (cases s) (simp add: into_record_def Scope_json_def Scope_fields_def find_field_def Scope_zero_def)

lemma PSA_of_json_PSA_json: "PSA_in_range p \<Longrightarrow> PSA_of_json (PSA_json p) = Some p"
  by (simp add: PSA_of_json_def PSA_json_def PSA_fields_def find_field_def
      PSA_zero_def PSA_in_range_def into_Scope)

lemma AgentGrant_of_json_AgentGrant_json:
  "AgentGrant_in_range g \<Longrightarrow> AgentGrant_of_json (AgentGrant_json g) = Some g"
  by (simp add: AgentGrant_of_json_def AgentGrant_json_def AgentGrant_fields_def
      find_field_def AgentGrant_zero_def AgentGrant_in_range_def omitempty_def)

section \<open>Small helpers\<close>

fun contains :: "string list \<Rightarrow> string \<Rightarrow> bool" where
  "contains [] x = False"
| "contains (v # vs) x = (if v = x then True else contains vs x)"

definition orZero :: "string \<Rightarrow> string" where
  "orZero s = (if s = [] then ''0'' else s)"

definition hex_upper_lower :: "char \<Rightarrow> char" where
  "hex_upper_lower c =
     (if 65 \<le> char_val c \<and> char_val c \<le> 70 then char_of (char_val c + 32) else c)"

definition normalizeHex :: "string \<Rightarrow> string" where
  "normalizeHex s =
     map hex_upper_lower
       (if take 2 s = ''0x'' \<or> take 2 s = ''0X'' then drop 2 s else s)"

definition addrEq :: "string \<Rightarrow> string \<Rightarrow> bool" where
  "addrEq a b = (normalizeHex a = normalizeHex b)"

definition keccakJSON :: "ext \<Rightarrow> json \<Rightarrow> string" where
  "keccakJSON E v = ''0x'' @ hex_encode (Keccak256 E (json_print v))"

lemma contains_iff [simp]: "contains xs x \<longleftrightarrow> x \<in> set xs"
  by (induction xs) auto

section \<open>EIP-712 digests\<close>

definition eip712_domain :: "int \<Rightarrow> string \<Rightarrow> td_domain" where
  "eip712_domain chainID registry =
     \<lparr>Name = ''SignetPS'', Version = ''1'', ChainId = chainID, VerifyingContract = registry\<rparr>"

definition psaTypes :: td_types where
  "psaTypes =
     [(''EIP712Domain'',
       [(''name'', ''string''), (''version'', ''string''),
        (''chainId'', ''uint256''), (''verifyingContract'', ''address'')]),
      (''Scope'',
       [(''maxTokenTTLSeconds'', ''uint256''), (''allowedClaimsHash'', ''bytes32''),
        (''paymentCapWei'', ''uint256''), (''stepUpAboveWei'', ''uint256'')]),
      (''PersonServerAuthorization'',
       [(''root'', ''address''), (''issuer'', ''string''), (''keyThumbprintsHash'', ''bytes32''),
        (''scope'', ''Scope''), (''notBefore'', ''uint256''), (''notAfter'', ''uint256''),
        (''nonce'', ''uint256'')]),
      (''AgentGrant'',
       [(''root'', ''address''), (''agentIdentifier'', ''string''), (''agentThumbprint'', ''string''),
        (''missionScopeS256'', ''bytes32''), (''notBefore'', ''uint256''),
        (''notAfter'', ''uint256''), (''nonce'', ''uint256'')])]"

text \<open>\<open>copy(out[:], hash)\<close> into an array of 32 bytes.\<close>

definition copy32 :: "bytes \<Rightarrow> bytes" where
  "copy32 h = take 32 h @ replicate (32 - length h) (CHR 0x00)"

definition typedDataDigest :: "ext \<Rightarrow> typed_data \<Rightarrow> bytes option" where
  "typedDataDigest E td =
     (case TypedDataAndHash E td of None \<Rightarrow> None | Some h \<Rightarrow> Some (copy32 h))"

definition PSA_message :: "ext \<Rightarrow> PSA \<Rightarrow> (string \<times> td_value) list" where
  "PSA_message E p =
     [(''root'', TDString (psa_Root p)),
      (''issuer'', TDString (psa_Issuer p)),
      (''keyThumbprintsHash'', TDString (keccakJSON E (json_strings (psa_KeyThumbprints p)))),
      (''scope'', TDMessage
         [(''maxTokenTTLSeconds'', TDString (show_int (MaxTokenTTLSeconds (psa_Scope p)))),
          (''allowedClaimsHash'', TDString (keccakJSON E (json_strings (AllowedClaims (psa_Scope p))))),
          (''paymentCapWei'', TDString (orZero (PaymentCapWei (psa_Scope p)))),
          (''stepUpAboveWei'', TDString (orZero (StepUpAboveWei (psa_Scope p))))]),
      (''notBefore'', TDString (show_int (psa_NotBefore p))),
      (''notAfter'', TDString (show_int (psa_NotAfter p))),
      (''nonce'', TDString (show_nat (unat (psa_Nonce p))))]"

definition PSA_typed_data :: "ext \<Rightarrow> PSA \<Rightarrow> typed_data" where
  "PSA_typed_data E p =
     \<lparr>Types = psaTypes, PrimaryType = ''PersonServerAuthorization'',
      Domain = eip712_domain (psa_RegistryChain p) (psa_Registry p), Message = PSA_message E p\<rparr>"

definition PSADigest :: "ext \<Rightarrow> PSA \<Rightarrow> bytes option" where
  "PSADigest E p = typedDataDigest E (PSA_typed_data E p)"

definition AgentGrant_message :: "AgentGrant \<Rightarrow> (string \<times> td_value) list" where
  "AgentGrant_message g =
     [(''root'', TDString (ag_Root g)),
      (''agentIdentifier'', TDString (ag_AgentIdentifier g)),
      (''agentThumbprint'', TDString (ag_AgentThumbprint g)),
      (''missionScopeS256'', TDString (''0x'' @ ag_MissionScopeS256 g)),
      (''notBefore'', TDString (show_int (ag_NotBefore g))),
      (''notAfter'', TDString (show_int (ag_NotAfter g))),
      (''nonce'', TDString (show_nat (unat (ag_Nonce g))))]"

definition AgentGrant_typed_data :: "AgentGrant \<Rightarrow> typed_data" where
  "AgentGrant_typed_data g =
     \<lparr>Types = psaTypes, PrimaryType = ''AgentGrant'',
      Domain = eip712_domain (ag_RegistryChain g) (ag_Registry g), Message = AgentGrant_message g\<rparr>"

definition AgentGrantDigest :: "ext \<Rightarrow> AgentGrant \<Rightarrow> bytes option" where
  "AgentGrantDigest E g = typedDataDigest E (AgentGrant_typed_data g)"

section \<open>Verification\<close>

datatype attest_err =
    IssuerMismatch string string
  | PsaOutsideWindow
  | KeyNotAuthorized string
  | PsaDigestErr
  | PsaRootSig attest_err
  | PsaRegistryUnavailable string
  | PsaRevoked string "64 word"
  | AgRootMismatch
  | AgIdentifierMismatch
  | AgKeyMismatch
  | AgOutsideWindow
  | AgDigestErr
  | AgRootSig attest_err
  | AgRegistryUnavailable string
  | AgRevoked
  | ERC1271Err string
  | RootSigInvalid string

text \<open>
  The two interfaces of the package: the revocation registry (chain, registry address, root,
  nonce) and the smart-account verifier (chain, account, digest, signature), each of which can
  also fail. A verifier without an \<open>ERC1271\<close> field works for plain keys only.
\<close>

type_synonym registry = "int \<Rightarrow> string \<Rightarrow> string \<Rightarrow> 64 word \<Rightarrow> string + bool"
type_synonym erc1271 = "int \<Rightarrow> string \<Rightarrow> bytes \<Rightarrow> bytes \<Rightarrow> string + bool"

record verifier =
  Registry :: registry
  ERC1271 :: "erc1271 option"
  Now :: time

text \<open>The recovery byte of a signature may be 0, 1 or the legacy 27, 28.\<close>

definition normalizeV :: "bytes \<Rightarrow> bytes" where
  "normalizeV sig =
     (if 27 \<le> char_val (sig ! 64) then sig[64 := char_of (char_val (sig ! 64) - 27)] else sig)"

definition recoverAddress :: "ext \<Rightarrow> bytes \<Rightarrow> bytes \<Rightarrow> string option" where
  "recoverAddress E digest sig =
     (case SigToPub E digest (normalizeV sig) of
        None \<Rightarrow> None | Some pub \<Rightarrow> Some (PubkeyToAddressHex E pub))"

definition eoaSigned :: "ext \<Rightarrow> string \<Rightarrow> bytes \<Rightarrow> bytes \<Rightarrow> bool" where
  "eoaSigned E root digest sig =
     (length sig = 65 \<and>
      (case recoverAddress E digest sig of None \<Rightarrow> False | Some a \<Rightarrow> addrEq a root))"

definition verifyRootSig ::
  "ext \<Rightarrow> verifier \<Rightarrow> int \<Rightarrow> string \<Rightarrow> bytes \<Rightarrow> bytes \<Rightarrow> attest_err + unit" where
  "verifyRootSig E v chainID root digest sig =
     (if eoaSigned E root digest sig then Inr ()
      else case ERC1271 v of
             None \<Rightarrow> Inl (RootSigInvalid root)
           | Some isValid \<Rightarrow>
               (case isValid chainID root digest sig of
                  Inl e \<Rightarrow> Inl (ERC1271Err e)
                | Inr ok \<Rightarrow> if ok then Inr () else Inl (RootSigInvalid root)))"

definition VerifyPSA :: "ext \<Rightarrow> verifier \<Rightarrow> PSA \<Rightarrow> string \<Rightarrow> string \<Rightarrow> attest_err + unit" where
  "VerifyPSA E v p issuer issuerKeyThumb =
     (let now = Unix (Now v) in
      if psa_Issuer p \<noteq> issuer then Inl (IssuerMismatch (psa_Issuer p) issuer)
      else if now < psa_NotBefore p \<or> now > psa_NotAfter p then Inl PsaOutsideWindow
      else if \<not> contains (elems (psa_KeyThumbprints p)) issuerKeyThumb
      then Inl (KeyNotAuthorized issuerKeyThumb)
      else case PSADigest E p of
             None \<Rightarrow> Inl PsaDigestErr
           | Some digest \<Rightarrow>
               (case verifyRootSig E v (psa_RegistryChain p) (psa_Root p) digest
                       (elems (psa_Signature p)) of
                  Inl e \<Rightarrow> Inl (PsaRootSig e)
                | Inr _ \<Rightarrow>
                    (case Registry v (psa_RegistryChain p) (psa_Registry p) (psa_Root p) (psa_Nonce p) of
                       Inl e \<Rightarrow> Inl (PsaRegistryUnavailable e)
                     | Inr revoked \<Rightarrow>
                         if revoked then Inl (PsaRevoked (psa_Root p) (psa_Nonce p)) else Inr ())))"

definition VerifyAgentGrant ::
  "ext \<Rightarrow> verifier \<Rightarrow> AgentGrant \<Rightarrow> string \<Rightarrow> string \<Rightarrow> string \<Rightarrow> attest_err + unit" where
  "VerifyAgentGrant E v g root agentID agentThumb =
     (let now = Unix (Now v) in
      if ag_Root g \<noteq> root then Inl AgRootMismatch
      else if ag_AgentIdentifier g \<noteq> agentID then Inl AgIdentifierMismatch
      else if ag_AgentThumbprint g \<noteq> agentThumb then Inl AgKeyMismatch
      else if now < ag_NotBefore g \<or> now > ag_NotAfter g then Inl AgOutsideWindow
      else case AgentGrantDigest E g of
             None \<Rightarrow> Inl AgDigestErr
           | Some digest \<Rightarrow>
               (case verifyRootSig E v (ag_RegistryChain g) (ag_Root g) digest
                       (elems (ag_Signature g)) of
                  Inl e \<Rightarrow> Inl (AgRootSig e)
                | Inr _ \<Rightarrow>
                    (case Registry v (ag_RegistryChain g) (ag_Registry g) (ag_Root g) (ag_Nonce g) of
                       Inl e \<Rightarrow> Inl (AgRegistryUnavailable e)
                     | Inr revoked \<Rightarrow> if revoked then Inl AgRevoked else Inr ())))"

text \<open>The hash of the signed JSON document, by which tokens refer to it.\<close>

definition ContentHash :: "ext \<Rightarrow> json \<Rightarrow> string" where
  "ContentHash E v = hex_encode (SHA256 E (json_print v))"

declare VerifyPSA_def [result_defs] VerifyAgentGrant_def [result_defs] verifyRootSig_def [result_defs]

section \<open>What verification establishes\<close>

definition rootSigned :: "ext \<Rightarrow> verifier \<Rightarrow> int \<Rightarrow> string \<Rightarrow> bytes \<Rightarrow> bytes \<Rightarrow> bool" where
  "rootSigned E v chainID root digest sig =
     (eoaSigned E root digest sig \<or>
      (case ERC1271 v of None \<Rightarrow> False | Some isValid \<Rightarrow> isValid chainID root digest sig = Inr True))"

definition PSA_signed :: "ext \<Rightarrow> verifier \<Rightarrow> PSA \<Rightarrow> bool" where
  "PSA_signed E v p =
     (case PSADigest E p of
        None \<Rightarrow> False
      | Some d \<Rightarrow> rootSigned E v (psa_RegistryChain p) (psa_Root p) d (elems (psa_Signature p)))"

definition AgentGrant_signed :: "ext \<Rightarrow> verifier \<Rightarrow> AgentGrant \<Rightarrow> bool" where
  "AgentGrant_signed E v g =
     (case AgentGrantDigest E g of
        None \<Rightarrow> False
      | Some d \<Rightarrow> rootSigned E v (ag_RegistryChain g) (ag_Root g) d (elems (ag_Signature g)))"

lemma verifyRootSig_iff:
  "verifyRootSig E v chainID root digest sig = Inr () \<longleftrightarrow> rootSigned E v chainID root digest sig"
  by (auto simp: verifyRootSig_def rootSigned_def split: option.splits sum.splits)

lemma unit_result: "(r :: 'e + unit) = Inr u \<longleftrightarrow> r = Inr ()"
  by simp

lemma VerifyPSA_accepts:
  "VerifyPSA E v p issuer thumb = Inr () \<longleftrightarrow>
     psa_Issuer p = issuer
     \<and> psa_NotBefore p \<le> Unix (Now v) \<and> Unix (Now v) \<le> psa_NotAfter p
     \<and> thumb \<in> set (elems (psa_KeyThumbprints p))
     \<and> PSA_signed E v p
     \<and> Registry v (psa_RegistryChain p) (psa_Registry p) (psa_Root p) (psa_Nonce p) = Inr False"
  unfolding PSA_signed_def
  by (auto simp: VerifyPSA_def Let_def verifyRootSig_iff [symmetric] split: option.splits sum.splits)

lemma VerifyAgentGrant_accepts:
  "VerifyAgentGrant E v g root agentID agentThumb = Inr () \<longleftrightarrow>
     ag_Root g = root \<and> ag_AgentIdentifier g = agentID \<and> ag_AgentThumbprint g = agentThumb
     \<and> ag_NotBefore g \<le> Unix (Now v) \<and> Unix (Now v) \<le> ag_NotAfter g
     \<and> AgentGrant_signed E v g
     \<and> Registry v (ag_RegistryChain g) (ag_Registry g) (ag_Root g) (ag_Nonce g) = Inr False"
  unfolding AgentGrant_signed_def
  by (auto simp: VerifyAgentGrant_def Let_def verifyRootSig_iff [symmetric] split: option.splits sum.splits)

text \<open>A registry that does not answer makes both verifications fail (I4).\<close>

lemma registry_unavailable_rejects:
  "Registry v (psa_RegistryChain p) (psa_Registry p) (psa_Root p) (psa_Nonce p) = Inl e \<Longrightarrow>
   VerifyPSA E v p issuer thumb \<noteq> Inr ()"
  "Registry v (ag_RegistryChain g) (ag_Registry g) (ag_Root g) (ag_Nonce g) = Inl e \<Longrightarrow>
   VerifyAgentGrant E v g root agentID agentThumb \<noteq> Inr ()"
  by (simp_all add: VerifyPSA_accepts VerifyAgentGrant_accepts)

section \<open>Addresses and signatures\<close>

lemma hex_upper_lower_idem [simp]: "hex_upper_lower (hex_upper_lower c) = hex_upper_lower c"
  by (simp add: hex_upper_lower_def)

lemma normalizeHex_prefix [simp]:
  "normalizeHex (CHR ''0'' # CHR ''x'' # s) = map hex_upper_lower s"
  "normalizeHex (CHR ''0'' # CHR ''X'' # s) = map hex_upper_lower s"
  by (simp_all add: normalizeHex_def)

lemma addrEq_equivalence: "addrEq a a" "addrEq a b \<Longrightarrow> addrEq b a" "addrEq a b \<Longrightarrow> addrEq b c \<Longrightarrow> addrEq a c"
  by (simp_all add: addrEq_def)

text \<open>The two encodings of the recovery byte verify alike.\<close>

lemma eoaSigned_legacy_v:
  assumes "length sig = 65" and "char_val (sig ! 64) < 27"
  shows "eoaSigned E root d (sig[64 := char_of (char_val (sig ! 64) + 27)]) = eoaSigned E root d sig"
proof -
  have "normalizeV (sig[64 := char_of (char_val (sig ! 64) + 27)]) = sig"
    using assms by (simp add: normalizeV_def list_update_id)
  moreover have "normalizeV sig = sig" using assms by (simp add: normalizeV_def)
  ultimately show ?thesis using assms by (simp add: eoaSigned_def recoverAddress_def)
qed

section \<open>The digest commits to every signed field\<close>

text \<open>
  Two attestations that agree in every field but the signature; an empty amount is signed as
  zero.
\<close>

definition same_scope :: "Scope \<Rightarrow> Scope \<Rightarrow> bool" where
  "same_scope s t =
     (MaxTokenTTLSeconds s = MaxTokenTTLSeconds t \<and> AllowedClaims s = AllowedClaims t
      \<and> orZero (PaymentCapWei s) = orZero (PaymentCapWei t)
      \<and> orZero (StepUpAboveWei s) = orZero (StepUpAboveWei t))"

definition same_signed_PSA :: "PSA \<Rightarrow> PSA \<Rightarrow> bool" where
  "same_signed_PSA p q =
     (psa_Root p = psa_Root q \<and> psa_Issuer p = psa_Issuer q
      \<and> psa_KeyThumbprints p = psa_KeyThumbprints q \<and> same_scope (psa_Scope p) (psa_Scope q)
      \<and> psa_NotBefore p = psa_NotBefore q \<and> psa_NotAfter p = psa_NotAfter q
      \<and> psa_RegistryChain p = psa_RegistryChain q \<and> psa_Registry p = psa_Registry q
      \<and> psa_Nonce p = psa_Nonce q)"

definition same_signed_AgentGrant :: "AgentGrant \<Rightarrow> AgentGrant \<Rightarrow> bool" where
  "same_signed_AgentGrant g h =
     (ag_Root g = ag_Root h \<and> ag_AgentIdentifier g = ag_AgentIdentifier h
      \<and> ag_AgentThumbprint g = ag_AgentThumbprint h \<and> ag_MissionScopeS256 g = ag_MissionScopeS256 h
      \<and> ag_NotBefore g = ag_NotBefore h \<and> ag_NotAfter g = ag_NotAfter h
      \<and> ag_RegistryChain g = ag_RegistryChain h \<and> ag_Registry g = ag_Registry h
      \<and> ag_Nonce g = ag_Nonce h)"

lemma json_strings_clean: "list_all utf8_ok (elems s) \<Longrightarrow> json_clean (json_strings s)"
  by (cases s) (auto simp: json_strings_def list_all_iff)

lemma json_strings_depth: "json_depth (json_strings s) \<le> max_depth"
  by (cases s) (auto simp: json_strings_def max_depth_def fold_max_le)

lemma json_strings_inject: "json_strings s = json_strings t \<longleftrightarrow> s = t"
  by (cases s; cases t) (auto simp: json_strings_def inj_map_eq_map inj_def)

lemma keccakJSON_strings:
  assumes "keccakJSON E (json_strings a) = keccakJSON E (json_strings b)"
    and "list_all utf8_ok (elems a)" and "list_all utf8_ok (elems b)"
  shows "a = b \<or> collision (Keccak256 E) (json_print (json_strings a)) (json_print (json_strings b))"
proof (cases "json_print (json_strings a) = json_print (json_strings b)")
  case True
  then have "json_strings a = json_strings b"
    using assms json_strings_clean json_strings_depth by (intro json_print_inject) auto
  then show ?thesis by (simp add: json_strings_inject)
next
  case False
  then show ?thesis using assms(1) by (simp add: keccakJSON_def collision_def)
qed

definition PSA_texts_ok :: "PSA \<Rightarrow> bool" where
  "PSA_texts_ok p =
     (list_all utf8_ok (elems (psa_KeyThumbprints p))
      \<and> list_all utf8_ok (elems (AllowedClaims (psa_Scope p))))"

definition PSA_list_collision :: "ext \<Rightarrow> PSA \<Rightarrow> PSA \<Rightarrow> bool" where
  "PSA_list_collision E p q =
     (collision (Keccak256 E) (json_print (json_strings (psa_KeyThumbprints p)))
        (json_print (json_strings (psa_KeyThumbprints q)))
      \<or> collision (Keccak256 E) (json_print (json_strings (AllowedClaims (psa_Scope p))))
          (json_print (json_strings (AllowedClaims (psa_Scope q)))))"

lemma PSA_typed_data_eq:
  assumes "PSA_typed_data E p = PSA_typed_data E q" and "PSA_texts_ok p" and "PSA_texts_ok q"
  shows "same_signed_PSA p q \<or> PSA_list_collision E p q"
  using assms keccakJSON_strings [of E "psa_KeyThumbprints p" "psa_KeyThumbprints q"]
    keccakJSON_strings [of E "AllowedClaims (psa_Scope p)" "AllowedClaims (psa_Scope q)"]
  by (auto simp: PSA_typed_data_def PSA_message_def eip712_domain_def same_signed_PSA_def
      same_scope_def PSA_list_collision_def PSA_texts_ok_def)

lemma AgentGrant_typed_data_eq:
  "AgentGrant_typed_data g = AgentGrant_typed_data h \<longleftrightarrow> same_signed_AgentGrant g h"
  by (auto simp: AgentGrant_typed_data_def AgentGrant_message_def eip712_domain_def
      same_signed_AgentGrant_def)

lemma typed_data_kinds_differ: "PSA_typed_data E p \<noteq> AgentGrant_typed_data g"
  by (simp add: PSA_typed_data_def AgentGrant_typed_data_def)

lemma digest_eq_cases:
  "typedDataDigest E x = Some d \<Longrightarrow> typedDataDigest E y = Some d \<Longrightarrow>
   x = y \<or> collision (typedDataDigest E) x y"
  by (auto simp: collision_def)

lemma b64_std_ascii: "is_ascii (b64_std bs)"
proof -
  have "char_val c < 128" if "c \<in> set (b64_raw False bs)" for c
    using set_b64_raw [OF that] by (auto simp: b64_class_def Let_def)
  then show ?thesis by (auto simp: is_ascii_def list_all_iff b64_std_def)
qed

lemma json_bytes_clean [simp]: "json_clean (json_bytes s)"
  by (cases s) (auto simp: json_bytes_def intro: is_ascii_utf8_ok b64_std_ascii)

lemma PSA_json_depth: "json_depth (PSA_json p) \<le> max_depth"
  by (cases "psa_KeyThumbprints p"; cases "AllowedClaims (psa_Scope p)"; cases "psa_Signature p")
    (auto simp: PSA_json_def Scope_json_def json_strings_def json_bytes_def max_depth_def fold_max_le)

lemma AgentGrant_json_depth: "json_depth (AgentGrant_json p) \<le> max_depth"
  by (cases "ag_Signature p")
    (auto simp: AgentGrant_json_def json_bytes_def max_depth_def fold_max_le omitempty_def)

section \<open>A concrete attestation\<close>

definition sample_root :: string where
  "sample_root = ''0x6b6b''"

definition sample_signature :: "bytes option \<Rightarrow> bytes option" where
  "sample_signature d =
     (case d of None \<Rightarrow> None | Some d \<Rightarrow> Some (d @ replicate 32 (CHR ''k'') @ [CHR 0x1B]))"

definition sample_psa_unsigned :: PSA where
  "sample_psa_unsigned =
     \<lparr>psa_Root = sample_root, psa_Issuer = ''https://ps'', psa_KeyThumbprints = Some [''t1''],
      psa_Scope = \<lparr>MaxTokenTTLSeconds = 600, AllowedClaims = Some [''email''],
        PaymentCapWei = ''1000'', StepUpAboveWei = ''100''\<rparr>,
      psa_NotBefore = 100, psa_NotAfter = 5000, psa_RegistryChain = 8453, psa_Registry = ''0xa1'',
      psa_Nonce = 7, psa_Signature = None\<rparr>"

definition sample_sign_psa :: "PSA \<Rightarrow> PSA" where
  "sample_sign_psa p = p\<lparr>psa_Signature := sample_signature (PSADigest sample_ext p)\<rparr>"

definition sample_psa :: PSA where
  "sample_psa = sample_sign_psa sample_psa_unsigned"

definition sample_grant_unsigned :: AgentGrant where
  "sample_grant_unsigned =
     \<lparr>ag_Root = sample_root, ag_AgentIdentifier = ''aauth:a@b'', ag_AgentThumbprint = ''t2'',
      ag_AgentPubKey = ''pk'', ag_MissionScopeS256 = ''00'', ag_NotBefore = 100,
      ag_NotAfter = 5000, ag_RegistryChain = 8453, ag_Registry = ''0xa1'', ag_Nonce = 9,
      ag_Signature = None\<rparr>"

definition sample_sign_grant :: "AgentGrant \<Rightarrow> AgentGrant" where
  "sample_sign_grant g = g\<lparr>ag_Signature := sample_signature (AgentGrantDigest sample_ext g)\<rparr>"

definition sample_grant :: AgentGrant where
  "sample_grant = sample_sign_grant sample_grant_unsigned"

definition sample_verifier :: verifier where
  "sample_verifier = \<lparr>Registry = (\<lambda>_ _ _ _. Inr False), ERC1271 = None, Now = 1000 * Second\<rparr>"

lemma length_copy32 [simp]: "length (copy32 h) = 32"
  by (simp add: copy32_def)

lemma sample_digest: "\<exists>d. typedDataDigest sample_ext td = Some d \<and> length d = 32"
  by (simp add: typedDataDigest_def sample_ext_def)

lemma sample_eoaSigned:
  assumes "length d = 32"
  shows "eoaSigned sample_ext sample_root d (d @ replicate 32 (CHR ''k'') @ [CHR 0x1B])"
proof -
  have "normalizeV (d @ replicate 32 (CHR ''k'') @ [CHR 0x1B]) = d @ replicate 32 (CHR ''k'') @ [CHR 0x00]"
    using assms by (simp add: normalizeV_def nth_append list_update_append char_of_eq_iff)
  moreover have "SigToPub sample_ext d (d @ replicate 32 (CHR ''k'') @ [CHR 0x00]) = Some (replicate 32 (CHR ''k''))"
    using assms by (simp add: sample_ext_def)
  ultimately show ?thesis
    using assms by (simp add: eoaSigned_def recoverAddress_def sample_ext_def sample_root_def addrEq_def
        normalizeHex_def hex_char_def numeral_2_eq_2 hex_upper_lower_def char_of_eq_iff)
qed

lemma psa_fields_sign [simp]:
  "psa_Root (sample_sign_psa p) = psa_Root p" "psa_Issuer (sample_sign_psa p) = psa_Issuer p"
  "psa_KeyThumbprints (sample_sign_psa p) = psa_KeyThumbprints p"
  "psa_Scope (sample_sign_psa p) = psa_Scope p"
  "psa_NotBefore (sample_sign_psa p) = psa_NotBefore p" "psa_NotAfter (sample_sign_psa p) = psa_NotAfter p"
  "psa_RegistryChain (sample_sign_psa p) = psa_RegistryChain p"
  "psa_Registry (sample_sign_psa p) = psa_Registry p" "psa_Nonce (sample_sign_psa p) = psa_Nonce p"
  by (simp_all add: sample_sign_psa_def)

lemma ag_fields_sign [simp]:
  "ag_Root (sample_sign_grant g) = ag_Root g"
  "ag_AgentIdentifier (sample_sign_grant g) = ag_AgentIdentifier g"
  "ag_AgentThumbprint (sample_sign_grant g) = ag_AgentThumbprint g"
  "ag_AgentPubKey (sample_sign_grant g) = ag_AgentPubKey g"
  "ag_MissionScopeS256 (sample_sign_grant g) = ag_MissionScopeS256 g"
  "ag_NotBefore (sample_sign_grant g) = ag_NotBefore g" "ag_NotAfter (sample_sign_grant g) = ag_NotAfter g"
  "ag_RegistryChain (sample_sign_grant g) = ag_RegistryChain g"
  "ag_Registry (sample_sign_grant g) = ag_Registry g" "ag_Nonce (sample_sign_grant g) = ag_Nonce g"
  by (simp_all add: sample_sign_grant_def)

lemma PSADigest_sign [simp]: "PSADigest E (sample_sign_psa p) = PSADigest E p"
  by (simp add: PSADigest_def PSA_typed_data_def PSA_message_def)

lemma sample_psa_signed:
  assumes "psa_Root p = sample_root"
  shows "PSA_signed sample_ext v (sample_sign_psa p)"
proof -
  obtain d where d: "PSADigest sample_ext p = Some d" "length d = 32"
    using sample_digest unfolding PSADigest_def by blast
  then show ?thesis
    using assms sample_eoaSigned [OF d(2)]
    by (simp add: PSA_signed_def rootSigned_def) (simp add: sample_sign_psa_def sample_signature_def)
qed

lemma AgentGrantDigest_sign [simp]: "AgentGrantDigest E (sample_sign_grant g) = AgentGrantDigest E g"
  by (simp add: AgentGrantDigest_def AgentGrant_typed_data_def AgentGrant_message_def sample_sign_grant_def)

lemma sample_grant_signed:
  assumes "ag_Root g = sample_root"
  shows "AgentGrant_signed sample_ext v (sample_sign_grant g)"
proof -
  obtain d where d: "AgentGrantDigest sample_ext g = Some d" "length d = 32"
    using sample_digest unfolding AgentGrantDigest_def by blast
  then show ?thesis
    using assms sample_eoaSigned [OF d(2)]
    by (simp add: AgentGrant_signed_def rootSigned_def) (simp add: sample_sign_grant_def sample_signature_def)
qed

lemma sample_signed:
  "PSA_signed sample_ext v sample_psa" "AgentGrant_signed sample_ext v sample_grant"
  unfolding sample_psa_def sample_grant_def
  by (rule sample_psa_signed, simp add: sample_psa_unsigned_def)
    (rule sample_grant_signed, simp add: sample_grant_unsigned_def)

lemma sample_psa_verifies:
  "VerifyPSA sample_ext sample_verifier sample_psa ''https://ps'' ''t1'' = Inr ()"
  using sample_signed(1) [of sample_verifier]
  by (simp add: VerifyPSA_accepts)
    (simp add: sample_psa_def sample_psa_unsigned_def sample_verifier_def Unix_def Second_def)

lemma sample_grant_verifies:
  "VerifyAgentGrant sample_ext sample_verifier sample_grant sample_root ''aauth:a@b'' ''t2'' = Inr ()"
  using sample_signed(2) [of sample_verifier]
  by (simp add: VerifyAgentGrant_accepts)
    (simp add: sample_grant_def sample_grant_unsigned_def sample_verifier_def Unix_def Second_def)

section \<open>Properties\<close>

text \<open>C10: \<open>VerifyPSA\<close> accepts an authorization exactly when it is for this
  issuer, the clock is inside its window, it lists the signing key, the root (its address recovered
  from the signature, or its smart account) signed its EIP-712 digest, and the registry answers
  that the handle (root, nonce) is not revoked. A registry that fails to answer is a rejection.\<close>

theorem psa_accepted_iff:
  "VerifyPSA E v p issuer thumb = Inr () \<longleftrightarrow>
     psa_Issuer p = issuer
     \<and> psa_NotBefore p \<le> Unix (Now v) \<and> Unix (Now v) \<le> psa_NotAfter p
     \<and> thumb \<in> set (elems (psa_KeyThumbprints p))
     \<and> PSA_signed E v p
     \<and> Registry v (psa_RegistryChain p) (psa_Registry p) (psa_Root p) (psa_Nonce p) = Inr False"
  by (fact VerifyPSA_accepts)

text \<open>\<open>VerifyAgentGrant\<close> accepts a grant exactly when it names this
  root, agent and agent key, the clock is inside its window, the root signed its digest, and the
  registry answers that its handle is not revoked.\<close>

theorem grant_accepted_iff:
  "VerifyAgentGrant E v g root agentID agentThumb = Inr () \<longleftrightarrow>
     ag_Root g = root \<and> ag_AgentIdentifier g = agentID \<and> ag_AgentThumbprint g = agentThumb
     \<and> ag_NotBefore g \<le> Unix (Now v) \<and> Unix (Now v) \<le> ag_NotAfter g
     \<and> AgentGrant_signed E v g
     \<and> Registry v (ag_RegistryChain g) (ag_Registry g) (ag_Root g) (ag_Nonce g) = Inr False"
  by (fact VerifyAgentGrant_accepts)



text \<open>Two grants with the same digest agree in every signed field, or
  exhibit a collision of the EIP-712 hash. The agent's public key is not among those fields.\<close>

theorem grant_digest_commits:
  assumes "AgentGrantDigest E g = Some d" and "AgentGrantDigest E h = Some d"
  shows "same_signed_AgentGrant g h
         \<or> collision (typedDataDigest E) (AgentGrant_typed_data g) (AgentGrant_typed_data h)"
  using assms digest_eq_cases AgentGrant_typed_data_eq unfolding AgentGrantDigest_def by blast

theorem grant_digest_commits_witness:
  "same_signed_AgentGrant sample_grant (sample_grant\<lparr>ag_AgentPubKey := ''other''\<rparr>)
   \<or> collision (typedDataDigest sample_ext) (AgentGrant_typed_data sample_grant)
       (AgentGrant_typed_data (sample_grant\<lparr>ag_AgentPubKey := ''other''\<rparr>))"
proof -
  obtain d where "AgentGrantDigest sample_ext sample_grant = Some d"
    using sample_digest unfolding AgentGrantDigest_def by blast
  moreover have "AgentGrantDigest sample_ext (sample_grant\<lparr>ag_AgentPubKey := ''other''\<rparr>)
                 = AgentGrantDigest sample_ext sample_grant"
    by (simp add: AgentGrantDigest_def AgentGrant_typed_data_def AgentGrant_message_def)
  ultimately show ?thesis by (intro grant_digest_commits) auto
qed

text \<open>The content hash by which a token refers to an attestation pins the
  whole signed document: two attestations with the same hash are equal in every field, the
  signature included, or their JSON texts are a collision of SHA-256.\<close>

theorem content_hash_pins:
  assumes "ContentHash E (PSA_json p) = ContentHash E (PSA_json q)"
    and "json_clean (PSA_json p)" "json_clean (PSA_json q)" "PSA_in_range p" "PSA_in_range q"
  shows "p = q \<or> collision (SHA256 E) (json_print (PSA_json p)) (json_print (PSA_json q))"
proof (cases "json_print (PSA_json p) = json_print (PSA_json q)")
  case True
  then have "PSA_json p = PSA_json q"
    using assms PSA_json_depth by (intro json_print_inject) auto
  then show ?thesis using assms(4,5) PSA_of_json_PSA_json by (metis option.inject)
next
  case False
  then show ?thesis using assms(1) by (simp add: ContentHash_def collision_def)
qed

theorem content_hash_pins_witness:
  "sample_psa = sample_psa
   \<or> collision (SHA256 sample_ext) (json_print (PSA_json sample_psa)) (json_print (PSA_json sample_psa))"
proof -
  have "json_clean (PSA_json sample_psa)" "PSA_in_range sample_psa"
    by (simp_all add: PSA_json_def Scope_json_def json_strings_def PSA_in_range_def in_i64_def
        sample_psa_def sample_psa_unsigned_def sample_root_def)
  then show ?thesis by (intro content_hash_pins) auto
qed

text \<open>A signature verifies for a root with recovery byte 0 or 1
  exactly when it verifies with the legacy byte 27 or 28.\<close>

theorem legacy_v_verifies_alike:
  assumes "length sig = 65" and "char_val (sig ! 64) < 27"
  shows "eoaSigned E root d (sig[64 := char_of (char_val (sig ! 64) + 27)]) = eoaSigned E root d sig"
  using assms by (rule eoaSigned_legacy_v)

theorem legacy_v_verifies_alike_witness:
  "eoaSigned sample_ext sample_root [] ((replicate 65 (CHR 0x01))[64 := char_of (1 + 27 :: nat)])
   = eoaSigned sample_ext sample_root [] (replicate 65 (CHR 0x01))"
  using legacy_v_verifies_alike [of "replicate 65 (CHR 0x01)" sample_ext sample_root "[]"]
  by (simp add: nth_replicate)

end
