(* ===== verification/Missions.thy ===== *)
theory Missions
  imports Attest
begin

text \<open>
  Package \<open>missions\<close> (\<open>internal/missions/missions.go\<close>): the append-only, hash-chained log of
  what an agent and the person server did, one chain per agent, and the (trivial) judge of
  intent consistency.
\<close>

section \<open>The log\<close>

record Entry =
  Kind :: string
  RequestID :: string
  At :: time
  Prev :: string
  Hash :: string

record Log =
  chains :: "string \<rightharpoonup> Entry list"

definition NewLog :: Log where
  "NewLog = \<lparr>chains = Map.empty\<rparr>"

text \<open>The chain of an agent; reading a missing key of a Go map gives the nil slice.\<close>

definition chain :: "Log \<Rightarrow> string \<Rightarrow> Entry list" where
  "chain l agentID = (case chains l agentID of None \<Rightarrow> [] | Some es \<Rightarrow> es)"

text \<open>The anonymous struct whose JSON is hashed; it has no tags, so the field names are its keys.\<close>

definition entry_body :: "ext \<Rightarrow> Entry \<Rightarrow> json" where
  "entry_body E e = JObj
     [(''Kind'', JStr (Kind e)), (''RequestID'', JStr (RequestID e)), (''Prev'', JStr (Prev e)),
      (''At'', JStr (TimeText E (At e)))]"

definition entry_hash :: "ext \<Rightarrow> Entry \<Rightarrow> string" where
  "entry_hash E e = hex_encode (SHA256 E (json_print (entry_body E e)))"

definition Append :: "ext \<Rightarrow> Log \<Rightarrow> string \<Rightarrow> Entry \<Rightarrow> Log" where
  "Append E l agentID e =
     (let es = chain l agentID;
          e1 = (if length es > 0 then e\<lparr>Prev := Hash (es ! (length es - 1))\<rparr> else e);
          e2 = e1\<lparr>Hash := entry_hash E e1\<rparr>
      in l\<lparr>chains := (chains l)(agentID \<mapsto> es @ [e2])\<rparr>)"

definition Export :: "Log \<Rightarrow> (string \<rightharpoonup> Entry list)" where
  "Export l = (\<lambda>k. case chains l k of None \<Rightarrow> None | Some es \<Rightarrow> Some ([] @ es))"

definition Consistent :: "Log \<Rightarrow> string \<Rightarrow> string \<Rightarrow> string list \<Rightarrow> string \<Rightarrow> string + unit" where
  "Consistent l agentID missionS256 scope amountWei =
     (if missionS256 = [] then Inl ''no mission bound to agent'' else Inr ())"

definition AutoApprovable :: "Log \<Rightarrow> string \<Rightarrow> string list \<Rightarrow> string \<Rightarrow> bool" where
  "AutoApprovable l agentID scope amountWei = False"

text \<open>An entry as \<open>Export\<close> writes it, and the entry a caller builds from a kind and a request.\<close>

definition Entry_json :: "ext \<Rightarrow> Entry \<Rightarrow> json" where
  "Entry_json E e = JObj
     ([(''kind'', JStr (Kind e))]
      @ omitempty (RequestID e = []) ''request_id'' (JStr (RequestID e))
      @ [(''at'', JStr (TimeText E (At e))), (''prev'', JStr (Prev e)), (''hash'', JStr (Hash e))])"

definition new_entry :: "string \<Rightarrow> string \<Rightarrow> time \<Rightarrow> Entry" where
  "new_entry kind rid t = \<lparr>Kind = kind, RequestID = rid, At = t, Prev = [], Hash = []\<rparr>"

lemma chain_update [simp]:
  "chain (l\<lparr>chains := (chains l)(a \<mapsto> es)\<rparr>) b = (if b = a then es else chain l b)"
  by (simp add: chain_def)

lemma chain_NewLog [simp]: "chain NewLog a = []"
  by (simp add: chain_def NewLog_def)

lemma chain_Append_other [simp]: "b \<noteq> a \<Longrightarrow> chain (Append E l a e) b = chain l b"
  by (simp add: Append_def Let_def)

definition seal :: "ext \<Rightarrow> Entry list \<Rightarrow> Entry \<Rightarrow> Entry" where
  "seal E es e =
     (let e1 = (if es = [] then e else e\<lparr>Prev := Hash (last es)\<rparr>) in e1\<lparr>Hash := entry_hash E e1\<rparr>)"

lemma chain_Append [simp]: "chain (Append E l a e) a = chain l a @ [seal E (chain l a) e]"
  by (simp add: Append_def seal_def Let_def last_conv_nth)

lemma Export_eq [simp]: "Export l = chains l"
  by (rule ext) (simp add: Export_def split: option.split)

section \<open>An append-only log\<close>

text \<open>
  What the rest of the server may rely on: appending for one agent extends that agent's entries
  and leaves every other agent's alone.
\<close>

locale agent_log =
  fixes entries :: "'l \<Rightarrow> string \<Rightarrow> 'e list"
    and append :: "'l \<Rightarrow> string \<Rightarrow> 'x \<Rightarrow> 'l"
  assumes append_own: "\<exists>y. entries (append l a x) a = entries l a @ [y]"
    and append_other: "b \<noteq> a \<Longrightarrow> entries (append l a x) b = entries l b"
begin

definition history :: "'l \<Rightarrow> (string \<times> 'x) list \<Rightarrow> 'l" where
  "history l ops = fold (\<lambda>(a, x) l. append l a x) ops l"

lemma append_extends: "\<exists>zs. entries (append l a x) b = entries l b @ zs"
  using append_own [of l a x] append_other [of b a l x] by (cases "b = a") auto

lemma history_extends: "\<exists>zs. entries (history l ops) b = entries l b @ zs"
proof (induction ops arbitrary: l)
  case Nil
  then show ?case by (simp add: history_def)
next
  case (Cons op ops)
  obtain a x where op: "op = (a, x)" by (cases op)
  obtain zs where "entries (history (append l a x) ops) b = entries (append l a x) b @ zs"
    using Cons by blast
  then show ?case using append_extends [of l a x b] by (auto simp: history_def op)
qed

lemma history_counts:
  "length (entries (history l ops) b) = length (entries l b) + length (filter (\<lambda>op. fst op = b) ops)"
proof (induction ops arbitrary: l)
  case Nil
  then show ?case by (simp add: history_def)
next
  case (Cons op ops)
  obtain a x where op: "op = (a, x)" by (cases op)
  have "length (entries (append l a x) b) = length (entries l b) + (if a = b then 1 else 0)"
    using append_own [of l a x] append_other [of b a l x] by (cases "b = a") auto
  then show ?case using Cons [of "append l a x"] by (simp add: history_def op)
qed

end

interpretation mlog: agent_log chain "Append E" for E
  by unfold_locales simp_all

section \<open>The chain invariant\<close>

fun chain_ok :: "ext \<Rightarrow> string \<Rightarrow> Entry list \<Rightarrow> bool" where
  "chain_ok E p [] = True"
| "chain_ok E p (e # es) = (Prev e = p \<and> Hash e = entry_hash E e \<and> chain_ok E (Hash e) es)"

definition head_hash :: "string \<Rightarrow> Entry list \<Rightarrow> string" where
  "head_hash p es = (if es = [] then p else Hash (last es))"

definition log_ok :: "ext \<Rightarrow> Log \<Rightarrow> bool" where
  "log_ok E l = (\<forall>a. chain_ok E [] (chain l a))"

lemma entry_hash_of_Hash [simp]: "entry_hash E (e\<lparr>Hash := h\<rparr>) = entry_hash E e"
  by (simp add: entry_hash_def entry_body_def)

lemma chain_ok_snoc:
  "chain_ok E p (es @ [e]) \<longleftrightarrow>
     chain_ok E p es \<and> Prev e = head_hash p es \<and> Hash e = entry_hash E e"
  by (induction es arbitrary: p) (auto simp: head_hash_def)

lemma chain_ok_seal:
  "chain_ok E [] es \<Longrightarrow> Prev e = [] \<Longrightarrow> chain_ok E [] (es @ [seal E es e])"
  by (simp add: chain_ok_snoc seal_def Let_def head_hash_def)

lemma log_ok_New [simp]: "log_ok E NewLog"
  by (simp add: log_ok_def)

lemma log_ok_Append [wf_intros]: "log_ok E l \<Longrightarrow> Prev e = [] \<Longrightarrow> log_ok E (Append E l a e)"
  unfolding log_ok_def
proof
  fix b
  assume ok: "\<forall>a. chain_ok E [] (chain l a)" and "Prev e = []"
  then show "chain_ok E [] (chain (Append E l a e) b)"
    by (cases "b = a") (simp_all add: chain_ok_seal)
qed

lemma log_ok_history:
  "log_ok E l \<Longrightarrow> \<forall>(a, e) \<in> set ops. Prev e = [] \<Longrightarrow> log_ok E (mlog.history E l ops)"
proof (induction ops arbitrary: l)
  case Nil
  then show ?case by (simp add: mlog.history_def)
next
  case (Cons op ops)
  then show ?case by (cases op) (simp add: mlog.history_def log_ok_Append)
qed

section \<open>Tamper evidence\<close>

definition entry_clean :: "ext \<Rightarrow> Entry \<Rightarrow> bool" where
  "entry_clean E e = json_clean (entry_body E e)"

text \<open>Two entries that record the same: everything but the time zone details of the instant.\<close>

definition same_entry :: "ext \<Rightarrow> Entry \<Rightarrow> Entry \<Rightarrow> bool" where
  "same_entry E a b =
     (Kind a = Kind b \<and> RequestID a = RequestID b \<and> TimeText E (At a) = TimeText E (At b)
      \<and> Prev a = Prev b \<and> Hash a = Hash b)"

definition chain_collision :: "ext \<Rightarrow> Entry list \<Rightarrow> Entry list \<Rightarrow> bool" where
  "chain_collision E xs ys =
     (\<exists>x \<in> set xs. \<exists>y \<in> set ys.
        collision (SHA256 E) (json_print (entry_body E x)) (json_print (entry_body E y)))"

definition sha256_digests :: "ext \<Rightarrow> bool" where
  "sha256_digests E = (\<forall>m. SHA256 E m \<noteq> [])"

lemma entry_body_depth: "json_depth (entry_body E e) \<le> max_depth"
  by (simp add: entry_body_def max_depth_def)

lemma entry_body_inject:
  "entry_body E a = entry_body E b \<Longrightarrow> Hash a = Hash b \<Longrightarrow> same_entry E a b"
  by (simp add: entry_body_def same_entry_def)

lemma entry_hash_eq:
  assumes "entry_hash E a = entry_hash E b" and "entry_clean E a" "entry_clean E b"
    and "Hash a = Hash b"
  shows "same_entry E a b \<or> collision (SHA256 E) (json_print (entry_body E a)) (json_print (entry_body E b))"
proof (cases "json_print (entry_body E a) = json_print (entry_body E b)")
  case True
  then have "entry_body E a = entry_body E b"
    using assms entry_body_depth by (intro json_print_inject) (auto simp: entry_clean_def)
  then show ?thesis using assms(4) entry_body_inject by blast
next
  case False
  then show ?thesis using assms(1) by (simp add: entry_hash_def collision_def)
qed

lemma entry_hash_not_Nil: "sha256_digests E \<Longrightarrow> entry_hash E e \<noteq> []"
  using length_hex_encode [of "SHA256 E (json_print (entry_body E e))"]
  by (auto simp: entry_hash_def sha256_digests_def simp del: length_hex_encode)

lemma head_hash_Nil:
  "sha256_digests E \<Longrightarrow> chain_ok E [] xs \<Longrightarrow> head_hash [] xs = [] \<longleftrightarrow> xs = []"
  by (cases xs rule: rev_cases) (auto simp: head_hash_def chain_ok_snoc entry_hash_not_Nil)

lemma chain_heads_agree:
  assumes "sha256_digests E" and "chain_ok E [] xs" and "chain_ok E [] ys"
    and "head_hash [] xs = head_hash [] ys"
    and "\<forall>e \<in> set xs \<union> set ys. entry_clean E e"
  shows "list_all2 (same_entry E) xs ys \<or> chain_collision E xs ys"
  using assms(2-)
proof (induction xs arbitrary: ys rule: rev_induct)
  case Nil
  then show ?case using head_hash_Nil [OF assms(1), of ys] by (simp add: head_hash_def)
next
  case (snoc x xs)
  have "ys \<noteq> []"
    using snoc.prems head_hash_Nil [OF assms(1), of "xs @ [x]"] by (auto simp: head_hash_def)
  then obtain ys' y where ys: "ys = ys' @ [y]" by (cases ys rule: rev_cases) auto
  have "entry_hash E x = entry_hash E y" "Hash x = Hash y"
    using snoc.prems by (simp_all add: ys chain_ok_snoc head_hash_def)
  then consider "same_entry E x y" | "chain_collision E (xs @ [x]) ys"
    using entry_hash_eq [of E x y] snoc.prems by (auto simp: ys chain_collision_def)
  then show ?case
  proof cases
    case 1
    then have "head_hash [] xs = head_hash [] ys'"
      using snoc.prems by (simp add: ys chain_ok_snoc same_entry_def)
    then have "list_all2 (same_entry E) xs ys' \<or> chain_collision E xs ys'"
      using snoc by (simp add: ys chain_ok_snoc)
    then show ?thesis using 1 by (auto simp: ys chain_collision_def list_all2_appendI)
  qed blast
qed

section \<open>Properties\<close>



text \<open>No sequence of appends rewrites or drops an entry: each agent's
  chain afterwards is its old chain followed by exactly one new entry per append for that agent.\<close>

theorem mission_log_append_only:
  "\<exists>zs. chain (fold (\<lambda>(a, e) l. Append E l a e) ops l) b = chain l b @ zs
      \<and> length zs = length (filter (\<lambda>op. fst op = b) ops)"
  using mlog.history_extends [of E l ops b] mlog.history_counts [of E l ops b]
  by (auto simp: mlog.history_def)

text \<open>C32: the head hash of an exported chain pins its whole history:
  two linked chains with the same head hash record the same entries in the same order, or two of
  their entries are a collision of SHA-256.\<close>

theorem mission_log_tamper_evident:
  assumes "sha256_digests E" and "chain_ok E [] xs" and "chain_ok E [] ys"
    and "head_hash [] xs = head_hash [] ys"
    and "\<forall>e \<in> set xs \<union> set ys. entry_clean E e"
  shows "list_all2 (same_entry E) xs ys \<or> chain_collision E xs ys"
  using assms by (rule chain_heads_agree)

definition sample_chain :: "Entry list" where
  "sample_chain = [seal sample_ext [] (new_entry ''token_request'' ''r1'' 5)]"

theorem mission_log_tamper_evident_witness:
  "list_all2 (same_entry sample_ext) sample_chain sample_chain
   \<or> chain_collision sample_ext sample_chain sample_chain"
proof (rule mission_log_tamper_evident)
  show "sha256_digests sample_ext"
    by (simp add: sha256_digests_def sample_ext_def checksum_def)
  show "chain_ok sample_ext [] sample_chain" "chain_ok sample_ext [] sample_chain"
    using chain_ok_seal [of sample_ext "[]"] by (simp_all add: sample_chain_def new_entry_def)
  show "\<forall>e \<in> set sample_chain \<union> set sample_chain. entry_clean sample_ext e"
    by (simp add: sample_chain_def seal_def Let_def new_entry_def entry_clean_def entry_body_def)
      (simp add: sample_ext_def)
qed simp

end
