(* ===== verification/Registry.thy ===== *)
theory Registry
  imports Attest
begin

text \<open>
  The revocation registries (\<open>internal/store/registry.go\<close>): the in-memory set of revoked
  (root, nonce) handles, and the on-chain adapter, whose lookup is not written yet and always
  fails. The interface \<open>RevocationRegistry\<close> of package \<open>attest\<close> is a locale: what the
  verifier relies on is stated and used there once, and \<open>MemoryRegistry\<close> is its provider.
\<close>

section \<open>The interface\<close>

text \<open>Only the revocation check reads the registry of a verifier.\<close>

lemma verifyRootSig_registry [simp]:
  "verifyRootSig E (v\<lparr>Registry := f\<rparr>) chainID root d sig = verifyRootSig E v chainID root d sig"
  by (simp add: verifyRootSig_def)

lemma signed_registry [simp]:
  "PSA_signed E (v\<lparr>Registry := f\<rparr>) p = PSA_signed E v p"
  "AgentGrant_signed E (v\<lparr>Registry := f\<rparr>) g = AgentGrant_signed E v g"
  by (simp_all add: PSA_signed_def AgentGrant_signed_def rootSigned_def split: option.split)

locale revocation_registry =
  fixes is_revoked :: "'r \<Rightarrow> registry"
    and revoke :: "'r \<Rightarrow> string \<Rightarrow> 64 word \<Rightarrow> 'r"
  assumes revoke_hits: "is_revoked (revoke r root n) c a root n = Inr True"
    and revoke_keeps: "(root', n') \<noteq> (root, n) \<Longrightarrow>
          is_revoked (revoke r root n) c a root' n' = is_revoked r c a root' n'"
begin

text \<open>A revoked handle stays revoked whatever is revoked after it.\<close>

lemma revoke_mono:
  "is_revoked r c a root n = Inr True \<Longrightarrow> is_revoked (revoke r root' n') c a root n = Inr True"
  by (cases "(root, n) = (root', n')") (auto simp: revoke_hits revoke_keeps)

lemma revoked_stays:
  "is_revoked (fold (\<lambda>(root, n) r. revoke r root n) hs (revoke r root n)) c a root n = Inr True"
proof -
  have "is_revoked r' c a root n = Inr True \<Longrightarrow>
        is_revoked (fold (\<lambda>(root, n) r. revoke r root n) hs r') c a root n = Inr True" for r'
    by (induction hs arbitrary: r') (auto intro: revoke_mono)
  then show ?thesis by (simp add: revoke_hits)
qed

lemma revoked_psa_rejected:
  "VerifyPSA E (v\<lparr>Registry := is_revoked (fold (\<lambda>(root, n) r. revoke r root n) hs
       (revoke r (psa_Root p) (psa_Nonce p)))\<rparr>) p issuer thumb \<noteq> Inr ()"
  by (simp add: VerifyPSA_accepts revoked_stays)

lemma revoked_grant_rejected:
  "VerifyAgentGrant E (v\<lparr>Registry := is_revoked (fold (\<lambda>(root, n) r. revoke r root n) hs
       (revoke r (ag_Root g) (ag_Nonce g)))\<rparr>) g root agentID thumb \<noteq> Inr ()"
  by (simp add: VerifyAgentGrant_accepts revoked_stays)

text \<open>Revoking one handle does not change the verdict on a document with another.\<close>

lemma revoke_keeps_psa:
  assumes "(psa_Root p, psa_Nonce p) \<noteq> (root, n)"
  shows "VerifyPSA E (v\<lparr>Registry := is_revoked (revoke r root n)\<rparr>) p issuer thumb
         = VerifyPSA E (v\<lparr>Registry := is_revoked r\<rparr>) p issuer thumb"
  using assms
  by (auto simp: VerifyPSA_def Let_def verifyRootSig_registry revoke_keeps split: option.split sum.split)

lemma revoke_keeps_grant:
  assumes "(ag_Root g, ag_Nonce g) \<noteq> (root', n)"
  shows "VerifyAgentGrant E (v\<lparr>Registry := is_revoked (revoke r root' n)\<rparr>) g root agentID thumb
         = VerifyAgentGrant E (v\<lparr>Registry := is_revoked r\<rparr>) g root agentID thumb"
  using assms
  by (auto simp: VerifyAgentGrant_def Let_def verifyRootSig_registry revoke_keeps split: option.split sum.split)

end

section \<open>The in-memory registry\<close>

record MemoryRegistry =
  revoked :: "string \<rightharpoonup> bool"

definition NewMemoryRegistry :: MemoryRegistry where
  "NewMemoryRegistry = \<lparr>revoked = Map.empty\<rparr>"

text \<open>\<open>fmt.Sprintf("%s#%d", root, nonce)\<close>\<close>

definition key :: "string \<Rightarrow> 64 word \<Rightarrow> string" where
  "key root nonce = root @ ''#'' @ show_nat (unat nonce)"

definition Revoke :: "MemoryRegistry \<Rightarrow> string \<Rightarrow> 64 word \<Rightarrow> MemoryRegistry" where
  "Revoke m root nonce = m\<lparr>revoked := (revoked m)(key root nonce \<mapsto> True)\<rparr>"

definition IsRevoked :: "MemoryRegistry \<Rightarrow> registry" where
  "IsRevoked m chainID registry root nonce =
     Inr (case revoked m (key root nonce) of None \<Rightarrow> False | Some b \<Rightarrow> b)"

text \<open>
  A root may itself contain the separator, but the nonce is printed with digits only, so the last
  separator splits the key.
\<close>

lemma key_inject [simp]: "key root n = key root' n' \<longleftrightarrow> root = root' \<and> n = n'"
proof
  have sep: "CHR ''#'' \<notin> set (show_nat k)" for k
    using show_nat_digits [of "CHR ''#''" k] by (auto simp: is_digit_def)
  assume "key root n = key root' n'"
  then have "root = root' \<and> show_nat (unat n) = show_nat (unat n')"
    unfolding key_def using sep by (intro append_eq_sep_last [where c = "CHR ''#''"]) auto
  then show "root = root' \<and> n = n'" by simp
qed simp

interpretation memory: revocation_registry IsRevoked Revoke
  by unfold_locales (auto simp: IsRevoked_def Revoke_def)

lemma IsRevoked_new [simp]: "IsRevoked NewMemoryRegistry c a root n = Inr False"
  by (simp add: IsRevoked_def NewMemoryRegistry_def)

lemma IsRevoked_Revoke:
  "IsRevoked (Revoke m root n) c a root' n' =
     (if (root', n') = (root, n) then Inr True else IsRevoked m c a root' n')"
  using memory.revoke_hits memory.revoke_keeps by auto

section \<open>The on-chain adapter\<close>

record BaseRegistry =
  RPC :: string
  CacheTTL :: int

text \<open>The lookup is a stub that returns an error; only the start of its message is kept.\<close>

definition BaseIsRevoked :: "BaseRegistry \<Rightarrow> registry" where
  "BaseIsRevoked b chainID registry root nonce =
     Inl (''TODO(v0): eth_call revokedAt(root,nonce) via '' @ RPC b)"

section \<open>Properties\<close>

text \<open>Once a root has revoked the handle of an authorization in the
  in-memory registry, no later state of that registry lets \<open>VerifyPSA\<close> accept the document:
  nothing un-revokes, whatever is revoked afterwards, for every issuer, key and time (I2, I4).\<close>

theorem revocation_is_final:
  "VerifyPSA E (v\<lparr>Registry := IsRevoked (fold (\<lambda>(root, n) m. Revoke m root n) hs
       (Revoke m (psa_Root p) (psa_Nonce p)))\<rparr>) p issuer thumb \<noteq> Inr ()"
  by (rule memory.revoked_psa_rejected)

text \<open>Revoking one (root, nonce) handle leaves the verdict on every
  authorization and every grant with another handle as it was, so a person can leave one server or
  drop one agent without touching anything else they have signed.\<close>

theorem revocation_is_selective:
  assumes "(psa_Root p, psa_Nonce p) \<noteq> (root, n)" and "(ag_Root g, ag_Nonce g) \<noteq> (root, n)"
  shows "VerifyPSA E (v\<lparr>Registry := IsRevoked (Revoke m root n)\<rparr>) p issuer thumb
           = VerifyPSA E (v\<lparr>Registry := IsRevoked m\<rparr>) p issuer thumb
         \<and> VerifyAgentGrant E (v\<lparr>Registry := IsRevoked (Revoke m root n)\<rparr>) g r agentID athumb
           = VerifyAgentGrant E (v\<lparr>Registry := IsRevoked m\<rparr>) g r agentID athumb"
  using assms memory.revoke_keeps_psa memory.revoke_keeps_grant by blast

theorem revocation_is_selective_witness:
  "VerifyPSA sample_ext (sample_verifier\<lparr>Registry := IsRevoked (Revoke NewMemoryRegistry sample_root 8)\<rparr>)
       sample_psa ''https://ps'' ''t1''
     = VerifyPSA sample_ext (sample_verifier\<lparr>Registry := IsRevoked NewMemoryRegistry\<rparr>)
       sample_psa ''https://ps'' ''t1''"
  using revocation_is_selective [where p = sample_psa and root = sample_root and n = 8 and g = sample_grant
      and E = sample_ext and v = sample_verifier and m = NewMemoryRegistry and issuer = "''https://ps''"
      and thumb = "''t1''"]
  by (simp add: sample_psa_def sample_grant_def sample_psa_unsigned_def sample_grant_unsigned_def)

text \<open>With the on-chain adapter as it stands, which fails
  every lookup, no authorization and no grant is accepted: availability never overrides
  revocation.\<close>

theorem unreachable_chain_registry_rejects:
  "VerifyPSA E (v\<lparr>Registry := BaseIsRevoked b\<rparr>) p issuer thumb \<noteq> Inr ()
   \<and> VerifyAgentGrant E (v\<lparr>Registry := BaseIsRevoked b\<rparr>) g root agentID athumb \<noteq> Inr ()"
  by (simp add: VerifyPSA_accepts VerifyAgentGrant_accepts BaseIsRevoked_def)

text \<open>C35: the registry compares roots as strings while the
  signature check compares addresses without regard to case. When the EIP-712 hash ignores the case
  of an address, as it hashes the address itself, an authorization that was accepted and then
  revoked is accepted again with the letters of its root in another case.\<close>

theorem recased_root_evades_revocation:
  assumes "VerifyPSA E (v\<lparr>Registry := IsRevoked m\<rparr>) p issuer thumb = Inr ()"
    and "ERC1271 v = None"
    and "addrEq r (psa_Root p)" and "r \<noteq> psa_Root p"
    and "PSADigest E (p\<lparr>psa_Root := r\<rparr>) = PSADigest E p"
    and "IsRevoked m (psa_RegistryChain p) (psa_Registry p) r (psa_Nonce p) = Inr False"
  shows "VerifyPSA E (v\<lparr>Registry := IsRevoked (Revoke m (psa_Root p) (psa_Nonce p))\<rparr>) p issuer thumb
           \<noteq> Inr ()
         \<and> VerifyPSA E (v\<lparr>Registry := IsRevoked (Revoke m (psa_Root p) (psa_Nonce p))\<rparr>)
             (p\<lparr>psa_Root := r\<rparr>) issuer thumb = Inr ()"
proof -
  have "addrEq a r" if "addrEq a (psa_Root p)" for a
    using that assms(3) by (simp add: addrEq_def)
  then have "PSA_signed E v (p\<lparr>psa_Root := r\<rparr>)" if "PSA_signed E v p"
    using that assms(2,5)
    by (auto simp: PSA_signed_def rootSigned_def eoaSigned_def split: option.splits)
  then show ?thesis
    using assms by (simp add: VerifyPSA_accepts IsRevoked_Revoke)
qed

lemma sample_recased_digest:
  "map ascii_lower r = map ascii_lower (psa_Root p) \<Longrightarrow>
   PSADigest sample_ext (p\<lparr>psa_Root := r\<rparr>) = PSADigest sample_ext p"
  by (simp add: PSADigest_def PSA_typed_data_def PSA_message_def typedDataDigest_def sample_ext_def)

lemma sample_root_lower: "map ascii_lower ''0x6B6B'' = map ascii_lower sample_root"
  by (simp add: sample_root_def ascii_lower_def char_of_eq_iff)

theorem recased_root_evades_revocation_witness:
  "VerifyPSA sample_ext
      (sample_verifier\<lparr>Registry := IsRevoked (Revoke NewMemoryRegistry sample_root 7)\<rparr>)
      sample_psa ''https://ps'' ''t1'' \<noteq> Inr ()
   \<and> VerifyPSA sample_ext
      (sample_verifier\<lparr>Registry := IsRevoked (Revoke NewMemoryRegistry sample_root 7)\<rparr>)
      (sample_psa\<lparr>psa_Root := ''0x6B6B''\<rparr>) ''https://ps'' ''t1'' = Inr ()"
proof -
  have fields: "psa_Root sample_psa = sample_root" "psa_Nonce sample_psa = 7"
    by (simp_all add: sample_psa_def sample_psa_unsigned_def)
  have new: "VerifyPSA sample_ext (sample_verifier\<lparr>Registry := IsRevoked NewMemoryRegistry\<rparr>)
      sample_psa ''https://ps'' ''t1'' = Inr ()"
    using sample_psa_verifies by (simp add: VerifyPSA_accepts)
  have "addrEq ''0x6B6B'' sample_root"
    by (simp add: addrEq_def sample_root_def hex_upper_lower_def char_of_eq_iff)
  moreover have "ERC1271 sample_verifier = None" by (simp add: sample_verifier_def)
  ultimately show ?thesis
    using recased_root_evades_revocation [OF new, of "''0x6B6B''"]
    by (simp add: fields sample_recased_digest [OF sample_root_lower [folded fields(1)]]) (simp add: sample_root_def)
qed

end
