(* ===== verification/Tenants.thy ===== *)
theory Tenants
  imports Missions Registry
begin

text \<open>
  The multi-tenant store (\<open>internal/store/tenants.go\<close>). The server hands tenants around as
  pointers and updates them in place, so the store has a heap of tenants, and a pointer is an
  address in it. An operation that follows a pointer to no tenant would panic: its result is then
  \<open>None\<close>.
\<close>

section \<open>State\<close>

record Tenant =
  Root :: string
  tPSA :: PSA
  grants :: "string \<rightharpoonup> AgentGrant"
  tlog :: Log

type_synonym tptr = nat

record Tenants =
  theap :: "tptr \<rightharpoonup> Tenant"
  tnext :: tptr
  byRoot :: "string \<rightharpoonup> tptr"
  byAgent :: "string \<rightharpoonup> string"
  byGrantS256 :: "string \<rightharpoonup> AgentGrant"

definition NewTenants :: Tenants where
  "NewTenants = \<lparr>theap = Map.empty, tnext = 0, byRoot = Map.empty, byAgent = Map.empty,
     byGrantS256 = Map.empty\<rparr>"

datatype tenant_err =
    CoversNone
  | PsaRejected attest_err
  | NotRegistered
  | AgentBoundElsewhere

section \<open>Operations\<close>

text \<open>\<open>&Tenant{...}\<close> allocates; the new address is returned with the store.\<close>

definition NewTenant :: "Tenants \<Rightarrow> PSA \<Rightarrow> Tenants \<times> tptr" where
  "NewTenant s psa =
     (s\<lparr>theap := (theap s)(tnext s \<mapsto>
          \<lparr>Root = psa_Root psa, tPSA = psa, grants = Map.empty, tlog = NewLog\<rparr>),
        tnext := tnext s + 1\<rparr>, tnext s)"

definition set_tenant :: "Tenants \<Rightarrow> tptr \<Rightarrow> Tenant \<Rightarrow> Tenants" where
  "set_tenant s t ten = s\<lparr>theap := (theap s)(t \<mapsto> ten)\<rparr>"

text \<open>\<open>Grant\<close>: the outer option is the panic, the inner one the lookup.\<close>

definition Grant :: "Tenants \<Rightarrow> tptr \<Rightarrow> string \<Rightarrow> AgentGrant option option" where
  "Grant s t agentID =
     (case theap s t of None \<Rightarrow> None | Some ten \<Rightarrow> Some (grants ten agentID))"

definition PutGrant :: "Tenants \<Rightarrow> tptr \<Rightarrow> string \<Rightarrow> AgentGrant \<Rightarrow> Tenants option" where
  "PutGrant s t agentID g =
     (case theap s t of
        None \<Rightarrow> None
      | Some ten \<Rightarrow> Some (set_tenant s t (ten\<lparr>grants := (grants ten)(agentID \<mapsto> g)\<rparr>)))"

text \<open>\<open>t.Log().Append(agentID, e)\<close>\<close>

definition LogAppend :: "ext \<Rightarrow> Tenants \<Rightarrow> tptr \<Rightarrow> string \<Rightarrow> Entry \<Rightarrow> Tenants option" where
  "LogAppend E s t agentID e =
     (case theap s t of
        None \<Rightarrow> None
      | Some ten \<Rightarrow> Some (set_tenant s t (ten\<lparr>tlog := Append E (tlog ten) agentID e\<rparr>)))"

definition Onboard :: "Tenants \<Rightarrow> tptr \<Rightarrow> (Tenants \<times> (tenant_err + unit)) option" where
  "Onboard s t =
     (case theap s t of
        None \<Rightarrow> None
      | Some ten \<Rightarrow>
          (case byRoot s (Root ten) of
             Some existing \<Rightarrow>
               (case theap s existing of
                  None \<Rightarrow> None
                | Some old \<Rightarrow> Some (set_tenant s existing (old\<lparr>tPSA := tPSA ten\<rparr>), Inr ()))
           | None \<Rightarrow> Some (s\<lparr>byRoot := (byRoot s)(Root ten \<mapsto> t)\<rparr>, Inr ())))"

definition ByRoot :: "Tenants \<Rightarrow> string \<Rightarrow> tptr option" where
  "ByRoot s root = byRoot s root"

definition ByAgent :: "Tenants \<Rightarrow> string \<Rightarrow> tptr option" where
  "ByAgent s agentID =
     (case byAgent s agentID of None \<Rightarrow> None | Some root \<Rightarrow> byRoot s root)"

definition Enroll ::
  "ext \<Rightarrow> Tenants \<Rightarrow> string \<Rightarrow> tptr \<Rightarrow> AgentGrant \<Rightarrow> (Tenants \<times> (tenant_err + unit)) option" where
  "Enroll E s agentID t g =
     (case theap s t of
        None \<Rightarrow> None
      | Some ten \<Rightarrow>
          if (case byAgent s agentID of None \<Rightarrow> False | Some prev \<Rightarrow> prev \<noteq> Root ten)
          then Some (s, Inl AgentBoundElsewhere)
          else (case PutGrant (s\<lparr>byAgent := (byAgent s)(agentID \<mapsto> Root ten)\<rparr>) t agentID g of
                  None \<Rightarrow> None
                | Some s1 \<Rightarrow>
                    Some (s1\<lparr>byGrantS256 :=
                            (byGrantS256 s1)(ContentHash E (AgentGrant_json g) \<mapsto> g)\<rparr>, Inr ())))"

definition GrantByS256 :: "Tenants \<Rightarrow> string \<Rightarrow> AgentGrant option" where
  "GrantByS256 s s256 = byGrantS256 s s256"

text \<open>The first of this server's keys that the authorization lists; the empty text if none.\<close>

fun coveredKey :: "string list \<Rightarrow> string list \<Rightarrow> string" where
  "coveredKey listed [] = []"
| "coveredKey listed (kt # kts) = (if contains listed kt then kt else coveredKey listed kts)"

definition VerifyAndOnboard ::
  "ext \<Rightarrow> Tenants \<Rightarrow> verifier \<Rightarrow> PSA \<Rightarrow> string \<Rightarrow> string list
   \<Rightarrow> (Tenants \<times> (tenant_err + tptr)) option" where
  "VerifyAndOnboard E s v psa issuerURL keyThumbs =
     (let covered = coveredKey (elems (psa_KeyThumbprints psa)) keyThumbs in
      if covered = [] then Some (s, Inl CoversNone)
      else case VerifyPSA E v psa issuerURL covered of
             Inl e \<Rightarrow> Some (s, Inl (PsaRejected e))
           | Inr _ \<Rightarrow>
               (case NewTenant s psa of (s1, t) \<Rightarrow>
                  (case Onboard s1 t of
                     None \<Rightarrow> None
                   | Some (s2, Inl e) \<Rightarrow> Some (s2, Inl e)
                   | Some (s2, Inr _) \<Rightarrow>
                       (case ByRoot s2 (psa_Root psa) of
                          None \<Rightarrow> Some (s2, Inl NotRegistered)
                        | Some live \<Rightarrow> Some (s2, Inr live)))))"

lemma set_tenant_simps [simp]:
  "theap (set_tenant s t ten) = (theap s)(t \<mapsto> ten)" "tnext (set_tenant s t ten) = tnext s"
  "byRoot (set_tenant s t ten) = byRoot s" "byAgent (set_tenant s t ten) = byAgent s"
  "byGrantS256 (set_tenant s t ten) = byGrantS256 s"
  by (simp_all add: set_tenant_def)

lemma coveredKey_cases:
  "coveredKey listed kts = [] \<or> (coveredKey listed kts \<in> set kts \<and> coveredKey listed kts \<in> set listed)"
  by (induction kts) auto

section \<open>The invariant\<close>

text \<open>
  A registered tenant is stored under its root, which is the root of its authorization; a bound
  agent is bound to a registered root, and that tenant holds a grant for it, and conversely; grants
  are stored under their content hash.
\<close>

definition registered :: "Tenants \<Rightarrow> string \<Rightarrow> Tenant option" where
  "registered s root = (case byRoot s root of None \<Rightarrow> None | Some t \<Rightarrow> theap s t)"

definition tenant_of :: "Tenants \<Rightarrow> string \<Rightarrow> Tenant option" where
  "tenant_of s agentID = (case byAgent s agentID of None \<Rightarrow> None | Some root \<Rightarrow> registered s root)"

definition heap_ok :: "Tenants \<Rightarrow> bool" where
  "heap_ok s =
     ((\<forall>t. theap s t \<noteq> None \<longrightarrow> t < tnext s)
      \<and> (\<forall>root t. byRoot s root = Some t \<longrightarrow> (\<exists>ten. theap s t = Some ten \<and> Root ten = root)))"

definition tenant_ok :: "ext \<Rightarrow> Tenants \<Rightarrow> Tenant \<Rightarrow> bool" where
  "tenant_ok E s ten =
     (Root ten = psa_Root (tPSA ten)
      \<and> log_ok E (tlog ten)
      \<and> (\<forall>a g. grants ten a = Some g \<longrightarrow>
            byAgent s a = Some (Root ten)
            \<and> GrantByS256 s (ContentHash E (AgentGrant_json g)) \<noteq> None))"

definition tenants_ok :: "ext \<Rightarrow> Tenants \<Rightarrow> bool" where
  "tenants_ok E s =
     (heap_ok s
      \<and> (\<forall>root ten. registered s root = Some ten \<longrightarrow> tenant_ok E s ten)
      \<and> (\<forall>a root. byAgent s a = Some root \<longrightarrow>
            (\<exists>ten. registered s root = Some ten \<and> grants ten a \<noteq> None))
      \<and> (\<forall>h g. byGrantS256 s h = Some g \<longrightarrow> h = ContentHash E (AgentGrant_json g)))"

lemma tenants_okD:
  assumes "tenants_ok E s"
  shows "heap_ok s" "registered s root = Some ten \<Longrightarrow> tenant_ok E s ten"
    "byAgent s a = Some root \<Longrightarrow> \<exists>ten. registered s root = Some ten \<and> grants ten a \<noteq> None"
    "byGrantS256 s h = Some g \<Longrightarrow> h = ContentHash E (AgentGrant_json g)"
  using assms by (auto simp: tenants_ok_def)

lemma heap_okD:
  assumes "heap_ok s"
  shows "theap s t = Some ten \<Longrightarrow> t < tnext s" "theap s (tnext s) = None"
    "byRoot s root = Some t \<Longrightarrow> \<exists>ten. theap s t = Some ten \<and> Root ten = root"
    "byRoot s root \<noteq> Some (tnext s)"
  using assms by (fastforce simp: heap_ok_def)+

section \<open>What each operation does to the registered tenants\<close>

text \<open>
  The abstract view of the store: which tenant is registered under which root. The operations are
  updates of this view, whatever the addresses are.
\<close>

definition fresh_tenant :: "PSA \<Rightarrow> Tenant" where
  "fresh_tenant psa = \<lparr>Root = psa_Root psa, tPSA = psa, grants = Map.empty, tlog = NewLog\<rparr>"

definition admitted :: "Tenant option \<Rightarrow> PSA \<Rightarrow> Tenant" where
  "admitted old psa = (case old of None \<Rightarrow> fresh_tenant psa | Some ten \<Rightarrow> ten\<lparr>tPSA := psa\<rparr>)"

lemma registered_Root: "heap_ok s \<Longrightarrow> registered s root = Some ten \<Longrightarrow> Root ten = root"
  by (fastforce simp: registered_def heap_ok_def split: option.splits)

lemma byRoot_registered: "heap_ok s \<Longrightarrow> byRoot s root = Some t \<Longrightarrow> registered s root = theap s t"
  by (simp add: registered_def)

lemma registered_None: "heap_ok s \<Longrightarrow> byRoot s root = None \<longleftrightarrow> registered s root = None"
  by (fastforce simp: registered_def heap_ok_def split: option.splits)

lemma heap_ok_set:
  assumes "heap_ok s" and "byRoot s root = Some t" and "Root ten = root"
  shows "heap_ok (set_tenant s t ten)"
    and "registered (set_tenant s t ten) = (registered s)(root \<mapsto> ten)"
proof -
  have inj: "byRoot s r = Some t \<Longrightarrow> r = root" for r
    using heap_okD(3) [OF assms(1,2)] heap_okD(3) [OF assms(1), of r t] by auto
  have "t < tnext s"
    using assms(2) heap_okD(1,3) [OF assms(1)] by blast
  moreover have "\<exists>ten'. theap (set_tenant s t ten) t' = Some ten' \<and> Root ten' = r" if "byRoot s r = Some t'" for r t'
    using that inj heap_okD(3) [OF assms(1) that] assms(3) by auto
  ultimately show "heap_ok (set_tenant s t ten)"
    using heap_okD(1) [OF assms(1)] by (auto simp: heap_ok_def)
  show "registered (set_tenant s t ten) = (registered s)(root \<mapsto> ten)"
  proof
    fix r
    show "registered (set_tenant s t ten) r = ((registered s)(root \<mapsto> ten)) r"
      using assms(2) inj [of r] by (cases "byRoot s r") (auto simp: registered_def)
  qed
qed

lemma NewTenant_view:
  assumes "heap_ok s"
  shows "heap_ok (fst (NewTenant s psa))" "registered (fst (NewTenant s psa)) = registered s"
    "byRoot (fst (NewTenant s psa)) = byRoot s" "byAgent (fst (NewTenant s psa)) = byAgent s"
    "byGrantS256 (fst (NewTenant s psa)) = byGrantS256 s"
    "theap (fst (NewTenant s psa)) (tnext s) = Some (fresh_tenant psa)"
    "snd (NewTenant s psa) = tnext s"
proof -
  show "heap_ok (fst (NewTenant s psa))"
    using assms by (fastforce simp: heap_ok_def NewTenant_def)
  show "registered (fst (NewTenant s psa)) = registered s"
    using heap_okD(4) [OF assms]
    by (auto simp: registered_def NewTenant_def fun_eq_iff split: option.split)
qed (simp_all add: NewTenant_def fresh_tenant_def)

lemma Onboard_view:
  assumes "heap_ok s" and "theap s t = Some ten"
  obtains s' where "Onboard s t = Some (s', Inr ())" "heap_ok s'"
    "registered s' = (registered s)(Root ten \<mapsto>
        (case registered s (Root ten) of None \<Rightarrow> ten | Some old \<Rightarrow> old\<lparr>tPSA := tPSA ten\<rparr>))"
    "byRoot s' (Root ten) \<noteq> None" "byAgent s' = byAgent s" "byGrantS256 s' = byGrantS256 s"
proof (cases "byRoot s (Root ten)")
  case None
  let ?s' = "s\<lparr>byRoot := (byRoot s)(Root ten \<mapsto> t)\<rparr>"
  have "registered s (Root ten) = None" using None by (simp add: registered_def)
  moreover have "heap_ok ?s'" using assms by (auto simp: heap_ok_def)
  moreover have "registered ?s' = (registered s)(Root ten \<mapsto> ten)"
    using assms(2) by (auto simp: registered_def fun_eq_iff split: option.split)
  ultimately show thesis
    using that [of ?s'] assms None by (simp add: Onboard_def)
next
  case (Some t')
  obtain old where old: "theap s t' = Some old" "Root old = Root ten"
    using heap_okD(3) [OF assms(1) Some] by blast
  then have "registered s (Root ten) = Some old" using Some by (simp add: registered_def)
  then show thesis
    using that [of "set_tenant s t' (old\<lparr>tPSA := tPSA ten\<rparr>)"] assms Some old
      heap_ok_set [OF assms(1) Some, of "old\<lparr>tPSA := tPSA ten\<rparr>"]
    by (simp add: Onboard_def)
qed

text \<open>A ceremony that is refused changes nothing.\<close>

definition onboard_verdict ::
  "ext \<Rightarrow> verifier \<Rightarrow> PSA \<Rightarrow> string \<Rightarrow> string list \<Rightarrow> tenant_err + unit" where
  "onboard_verdict E v psa issuer thumbs =
     (let covered = coveredKey (elems (psa_KeyThumbprints psa)) thumbs in
      if covered = [] then Inl CoversNone
      else case VerifyPSA E v psa issuer covered of
             Inl e \<Rightarrow> Inl (PsaRejected e) | Inr _ \<Rightarrow> Inr ())"

lemma onboard_refused:
  "onboard_verdict E v psa issuer thumbs = Inl e \<Longrightarrow>
   VerifyAndOnboard E s v psa issuer thumbs = Some (s, Inl e)"
  by (auto simp: onboard_verdict_def VerifyAndOnboard_def Let_def split: if_splits sum.splits)

lemma onboard_admits:
  assumes "heap_ok s" and "onboard_verdict E v psa issuer thumbs = Inr ()"
  obtains s' t where "VerifyAndOnboard E s v psa issuer thumbs = Some (s', Inr t)"
    "heap_ok s'" "byRoot s' (psa_Root psa) = Some t"
    "registered s' = (registered s)(psa_Root psa \<mapsto> admitted (registered s (psa_Root psa)) psa)"
    "byAgent s' = byAgent s" "byGrantS256 s' = byGrantS256 s"
proof -
  note new = NewTenant_view [OF assms(1), of psa]
  have root: "Root (fresh_tenant psa) = psa_Root psa" "tPSA (fresh_tenant psa) = psa"
    by (simp_all add: fresh_tenant_def)
  obtain s' where s': "Onboard (fst (NewTenant s psa)) (tnext s) = Some (s', Inr ())" "heap_ok s'"
    "registered s' = (registered s)(psa_Root psa \<mapsto> admitted (registered s (psa_Root psa)) psa)"
    "byRoot s' (psa_Root psa) \<noteq> None" "byAgent s' = byAgent s" "byGrantS256 s' = byGrantS256 s"
    using Onboard_view [OF new(1,6)] unfolding admitted_def by (metis new(2,4,5) root)
  obtain t where t: "byRoot s' (psa_Root psa) = Some t" using s'(4) by blast
  have "VerifyAndOnboard E s v psa issuer thumbs = Some (s', Inr t)"
    using assms(2) s'(1) t new(7)
    by (auto simp: onboard_verdict_def VerifyAndOnboard_def Let_def ByRoot_def case_prod_unfold
        split: if_splits sum.splits)
  then show thesis using that s' t by blast
qed

lemma Enroll_admits:
  assumes "heap_ok s" and "byRoot s root = Some t" and "registered s root = Some ten"
    and "byAgent s a = None \<or> byAgent s a = Some root"
  obtains s' where "Enroll E s a t g = Some (s', Inr ())" "heap_ok s'"
    "registered s' = (registered s)(root \<mapsto> ten\<lparr>grants := (grants ten)(a \<mapsto> g)\<rparr>)"
    "byAgent s' = (byAgent s)(a \<mapsto> root)" "byRoot s' = byRoot s"
    "byGrantS256 s' = (byGrantS256 s)(ContentHash E (AgentGrant_json g) \<mapsto> g)"
proof -
  let ?ten = "ten\<lparr>grants := (grants ten)(a \<mapsto> g)\<rparr>"
  let ?s' = "(set_tenant s t ?ten)\<lparr>byAgent := (byAgent s)(a \<mapsto> root),
      byGrantS256 := (byGrantS256 s)(ContentHash E (AgentGrant_json g) \<mapsto> g)\<rparr>"
  have ten: "theap s t = Some ten" "Root ten = root"
    using assms by (simp_all add: registered_def registered_Root)
  have "registered ?s' = registered (set_tenant s t ?ten)" and "heap_ok ?s' = heap_ok (set_tenant s t ?ten)"
    by (auto simp: registered_def fun_eq_iff heap_ok_def split: option.split)
  then have "heap_ok ?s'" "registered ?s' = (registered s)(root \<mapsto> ?ten)"
    using heap_ok_set [OF assms(1,2), of ?ten] ten by simp_all
  moreover have "Enroll E s a t g = Some (?s', Inr ())"
    using ten assms(4) by (auto simp: Enroll_def PutGrant_def set_tenant_def split: option.split)
  ultimately show thesis using that [of ?s'] by simp
qed

lemma Enroll_refuses:
  assumes "heap_ok s" and "byRoot s root = Some t" and "registered s root = Some ten"
    and "byAgent s a = Some root'" and "root' \<noteq> root"
  shows "Enroll E s a t g = Some (s, Inl AgentBoundElsewhere)"
  using assms registered_Root [OF assms(1,3)] by (simp add: Enroll_def registered_def)

lemma LogAppend_view:
  assumes "heap_ok s" and "byRoot s root = Some t" and "registered s root = Some ten"
  obtains s' where "LogAppend E s t a e = Some s'" "heap_ok s'"
    "registered s' = (registered s)(root \<mapsto> ten\<lparr>tlog := Append E (tlog ten) a e\<rparr>)"
    "byAgent s' = byAgent s" "byRoot s' = byRoot s" "byGrantS256 s' = byGrantS256 s"
proof -
  have ten: "theap s t = Some ten" "Root ten = root"
    using assms by (simp_all add: registered_def registered_Root)
  then show thesis
    using that [of "set_tenant s t (ten\<lparr>tlog := Append E (tlog ten) a e\<rparr>)"] assms
      heap_ok_set [OF assms(1,2), of "ten\<lparr>tlog := Append E (tlog ten) a e\<rparr>"]
    by (simp add: LogAppend_def)
qed

section \<open>Steps\<close>

text \<open>
  What the server does to its store: onboarding ceremonies with whatever document, at whatever
  time and registry state; enrollments and log entries for registered tenants.
\<close>

inductive tenant_step :: "ext \<Rightarrow> Tenants \<Rightarrow> Tenants \<Rightarrow> bool" for E where
  onboard: "VerifyAndOnboard E s v psa issuer thumbs = Some (s', r) \<Longrightarrow> tenant_step E s s'"
| enroll: "ByRoot s root = Some t \<Longrightarrow> Enroll E s a t g = Some (s', r) \<Longrightarrow> tenant_step E s s'"
| log: "ByRoot s root = Some t \<Longrightarrow> Prev e = [] \<Longrightarrow> LogAppend E s t a e = Some s' \<Longrightarrow>
        tenant_step E s s'"

inductive_cases tenant_stepE: "tenant_step E s s'"

text \<open>Every step leaves the store as it was or updates one registered tenant.\<close>

inductive tenant_change :: "ext \<Rightarrow> Tenants \<Rightarrow> Tenants \<Rightarrow> bool" for E where
  same: "tenant_change E s s"
| admit: "heap_ok s' \<Longrightarrow>
    registered s' = (registered s)(psa_Root psa \<mapsto> admitted (registered s (psa_Root psa)) psa) \<Longrightarrow>
    byAgent s' = byAgent s \<Longrightarrow> byGrantS256 s' = byGrantS256 s \<Longrightarrow> tenant_change E s s'"
| grant: "heap_ok s' \<Longrightarrow> registered s root = Some ten \<Longrightarrow>
    byAgent s a = None \<or> byAgent s a = Some root \<Longrightarrow>
    registered s' = (registered s)(root \<mapsto> ten\<lparr>grants := (grants ten)(a \<mapsto> g)\<rparr>) \<Longrightarrow>
    byAgent s' = (byAgent s)(a \<mapsto> root) \<Longrightarrow>
    byGrantS256 s' = (byGrantS256 s)(ContentHash E (AgentGrant_json g) \<mapsto> g) \<Longrightarrow>
    tenant_change E s s'"
| note_entry: "heap_ok s' \<Longrightarrow> registered s root = Some ten \<Longrightarrow> Prev e = [] \<Longrightarrow>
    registered s' = (registered s)(root \<mapsto> ten\<lparr>tlog := Append E (tlog ten) a e\<rparr>) \<Longrightarrow>
    byAgent s' = byAgent s \<Longrightarrow> byGrantS256 s' = byGrantS256 s \<Longrightarrow> tenant_change E s s'"

lemma onboard_change:
  assumes "heap_ok s" and "VerifyAndOnboard E s v psa issuer thumbs = Some (s', r)"
  shows "tenant_change E s s'"
proof (cases "onboard_verdict E v psa issuer thumbs")
  case (Inl e)
  then show ?thesis using assms(2) onboard_refused [OF Inl, of s] by (simp add: tenant_change.same)
next
  case (Inr u)
  then have "onboard_verdict E v psa issuer thumbs = Inr ()" by simp
  then show ?thesis
    by (rule onboard_admits [OF assms(1), where v = v and psa = psa])
      (rule tenant_change.admit, use assms(2) in simp_all)
qed

lemma enroll_change:
  assumes "heap_ok s" and "byRoot s root = Some t" and "Enroll E s a t g = Some (s', r)"
  shows "tenant_change E s s'"
proof -
  obtain ten where ten: "registered s root = Some ten"
    using heap_okD(3) [OF assms(1,2)] assms(2) by (auto simp: registered_def)
  show ?thesis
  proof (cases "byAgent s a = None \<or> byAgent s a = Some root")
    case True
    show ?thesis
      by (rule Enroll_admits [OF assms(1,2) ten True, of E g])
        (rule tenant_change.grant [OF _ ten True], use assms(3) in simp_all)
  next
    case False
    then obtain root' where "byAgent s a = Some root'" "root' \<noteq> root" by auto
    then show ?thesis
      using Enroll_refuses [OF assms(1,2) ten] assms(3) by (simp add: tenant_change.same)
  qed
qed

lemma log_change:
  assumes "heap_ok s" and "byRoot s root = Some t" and "Prev e = []" and "LogAppend E s t a e = Some s'"
  shows "tenant_change E s s'"
proof -
  obtain ten where ten: "registered s root = Some ten"
    using heap_okD(3) [OF assms(1,2)] assms(2) by (auto simp: registered_def)
  show ?thesis
    by (rule LogAppend_view [OF assms(1,2) ten, of E a e])
      (rule tenant_change.note_entry [OF _ ten assms(3)], use assms(4) in simp_all)
qed

lemma tenant_step_change: "tenant_step E s s' \<Longrightarrow> heap_ok s \<Longrightarrow> tenant_change E s s'"
  by (erule tenant_stepE) (auto simp: ByRoot_def intro: onboard_change enroll_change log_change)

lemma tenants_okI:
  assumes "heap_ok s" and "\<And>root ten. registered s root = Some ten \<Longrightarrow> tenant_ok E s ten"
    and "\<And>a root. byAgent s a = Some root \<Longrightarrow> \<exists>ten. registered s root = Some ten \<and> grants ten a \<noteq> None"
    and "\<And>h g. byGrantS256 s h = Some g \<Longrightarrow> h = ContentHash E (AgentGrant_json g)"
  shows "tenants_ok E s"
  using assms by (auto simp: tenants_ok_def)

lemma tenant_ok_frame:
  "tenant_ok E s ten \<Longrightarrow> byAgent s' = byAgent s \<Longrightarrow> byGrantS256 s' = byGrantS256 s \<Longrightarrow> tenant_ok E s' ten"
  by (simp add: tenant_ok_def GrantByS256_def)

lemma tenants_ok_change:
  assumes "tenant_change E s s'" and ok: "tenants_ok E s"
  shows "tenants_ok E s'"
  using assms(1)
proof cases
  case same
  then show ?thesis using ok by simp
next
  case (admit psa)
  let ?new = "admitted (registered s (psa_Root psa)) psa"
  have new: "tenant_ok E s ?new"
    using tenants_okD(2) [OF ok] registered_Root [OF tenants_okD(1) [OF ok]]
    by (auto simp: admitted_def fresh_tenant_def tenant_ok_def split: option.split)
  have grants: "registered s (psa_Root psa) = Some ten \<Longrightarrow> grants ?new = grants ten" for ten
    by (simp add: admitted_def)
  show ?thesis
  proof (rule tenants_okI)
    show "tenant_ok E s' ten" if "registered s' root = Some ten" for root ten
      using that admit new tenants_okD(2) [OF ok]
      by (auto split: if_splits intro: tenant_ok_frame [of _ s])
    show "\<exists>ten. registered s' root = Some ten \<and> grants ten a \<noteq> None" if "byAgent s' a = Some root" for a root
      using that admit tenants_okD(3) [OF ok, of a root] grants by fastforce
  qed (use admit tenants_okD(4) [OF ok] in auto)
next
  case (grant root ten a g)
  let ?ten = "ten\<lparr>grants := (grants ten)(a \<mapsto> g)\<rparr>"
  have root: "Root ten = root"
    using grant registered_Root [OF tenants_okD(1) [OF ok]] by blast
  have keep: "tenant_ok E s' t" if "tenant_ok E s t" for t
    using that grant by (auto simp: tenant_ok_def GrantByS256_def)
  have "tenant_ok E s' ?ten"
    using keep [of ten] tenants_okD(2) [OF ok] grant root
    by (auto simp: tenant_ok_def GrantByS256_def split: if_splits)
  then show ?thesis
    using grant root tenants_okD(2-4) [OF ok] keep
    by (intro tenants_okI) (auto split: if_splits; fastforce)+
next
  case (note_entry root ten e a)
  let ?ten = "ten\<lparr>tlog := Append E (tlog ten) a e\<rparr>"
  have "tenant_ok E s ?ten"
    using tenants_okD(2) [OF ok] note_entry by (auto simp: tenant_ok_def intro: log_ok_Append)
  then show ?thesis
    using note_entry tenants_okD(2-4) [OF ok]
    by (intro tenants_okI) (auto split: if_splits intro: tenant_ok_frame [of _ s]; fastforce)+
qed

lemma tenants_ok_New [simp]: "tenants_ok E NewTenants"
  by (simp add: tenants_ok_def NewTenants_def heap_ok_def registered_def)

lemma tenants_ok_step [wf_intros]: "tenant_step E s s' \<Longrightarrow> tenants_ok E s \<Longrightarrow> tenants_ok E s'"
  using tenant_step_change tenants_ok_change tenants_okD(1) by blast

text \<open>The facts that no step takes back: an agent's binding, and every entry of every log.\<close>

definition log_entry :: "Tenants \<Rightarrow> string \<times> string \<times> nat \<Rightarrow> Entry option" where
  "log_entry s k =
     (case k of (root, a, i) \<Rightarrow>
        (case registered s root of
           None \<Rightarrow> None
         | Some ten \<Rightarrow> if i < length (chain (tlog ten) a) then Some (chain (tlog ten) a ! i) else None))"

lemma byAgent_kept: "tenant_change E s s' \<Longrightarrow> byAgent s a = Some root \<Longrightarrow> byAgent s' a = Some root"
  by (erule tenant_change.cases) auto

lemma log_entry_kept:
  "tenant_change E s s' \<Longrightarrow> log_entry s k = Some e \<Longrightarrow> log_entry s' k = Some e"
proof (erule tenant_change.cases, goal_cases)
  case (4 s'' s root ten e' a)
  obtain r b i where k: "k = (r, b, i)" by (cases k)
  obtain zs where "chain (Append E (tlog ten) a e') b = chain (tlog ten) b @ zs"
    using mlog.append_extends by blast
  then show ?case using 4 by (auto simp: log_entry_def k nth_append split: if_splits option.splits)
qed (auto simp: log_entry_def admitted_def split: if_splits option.splits prod.splits)

interpretation bindings: permanent_facts "tenant_step E" "tenants_ok E" byAgent for E
  by unfold_locales
    (auto intro: tenants_ok_step dest: tenants_okD(1) tenant_step_change byAgent_kept)

interpretation logs: permanent_facts "tenant_step E" "tenants_ok E" log_entry for E
  by unfold_locales
    (auto dest: tenants_okD(1) tenant_step_change intro: log_entry_kept)

section \<open>A concrete store\<close>

definition sample_tenants :: Tenants where
  "sample_tenants =
     (NewTenants\<lparr>theap := [0 \<mapsto> fresh_tenant sample_psa], tnext := 1, byRoot := [sample_root \<mapsto> 0]\<rparr>)"

lemma sample_psa_root [simp]: "psa_Root sample_psa = sample_root"
  by (simp add: sample_psa_def sample_psa_unsigned_def)

lemma sample_psa_keys: "psa_KeyThumbprints sample_psa = Some [''t1'']"
  by (simp add: sample_psa_def sample_psa_unsigned_def)

lemma sample_onboard:
  "VerifyAndOnboard sample_ext NewTenants sample_verifier sample_psa ''https://ps'' [''t1'']
   = Some (sample_tenants, Inr 0)"
  using sample_psa_verifies
  by (simp add: VerifyAndOnboard_def sample_psa_keys NewTenant_def Onboard_def ByRoot_def NewTenants_def
      sample_tenants_def fresh_tenant_def)

lemma sample_tenants_reached: "(tenant_step sample_ext)\<^sup>*\<^sup>* NewTenants sample_tenants"
  using tenant_step.onboard [OF sample_onboard] by blast

definition sample_enrolled :: Tenants where
  "sample_enrolled =
     fst (the (Enroll sample_ext sample_tenants ''aauth:a@b'' 0 sample_grant))"

lemma sample_enroll:
  "Enroll sample_ext sample_tenants ''aauth:a@b'' 0 sample_grant = Some (sample_enrolled, Inr ())"
  "byAgent sample_enrolled = [''aauth:a@b'' \<mapsto> sample_root]"
  by (simp_all add: sample_enrolled_def Enroll_def PutGrant_def sample_tenants_def NewTenants_def
      fresh_tenant_def set_tenant_def)

lemma sample_enrolled_reached: "(tenant_step sample_ext)\<^sup>*\<^sup>* NewTenants sample_enrolled"
proof (rule rtranclp.rtrancl_into_rtrancl [OF sample_tenants_reached])
  have "ByRoot sample_tenants sample_root = Some 0"
    by (simp add: ByRoot_def sample_tenants_def)
  then show "tenant_step sample_ext sample_tenants sample_enrolled"
    using sample_enroll(1) by (rule tenant_step.enroll)
qed

section \<open>Properties\<close>

text \<open>C15: in every state the server's operations can bring the store to,
  every registered tenant is stored under the root of its own authorization with linked logs, an
  agent is bound to a root exactly when that tenant is registered and holds a grant for it (so
  resolving an agent always finds a live tenant), and every grant the tenant holds can be resolved
  by its content hash.\<close>

theorem tenant_store_invariant:
  assumes "(tenant_step E)\<^sup>*\<^sup>* NewTenants s"
  shows "(\<forall>root ten. registered s root = Some ten \<longrightarrow>
            Root ten = root \<and> psa_Root (tPSA ten) = root \<and> log_ok E (tlog ten)
            \<and> (\<forall>a g. grants ten a = Some g \<longrightarrow> byAgent s a = Some root
                 \<and> GrantByS256 s (ContentHash E (AgentGrant_json g)) \<noteq> None))
         \<and> (\<forall>a root. byAgent s a = Some root \<longrightarrow>
              (\<exists>t ten. ByAgent s a = Some t \<and> theap s t = Some ten \<and> registered s root = Some ten
                 \<and> grants ten a \<noteq> None))"
proof -
  have ok: "tenants_ok E s"
    using bindings.inv_reaches [OF assms] by simp
  have "\<exists>t. ByAgent s a = Some t \<and> theap s t = Some ten"
    if "byAgent s a = Some root" "registered s root = Some ten" for a root ten
    using that by (simp add: ByAgent_def registered_def split: option.splits)
  then show ?thesis
    using tenants_okD(2,3) [OF ok] registered_Root [OF tenants_okD(1) [OF ok]]
    by (fastforce simp: tenant_ok_def)
qed

theorem tenant_store_invariant_witness:
  "\<exists>t ten. ByAgent sample_enrolled ''aauth:a@b'' = Some t \<and> theap sample_enrolled t = Some ten
     \<and> registered sample_enrolled sample_root = Some ten \<and> grants ten ''aauth:a@b'' \<noteq> None"
  using tenant_store_invariant [OF sample_enrolled_reached] sample_enroll(2) by simp

text \<open>C30: the ceremony never panics. It is refused exactly
  when the authorization covers none of the server's keys or \<open>VerifyPSA\<close> rejects it for the
  first covered key, and a refusal leaves the store as it was; otherwise the tenant returned is the
  one registered under the root, it now carries this authorization, and every other root's
  registration is untouched.\<close>

theorem refused_onboarding_changes_nothing:
  assumes "heap_ok s"
  shows "case onboard_verdict E v psa issuer thumbs of
           Inl e \<Rightarrow> VerifyAndOnboard E s v psa issuer thumbs = Some (s, Inl e)
         | Inr _ \<Rightarrow>
             (\<exists>s' t ten. VerifyAndOnboard E s v psa issuer thumbs = Some (s', Inr t)
                \<and> ByRoot s' (psa_Root psa) = Some t \<and> theap s' t = Some ten \<and> tPSA ten = psa
                \<and> (\<forall>root. root \<noteq> psa_Root psa \<longrightarrow> registered s' root = registered s root))"
proof (cases "onboard_verdict E v psa issuer thumbs")
  case (Inl e)
  then show ?thesis by (simp add: onboard_refused)
next
  case (Inr u)
  then have "onboard_verdict E v psa issuer thumbs = Inr ()" by simp
  from onboard_admits [OF assms this] obtain s' t where
    s': "VerifyAndOnboard E s v psa issuer thumbs = Some (s', Inr t)"
      "byRoot s' (psa_Root psa) = Some t"
      "registered s' = (registered s)(psa_Root psa \<mapsto> admitted (registered s (psa_Root psa)) psa)"
    by metis
  then have "theap s' t = Some (admitted (registered s (psa_Root psa)) psa)"
    using byRoot_registered [of s'] by (metis fun_upd_same option.case(2) registered_def)
  moreover have "tPSA (admitted old psa) = psa" for old
    by (simp add: admitted_def fresh_tenant_def split: option.split)
  ultimately show ?thesis using s' Inr by (simp add: ByRoot_def)
qed

theorem refused_onboarding_changes_nothing_witness:
  "VerifyAndOnboard sample_ext sample_tenants sample_verifier sample_psa ''https://other'' [''t2'']
   = Some (sample_tenants, Inl CoversNone)"
proof -
  have "heap_ok sample_tenants"
    using bindings.inv_reaches [OF sample_tenants_reached] tenants_okD(1) by auto
  from refused_onboarding_changes_nothing [OF this, of sample_ext sample_verifier sample_psa
      "''https://other''" "[''t2'']"]
  show ?thesis by (simp add: onboard_verdict_def sample_psa_keys)
qed

text \<open>C33: when a root that is already registered onboards again
  (key rotation, new scope), its authorization is replaced and its grants and logs stay; the tenant
  returned is the registered one; no other tenant and no agent binding changes.\<close>

theorem reonboarding_keeps_the_account:
  assumes "heap_ok s" and "registered s (psa_Root psa) = Some ten"
    and "VerifyAndOnboard E s v psa issuer thumbs = Some (s', Inr t)"
  shows "theap s' t = Some (ten\<lparr>tPSA := psa\<rparr>)
         \<and> registered s' = (registered s)(psa_Root psa \<mapsto> ten\<lparr>tPSA := psa\<rparr>)
         \<and> byAgent s' = byAgent s \<and> byGrantS256 s' = byGrantS256 s"
proof -
  have "onboard_verdict E v psa issuer thumbs = Inr ()"
    using assms(3) onboard_refused [of E v psa issuer thumbs _ s]
    by (cases "onboard_verdict E v psa issuer thumbs") auto
  from onboard_admits [OF assms(1) this] obtain s1 t1 where
    s1: "VerifyAndOnboard E s v psa issuer thumbs = Some (s1, Inr t1)" "heap_ok s1"
      "byRoot s1 (psa_Root psa) = Some t1"
      "registered s1 = (registered s)(psa_Root psa \<mapsto> admitted (registered s (psa_Root psa)) psa)"
      "byAgent s1 = byAgent s" "byGrantS256 s1 = byGrantS256 s"
    by metis
  then have "theap s1 t1 = registered s1 (psa_Root psa)" using byRoot_registered [OF s1(2,3)] by simp
  then show ?thesis using s1 assms(2,3) by (simp add: admitted_def)
qed

theorem reonboarding_keeps_the_account_witness:
  "\<exists>s' t. VerifyAndOnboard sample_ext sample_enrolled sample_verifier sample_psa ''https://ps'' [''t1'']
            = Some (s', Inr t)
          \<and> (\<exists>ten. theap s' t = Some ten \<and> grants ten ''aauth:a@b'' \<noteq> None)"
proof -
  have ok: "tenants_ok sample_ext sample_enrolled"
    using bindings.inv_reaches [OF sample_enrolled_reached] by simp
  obtain ten where ten: "registered sample_enrolled (psa_Root sample_psa) = Some ten"
    "grants ten ''aauth:a@b'' \<noteq> None"
    using tenants_okD(3) [OF ok, of "''aauth:a@b''" sample_root] sample_enroll(2) by auto
  have "onboard_verdict sample_ext sample_verifier sample_psa ''https://ps'' [''t1''] = Inr ()"
    using sample_psa_verifies by (simp add: onboard_verdict_def sample_psa_keys)
  from onboard_admits [OF tenants_okD(1) [OF ok] this] obtain s' t where
    "VerifyAndOnboard sample_ext sample_enrolled sample_verifier sample_psa ''https://ps'' [''t1'']
     = Some (s', Inr t)" by metis
  then show ?thesis
    using reonboarding_keeps_the_account [OF tenants_okD(1) [OF ok] ten(1)] ten(2) by fastforce
qed

text \<open>C17: an agent that acts for one root acts for that root in every
  later state of the store, and an attempt to enroll it under another root is refused without
  effect: an agent has exactly one legal person.\<close>

theorem agent_binding_permanent:
  assumes "(tenant_step E)\<^sup>*\<^sup>* NewTenants s" and "(tenant_step E)\<^sup>*\<^sup>* s s'"
    and "byAgent s a = Some root"
  shows "byAgent s' a = Some root
         \<and> (\<forall>root' t g. ByRoot s' root' = Some t \<and> root' \<noteq> root \<longrightarrow>
              Enroll E s' a t g = Some (s', Inl AgentBoundElsewhere))"
proof -
  have ok: "tenants_ok E s" using bindings.inv_reaches [OF assms(1)] by simp
  have ok': "tenants_ok E s'" using bindings.inv_reaches [OF assms(2) ok] .
  have bound: "byAgent s' a = Some root"
    using bindings.known_reaches [OF assms(2) ok assms(3)] .
  have "Enroll E s' a t g = Some (s', Inl AgentBoundElsewhere)"
    if "ByRoot s' root' = Some t" "root' \<noteq> root" for root' t g
    using that heap_okD(3) [OF tenants_okD(1) [OF ok'], of root' t] bound
    by (auto simp: Enroll_def ByRoot_def)
  then show ?thesis using bound by blast
qed

theorem agent_binding_permanent_witness:
  "byAgent sample_enrolled ''aauth:a@b'' = Some sample_root"
  using agent_binding_permanent [OF sample_enrolled_reached rtranclp.rtrancl_refl] sample_enroll(2)
  by simp

text \<open>Every operation concerns at most one tenant: there is a root such that
  every other registered tenant (its authorization, grants and logs) and every agent that another
  root holds is after the operation what it was before.\<close>

theorem tenants_isolated:
  assumes "(tenant_step E)\<^sup>*\<^sup>* NewTenants s" and "tenant_step E s s'"
  shows "\<exists>root. \<forall>root'. root' \<noteq> root \<longrightarrow>
           registered s' root' = registered s root'
           \<and> (\<forall>a. byAgent s' a = Some root' \<longleftrightarrow> byAgent s a = Some root')"
proof -
  have "tenants_ok E s" using bindings.inv_reaches [OF assms(1)] by simp
  then have "tenant_change E s s'" using assms(2) tenants_okD(1) tenant_step_change by blast
  then show ?thesis by cases (auto; fastforce)+
qed

theorem tenants_isolated_witness:
  "\<exists>root. \<forall>root'. root' \<noteq> root \<longrightarrow>
     registered sample_tenants root' = registered NewTenants root'
     \<and> (\<forall>a. byAgent sample_tenants a = Some root' \<longleftrightarrow> byAgent NewTenants a = Some root')"
  using tenants_isolated [OF rtranclp.rtrancl_refl tenant_step.onboard [OF sample_onboard]] .

text \<open>The grant a verifier gets for a content hash is one with that
  hash, and it is the grant the token's issuer meant, or the two texts are a collision of
  SHA-256.\<close>

theorem grant_by_hash_is_genuine:
  assumes "(tenant_step E)\<^sup>*\<^sup>* NewTenants s"
    and "GrantByS256 s (ContentHash E (AgentGrant_json meant)) = Some g"
    and "json_clean (AgentGrant_json meant)" "json_clean (AgentGrant_json g)"
    and "AgentGrant_in_range meant" "AgentGrant_in_range g"
  shows "g = meant
         \<or> collision (SHA256 E) (json_print (AgentGrant_json g)) (json_print (AgentGrant_json meant))"
proof (cases "json_print (AgentGrant_json g) = json_print (AgentGrant_json meant)")
  case True
  then have "AgentGrant_json g = AgentGrant_json meant"
    using assms AgentGrant_json_depth by (intro json_print_inject) auto
  then show ?thesis using assms(5,6) AgentGrant_of_json_AgentGrant_json by (metis option.inject)
next
  case False
  have "tenants_ok E s" using bindings.inv_reaches [OF assms(1)] by simp
  then have "ContentHash E (AgentGrant_json meant) = ContentHash E (AgentGrant_json g)"
    using assms(2) by (intro tenants_okD(4)) (simp_all add: GrantByS256_def)
  then show ?thesis using False by (simp add: ContentHash_def collision_def)
qed

theorem grant_by_hash_is_genuine_witness:
  "sample_grant = sample_grant
   \<or> collision (SHA256 sample_ext) (json_print (AgentGrant_json sample_grant))
       (json_print (AgentGrant_json sample_grant))"
proof -
  have "json_clean (AgentGrant_json sample_grant)" "AgentGrant_in_range sample_grant"
    by (simp_all add: AgentGrant_json_def AgentGrant_in_range_def in_i64_def omitempty_def
        sample_grant_def sample_grant_unsigned_def sample_root_def)
  moreover have "GrantByS256 sample_enrolled (ContentHash sample_ext (AgentGrant_json sample_grant))
      = Some sample_grant"
    by (simp add: GrantByS256_def sample_enrolled_def Enroll_def PutGrant_def sample_tenants_def
        NewTenants_def fresh_tenant_def)
  ultimately show ?thesis
    using sample_enrolled_reached by (intro grant_by_hash_is_genuine)
qed

end
