(* ===== verification/Consent.thy ===== *)
theory Consent
  imports Attest
begin

text \<open>
  Package \<open>consent\<close> (\<open>internal/consent/consent.go\<close>): the authorization requests in flight, the
  two tiers of approval, and the step-up signature of the root over the digest of one request.
  Requests are shared by pointer and updated in place, so the store has a heap of them; following
  a nil pointer panics, which is the result \<open>None\<close> of an operation.
\<close>

section \<open>Requests\<close>

datatype Tier = TierRoutine | TierElevated

datatype State = StatePending | StateApproved | StateDenied | StateExpired

record Request =
  rq_ID :: string
  rq_Code :: string
  rq_AgentID :: string
  rq_Resource :: string
  rq_AmountWei :: string
  rq_ScopeReq :: "string slice"
  rq_MissionS256 :: string
  rq_Tier :: Tier
  rq_State :: State
  rq_CreatedAt :: time
  rq_ExpiresAt :: time
  rq_ResourceJSON :: bytes
  rq_StepUpSig :: "bytes option"

section \<open>The approval digest\<close>

definition consent_orZero :: "string \<Rightarrow> string" where
  "consent_orZero s = (if s = [] then ''0'' else s)"

definition keccakStrings :: "ext \<Rightarrow> string slice \<Rightarrow> string" where
  "keccakStrings E xs = ''0x'' @ hex_encode (Keccak256 E (json_print (json_strings xs)))"

definition approvalTypes :: td_types where
  "approvalTypes =
     [(''EIP712Domain'',
       [(''name'', ''string''), (''version'', ''string''),
        (''chainId'', ''uint256''), (''verifyingContract'', ''address'')]),
      (''Approval'',
       [(''requestId'', ''string''), (''agent'', ''string''), (''resource'', ''string''),
        (''amountWei'', ''uint256''), (''scopeHash'', ''bytes32''), (''missionS256'', ''bytes32''),
        (''expiresAt'', ''uint256'')])]"

definition Approval_typed_data :: "ext \<Rightarrow> Request \<Rightarrow> int \<Rightarrow> string \<Rightarrow> typed_data" where
  "Approval_typed_data E r chainID registry =
     \<lparr>Types = approvalTypes, PrimaryType = ''Approval'',
      Domain = \<lparr>Name = ''SignetPS'', Version = ''1'', ChainId = chainID, VerifyingContract = registry\<rparr>,
      Message =
        [(''requestId'', TDString (rq_ID r)),
         (''agent'', TDString (rq_AgentID r)),
         (''resource'', TDString (rq_Resource r)),
         (''amountWei'', TDString (consent_orZero (rq_AmountWei r))),
         (''scopeHash'', TDString (keccakStrings E (rq_ScopeReq r))),
         (''missionS256'', TDString (''0x'' @ rq_MissionS256 r)),
         (''expiresAt'', TDString (show_int (Unix (rq_ExpiresAt r))))]\<rparr>"

definition ApprovalDigest :: "ext \<Rightarrow> Request \<Rightarrow> int \<Rightarrow> string \<Rightarrow> bytes option" where
  "ApprovalDigest E r chainID registry =
     (case TypedDataAndHash E (Approval_typed_data E r chainID registry) of
        None \<Rightarrow> None | Some h \<Rightarrow> Some (copy32 h))"

section \<open>The store\<close>

type_synonym rptr = nat

record Store =
  rheap :: "rptr \<rightharpoonup> Request"
  rnext :: rptr
  byID :: "string \<rightharpoonup> rptr"
  byCode :: "string \<rightharpoonup> string"

datatype consent_err =
    UnknownRequest
  | UnknownCode
  | NeedsRootSignature
  | NotElevated
  | ApprovalDigestErr
  | BadSignatureLength
  | SigRecoverErr
  | SignerNotRoot
  | Already State
  | WindowExpired

definition NewStore :: Store where
  "NewStore = \<lparr>rheap = Map.empty, rnext = 0, byID = Map.empty, byCode = Map.empty\<rparr>"

definition set_request :: "Store \<Rightarrow> rptr \<Rightarrow> Request \<Rightarrow> Store" where
  "set_request s p r = s\<lparr>rheap := (rheap s)(p \<mapsto> r)\<rparr>"

text \<open>The caller allocates the request and passes its address; the two are one step here.\<close>

definition Create :: "Store \<Rightarrow> Request \<Rightarrow> Store \<times> rptr" where
  "Create s r =
     (s\<lparr>rheap := (rheap s)(rnext s \<mapsto> r\<lparr>rq_State := StatePending\<rparr>), rnext := rnext s + 1,
        byID := (byID s)(rq_ID r \<mapsto> rnext s), byCode := (byCode s)(rq_Code r \<mapsto> rq_ID r)\<rparr>, rnext s)"

definition Poll :: "Store \<Rightarrow> time \<Rightarrow> string \<Rightarrow> (Store \<times> (consent_err + rptr)) option" where
  "Poll s now rid =
     (case byID s rid of
        None \<Rightarrow> Some (s, Inl UnknownRequest)
      | Some p \<Rightarrow>
          (case rheap s p of
             None \<Rightarrow> None
           | Some r \<Rightarrow>
               if rq_State r = StatePending \<and> now > rq_ExpiresAt r
               then Some (set_request s p (r\<lparr>rq_State := StateExpired\<rparr>), Inr p)
               else Some (s, Inr p)))"

definition transition :: "Store \<Rightarrow> time \<Rightarrow> rptr \<Rightarrow> State \<Rightarrow> (Store \<times> (consent_err + unit)) option" where
  "transition s now p to =
     (case rheap s p of
        None \<Rightarrow> None
      | Some r \<Rightarrow>
          if rq_State r \<noteq> StatePending then Some (s, Inl (Already (rq_State r)))
          else if now > rq_ExpiresAt r
          then Some (set_request s p (r\<lparr>rq_State := StateExpired\<rparr>), Inl WindowExpired)
          else Some (set_request s p (r\<lparr>rq_State := to\<rparr>), Inr ()))"

text \<open>The pointer found for a code; a code whose request is gone gives the nil pointer, \<open>None\<close>.\<close>

definition byCodeLocked :: "Store \<Rightarrow> string \<Rightarrow> consent_err + rptr option" where
  "byCodeLocked s code =
     (case byCode s code of None \<Rightarrow> Inl UnknownCode | Some rid \<Rightarrow> Inr (byID s rid))"

definition ByCode :: "Store \<Rightarrow> string \<Rightarrow> consent_err + rptr option" where
  "ByCode s code = byCodeLocked s code"

text \<open>Follow a pointer that may be nil.\<close>

definition deref :: "Store \<Rightarrow> rptr option \<Rightarrow> (rptr \<times> Request) option" where
  "deref s p = (case p of None \<Rightarrow> None | Some q \<Rightarrow> (case rheap s q of None \<Rightarrow> None | Some r \<Rightarrow> Some (q, r)))"

definition ApproveRoutine :: "Store \<Rightarrow> time \<Rightarrow> string \<Rightarrow> (Store \<times> (consent_err + unit)) option" where
  "ApproveRoutine s now code =
     (case byCodeLocked s code of
        Inl e \<Rightarrow> Some (s, Inl e)
      | Inr p \<Rightarrow>
          (case deref s p of
             None \<Rightarrow> None
           | Some (q, r) \<Rightarrow>
               if rq_Tier r \<noteq> TierRoutine then Some (s, Inl NeedsRootSignature)
               else transition s now q StateApproved))"

definition consent_normalizeHex :: "ext \<Rightarrow> string \<Rightarrow> string" where
  "consent_normalizeHex E s = ToLower (UnicodeLower E) (TrimPrefix (TrimPrefix s ''0x'') ''0X'')"

definition consent_addrEq :: "ext \<Rightarrow> string \<Rightarrow> string \<Rightarrow> bool" where
  "consent_addrEq E a b = (consent_normalizeHex E a = consent_normalizeHex E b)"

definition verifyEOASig :: "ext \<Rightarrow> string \<Rightarrow> bytes \<Rightarrow> bytes \<Rightarrow> consent_err + unit" where
  "verifyEOASig E root digest sig =
     (if length sig \<noteq> 65 then Inl BadSignatureLength
      else
        let s = (if char_val (sig ! 64) \<ge> 27 then sig[64 := char_of (char_val (sig ! 64) - 27)] else sig)
        in case SigToPub E digest s of
             None \<Rightarrow> Inl SigRecoverErr
           | Some pub \<Rightarrow>
               if \<not> consent_addrEq E (PubkeyToAddressHex E pub) root then Inl SignerNotRoot
               else Inr ())"

definition ApproveElevated ::
  "ext \<Rightarrow> Store \<Rightarrow> time \<Rightarrow> string \<Rightarrow> string \<Rightarrow> int \<Rightarrow> string \<Rightarrow> bytes
   \<Rightarrow> (Store \<times> (consent_err + unit)) option" where
  "ApproveElevated E s now code root chainID registry sig =
     (case byCodeLocked s code of
        Inl e \<Rightarrow> Some (s, Inl e)
      | Inr p \<Rightarrow>
          (case deref s p of
             None \<Rightarrow> None
           | Some (q, r) \<Rightarrow>
               if rq_Tier r \<noteq> TierElevated then Some (s, Inl NotElevated)
               else (case ApprovalDigest E r chainID registry of
                       None \<Rightarrow> Some (s, Inl ApprovalDigestErr)
                     | Some digest \<Rightarrow>
                         (case verifyEOASig E root digest sig of
                            Inl e \<Rightarrow> Some (s, Inl e)
                          | Inr _ \<Rightarrow>
                              transition (set_request s q (r\<lparr>rq_StepUpSig := Some sig\<rparr>)) now q
                                StateApproved))))"

definition Deny :: "Store \<Rightarrow> time \<Rightarrow> string \<Rightarrow> (Store \<times> (consent_err + unit)) option" where
  "Deny s now code =
     (case byCodeLocked s code of
        Inl e \<Rightarrow> Some (s, Inl e)
      | Inr p \<Rightarrow> (case p of None \<Rightarrow> None | Some q \<Rightarrow> transition s now q StateDenied))"

lemma set_request_simps [simp]:
  "rheap (set_request s p r) = (rheap s)(p \<mapsto> r)" "rnext (set_request s p r) = rnext s"
  "byID (set_request s p r) = byID s" "byCode (set_request s p r) = byCode s"
  by (simp_all add: set_request_def)

lemma deref_Some: "deref s p = Some (q, r) \<longleftrightarrow> p = Some q \<and> rheap s q = Some r"
  by (auto simp: deref_def split: option.splits)

section \<open>Steps\<close>

text \<open>
  Every critical section of the store is one step, so that steps of concurrent calls may interleave
  in any order. \<open>ApproveElevated\<close> has two, storing the signature it has verified and then
  deciding. \<open>K agent root chainID registry\<close> says which root the server looks up for an agent
  and which chain and registry it is configured with; the server passes those, and creates requests
  without a signature.
\<close>

type_synonym approval_context = "string \<Rightarrow> string \<Rightarrow> int \<Rightarrow> string \<Rightarrow> bool"

definition root_approved :: "ext \<Rightarrow> approval_context \<Rightarrow> Request \<Rightarrow> bytes \<Rightarrow> bool" where
  "root_approved E K r sig =
     (\<exists>root chainID registry digest. K (rq_AgentID r) root chainID registry
        \<and> ApprovalDigest E r chainID registry = Some digest
        \<and> verifyEOASig E root digest sig = Inr ())"

inductive consent_step :: "ext \<Rightarrow> approval_context \<Rightarrow> Store \<Rightarrow> Store \<Rightarrow> bool" for E K where
  create: "rq_StepUpSig r = None \<Longrightarrow> consent_step E K s (fst (Create s r))"
| poll: "Poll s now rid = Some (s', res) \<Longrightarrow> consent_step E K s s'"
| click: "rheap s p = Some r \<Longrightarrow> rq_Tier r = TierRoutine \<Longrightarrow>
    transition s now p StateApproved = Some (s', res) \<Longrightarrow> consent_step E K s s'"
| sign: "rheap s p = Some r \<Longrightarrow> rq_Tier r = TierElevated \<Longrightarrow> root_approved E K r sig \<Longrightarrow>
    consent_step E K s (set_request s p (r\<lparr>rq_StepUpSig := Some sig\<rparr>))"
| confirm: "rheap s p = Some r \<Longrightarrow> rq_Tier r = TierElevated \<Longrightarrow> rq_StepUpSig r \<noteq> None \<Longrightarrow>
    transition s now p StateApproved = Some (s', res) \<Longrightarrow> consent_step E K s s'"
| deny: "transition s now p StateDenied = Some (s', res) \<Longrightarrow> consent_step E K s s'"

inductive_cases consent_stepE: "consent_step E K s s'"

text \<open>The whole operations are sequences of these steps.\<close>

lemma ApproveRoutine_steps:
  assumes "ApproveRoutine s now code = Some (s', res)"
  shows "(consent_step E K)\<^sup>*\<^sup>* s s'"
  using assms
  by (auto simp: ApproveRoutine_def deref_Some split: sum.splits option.splits prod.splits if_splits
      intro: consent_step.click)

lemma Deny_steps:
  assumes "Deny s now code = Some (s', res)"
  shows "(consent_step E K)\<^sup>*\<^sup>* s s'"
  using assms by (auto simp: Deny_def split: sum.splits option.splits intro: consent_step.deny)

lemma ApproveElevated_steps:
  assumes "ApproveElevated E s now code root chainID registry sig = Some (s', res)"
    and "\<And>q r. byCodeLocked s code = Inr (Some q) \<Longrightarrow> rheap s q = Some r \<Longrightarrow> K (rq_AgentID r) root chainID registry"
  shows "(consent_step E K)\<^sup>*\<^sup>* s s'"
proof (cases "s' = s")
  case False
  then obtain q r digest where qr: "byCodeLocked s code = Inr (Some q)" "rheap s q = Some r"
    "rq_Tier r = TierElevated" "ApprovalDigest E r chainID registry = Some digest"
    "verifyEOASig E root digest sig = Inr ()"
    "transition (set_request s q (r\<lparr>rq_StepUpSig := Some sig\<rparr>)) now q StateApproved = Some (s', res)"
    using assms(1)
    by (auto simp: ApproveElevated_def deref_Some split: sum.splits option.splits prod.splits if_splits)
  let ?s1 = "set_request s q (r\<lparr>rq_StepUpSig := Some sig\<rparr>)"
  have "root_approved E K r sig"
    using qr assms(2) [OF qr(1,2)] unfolding root_approved_def by blast
  then have "consent_step E K s ?s1" using qr by (intro consent_step.sign)
  moreover have "consent_step E K ?s1 s'"
    using qr by (intro consent_step.confirm [where r = "r\<lparr>rq_StepUpSig := Some sig\<rparr>"]) auto
  ultimately show ?thesis by (meson r_into_rtranclp rtranclp_trans)
qed simp

text \<open>A step creates one request, or changes the state and signature of one request.\<close>

definition request_ok :: "ext \<Rightarrow> approval_context \<Rightarrow> Request \<Rightarrow> bool" where
  "request_ok E K r =
     ((rq_Tier r = TierElevated \<longrightarrow> rq_State r = StateApproved \<longrightarrow> rq_StepUpSig r \<noteq> None)
      \<and> (\<forall>sig. rq_StepUpSig r = Some sig \<longrightarrow> root_approved E K r sig))"

text \<open>What a request that exists may become.\<close>

definition request_next :: "ext \<Rightarrow> approval_context \<Rightarrow> Request \<Rightarrow> Request \<Rightarrow> bool" where
  "request_next E K r r' =
     (r' = r\<lparr>rq_State := rq_State r', rq_StepUpSig := rq_StepUpSig r'\<rparr>
      \<and> (rq_State r \<noteq> StatePending \<longrightarrow> rq_State r' = rq_State r)
      \<and> (request_ok E K r \<longrightarrow> request_ok E K r'))"

lemma root_approved_frame [simp]:
  "root_approved E K (r\<lparr>rq_State := st\<rparr>) sig = root_approved E K r sig"
  "root_approved E K (r\<lparr>rq_StepUpSig := sg\<rparr>) sig = root_approved E K r sig"
  by (simp_all add: root_approved_def ApprovalDigest_def Approval_typed_data_def)

lemma request_next_refl [simp]: "request_next E K r r"
  by (simp add: request_next_def)

lemma request_next_state:
  assumes "rq_State r = StatePending"
    and "to = StateApproved \<Longrightarrow> rq_Tier r = TierElevated \<Longrightarrow> rq_StepUpSig r \<noteq> None"
  shows "request_next E K r (r\<lparr>rq_State := to\<rparr>)"
  using assms by (auto simp: request_next_def request_ok_def)

lemma request_next_sign:
  "root_approved E K r sig \<Longrightarrow> request_next E K r (r\<lparr>rq_StepUpSig := Some sig\<rparr>)"
  by (auto simp: request_next_def request_ok_def)

inductive consent_change :: "ext \<Rightarrow> approval_context \<Rightarrow> Store \<Rightarrow> Store \<Rightarrow> bool" for E K where
  same: "consent_change E K s s"
| new: "rq_StepUpSig r = None \<Longrightarrow> consent_change E K s (fst (Create s r))"
| one: "rheap s p = Some r \<Longrightarrow> request_next E K r r' \<Longrightarrow> consent_change E K s (set_request s p r')"

lemma transition_change:
  assumes "transition s now p to = Some (s', res)" and "rheap s p = Some r"
    and "to = StateApproved \<Longrightarrow> rq_Tier r = TierElevated \<Longrightarrow> rq_StepUpSig r \<noteq> None"
  shows "consent_change E K s s'"
  using assms
  by (auto simp: transition_def split: if_splits intro!: consent_change.intros request_next_state)

lemma poll_change: "Poll s now rid = Some (s', res) \<Longrightarrow> consent_change E K s s'"
  by (auto simp: Poll_def split: option.splits if_splits intro!: consent_change.intros request_next_state)

lemma consent_step_change: "consent_step E K s s' \<Longrightarrow> consent_change E K s s'"
proof (erule consent_stepE, goal_cases)
  case (6 now p res)
  then obtain r where "rheap s p = Some r" by (auto simp: transition_def split: option.splits)
  then show ?case using 6 by (intro transition_change) auto
qed (auto intro: transition_change poll_change consent_change.intros request_next_sign)

section \<open>The invariant\<close>

definition consent_ok :: "ext \<Rightarrow> approval_context \<Rightarrow> Store \<Rightarrow> bool" where
  "consent_ok E K s =
     ((\<forall>p. rheap s p \<noteq> None \<longrightarrow> p < rnext s)
      \<and> (\<forall>rid p. byID s rid = Some p \<longrightarrow> (\<exists>r. rheap s p = Some r \<and> rq_ID r = rid))
      \<and> (\<forall>code rid. byCode s code = Some rid \<longrightarrow> byID s rid \<noteq> None)
      \<and> (\<forall>p r. rheap s p = Some r \<longrightarrow> request_ok E K r))"

lemma consent_okD:
  assumes "consent_ok E K s"
  shows "rheap s p = Some r \<Longrightarrow> p < rnext s"
    "byID s rid = Some p \<Longrightarrow> \<exists>r. rheap s p = Some r \<and> rq_ID r = rid"
    "byCode s code = Some rid \<Longrightarrow> \<exists>p. byID s rid = Some p"
    "rheap s p = Some r \<Longrightarrow> request_ok E K r"
  using assms by (fastforce simp: consent_ok_def)+

lemma consent_ok_New [simp]: "consent_ok E K NewStore"
  by (simp add: consent_ok_def NewStore_def)

lemma request_next_ID: "request_next E K r r' \<Longrightarrow> rq_ID r' = rq_ID r"
  by (metis request_next_def Request.select_convs(1) Request.surjective Request.update_convs(9)
      Request.update_convs(13))

lemma consent_ok_change: "consent_change E K s s' \<Longrightarrow> consent_ok E K s \<Longrightarrow> consent_ok E K s'"
proof (induction rule: consent_change.induct)
  case (new r s)
  have "request_ok E K (r\<lparr>rq_State := StatePending\<rparr>)"
    using new by (simp add: request_ok_def)
  moreover have "rheap s (rnext s) = None"
    using consent_okD(1) [OF new.prems, of "rnext s"] by fastforce
  moreover note consent_okD [OF new.prems]
  ultimately show ?case
    by (auto simp: consent_ok_def Create_def; fastforce)
next
  case (one s p r r')
  have "request_ok E K r'"
    using one consent_okD(4) [OF one.prems] by (auto simp: request_next_def)
  then show ?case
    using one.hyps consent_okD [OF one.prems] request_next_ID [OF one.hyps(2)]
    by (auto simp: consent_ok_def; fastforce)
qed simp

lemma consent_ok_step [wf_intros]: "consent_step E K s s' \<Longrightarrow> consent_ok E K s \<Longrightarrow> consent_ok E K s'"
  using consent_step_change consent_ok_change by blast

text \<open>What no step takes back: a decision, and everything a request says but its decision.\<close>

definition decision :: "Store \<Rightarrow> rptr \<Rightarrow> State option" where
  "decision s p =
     (case rheap s p of
        None \<Rightarrow> None
      | Some r \<Rightarrow> if rq_State r = StatePending then None else Some (rq_State r))"

definition content :: "Store \<Rightarrow> rptr \<Rightarrow> Request option" where
  "content s p =
     map_option (\<lambda>r. r\<lparr>rq_State := StatePending, rq_StepUpSig := None\<rparr>) (rheap s p)"

lemma decision_kept:
  assumes "consent_change E K s s'" and "consent_ok E K s" and "decision s p = Some st"
  shows "decision s' p = Some st"
  using assms(1)
proof cases
  case (new r)
  have "p \<noteq> rnext s"
    using assms(2,3) consent_okD(1) [OF assms(2), of p] by (auto simp: decision_def split: option.splits)
  then show ?thesis using new assms(3) by (simp add: decision_def Create_def)
next
  case (one q r1 r2)
  then show ?thesis
    using assms(3) by (cases "q = p") (auto simp: decision_def request_next_def split: if_splits)
qed (use assms in simp)

lemma content_kept:
  assumes "consent_change E K s s'" and "consent_ok E K s" and "content s p = Some r"
  shows "content s' p = Some r"
  using assms(1)
proof cases
  case (new r1)
  have "p \<noteq> rnext s"
    using assms(2,3) consent_okD(1) [OF assms(2), of p] by (auto simp: content_def)
  then show ?thesis using new assms(3) by (simp add: content_def Create_def)
next
  case (one q r1 r2)
  then have "r2 = r1\<lparr>rq_State := rq_State r2, rq_StepUpSig := rq_StepUpSig r2\<rparr>"
    by (simp add: request_next_def)
  then have "r2\<lparr>rq_State := StatePending, rq_StepUpSig := None\<rparr>
             = r1\<lparr>rq_State := StatePending, rq_StepUpSig := None\<rparr>"
    by (cases r1; cases r2) simp
  then show ?thesis using one assms(3) by (cases "q = p") (auto simp: content_def)
qed (use assms in simp)

interpretation decisions: permanent_facts "consent_step E K" "consent_ok E K" decision for E K
  by unfold_locales (auto intro: consent_ok_step decision_kept consent_step_change)

interpretation contents: permanent_facts "consent_step E K" "consent_ok E K" content for E K
  by unfold_locales (auto intro: content_kept consent_step_change)

section \<open>Outcomes of the operations\<close>

text \<open>The request a code leads to.\<close>

definition coded :: "Store \<Rightarrow> string \<Rightarrow> (rptr \<times> Request) option" where
  "coded s code = (case byCode s code of None \<Rightarrow> None | Some rid \<Rightarrow> deref s (byID s rid))"

lemma coded_cases:
  assumes "consent_ok E K s"
  obtains (unknown) "byCodeLocked s code = Inl UnknownCode" "coded s code = None"
  | (known) q r where "byCodeLocked s code = Inr (Some q)" "rheap s q = Some r"
      "coded s code = Some (q, r)"
proof (cases "byCode s code")
  case None
  then show thesis by (intro unknown) (simp_all add: byCodeLocked_def coded_def)
next
  case (Some rid)
  then obtain q r where "byID s rid = Some q" "rheap s q = Some r"
    using consent_okD(2,3) [OF assms] by blast
  then show thesis using Some by (intro known) (simp_all add: byCodeLocked_def coded_def deref_def)
qed

definition open_at :: "time \<Rightarrow> Request \<Rightarrow> bool" where
  "open_at now r = (rq_State r = StatePending \<and> now \<le> rq_ExpiresAt r)"

lemma transition_success:
  "transition s now p to = Some (s', Inr ()) \<longleftrightarrow>
     (\<exists>r. rheap s p = Some r \<and> open_at now r \<and> s' = set_request s p (r\<lparr>rq_State := to\<rparr>))"
  by (auto simp: transition_def open_at_def split: option.splits)

lemma transition_total: "rheap s p \<noteq> None \<Longrightarrow> transition s now p to \<noteq> None"
  by (auto simp: transition_def)

lemma set_request_twice [simp]: "set_request (set_request s p r) p r' = set_request s p r'"
  by (simp add: set_request_def)

lemma ApproveRoutine_success:
  assumes "consent_ok E K s"
  shows "ApproveRoutine s now code = Some (s', Inr ()) \<longleftrightarrow>
     (\<exists>q r. coded s code = Some (q, r) \<and> rq_Tier r = TierRoutine \<and> open_at now r
        \<and> s' = set_request s q (r\<lparr>rq_State := StateApproved\<rparr>))"
  using assms by (rule coded_cases [of E K s code])
    (auto simp: ApproveRoutine_def deref_Some deref_def transition_success)

lemma ApproveElevated_success:
  assumes "consent_ok E K s"
  shows "ApproveElevated E s now code root chainID registry sig = Some (s', Inr ()) \<longleftrightarrow>
     (\<exists>q r digest. coded s code = Some (q, r) \<and> rq_Tier r = TierElevated \<and> open_at now r
        \<and> ApprovalDigest E r chainID registry = Some digest
        \<and> verifyEOASig E root digest sig = Inr ()
        \<and> s' = set_request s q (r\<lparr>rq_StepUpSig := Some sig, rq_State := StateApproved\<rparr>))"
  using assms by (rule coded_cases [of E K s code])
    (auto simp: ApproveElevated_def deref_Some deref_def transition_success open_at_def
      split: option.splits sum.splits)

lemma Deny_success:
  assumes "consent_ok E K s"
  shows "Deny s now code = Some (s', Inr ()) \<longleftrightarrow>
     (\<exists>q r. coded s code = Some (q, r) \<and> open_at now r
        \<and> s' = set_request s q (r\<lparr>rq_State := StateDenied\<rparr>))"
  using assms by (rule coded_cases [of E K s code])
    (auto simp: Deny_def transition_success)

lemma consent_total:
  assumes "consent_ok E K s"
  shows "ApproveRoutine s now code \<noteq> None" "Deny s now code \<noteq> None"
    "ApproveElevated E s now code root chainID registry sig \<noteq> None" "Poll s now rid \<noteq> None"
proof -
  show "ApproveRoutine s now code \<noteq> None"
    using assms by (rule coded_cases [of E K s code])
      (auto simp: ApproveRoutine_def deref_def transition_def)
  show "Deny s now code \<noteq> None"
    using assms by (rule coded_cases [of E K s code]) (auto simp: Deny_def transition_def)
  show "ApproveElevated E s now code root chainID registry sig \<noteq> None"
    using assms by (rule coded_cases [of E K s code])
      (auto simp: ApproveElevated_def deref_def transition_def split: option.split sum.split)
  show "Poll s now rid \<noteq> None"
    using consent_okD(2) [OF assms, of rid] by (fastforce simp: Poll_def split: option.split)
qed

section \<open>The digest binds the request\<close>

definition same_approval :: "Request \<Rightarrow> int \<Rightarrow> string \<Rightarrow> Request \<Rightarrow> int \<Rightarrow> string \<Rightarrow> bool" where
  "same_approval r c a r' c' a' =
     (rq_ID r = rq_ID r' \<and> rq_AgentID r = rq_AgentID r' \<and> rq_Resource r = rq_Resource r'
      \<and> consent_orZero (rq_AmountWei r) = consent_orZero (rq_AmountWei r')
      \<and> rq_ScopeReq r = rq_ScopeReq r' \<and> rq_MissionS256 r = rq_MissionS256 r'
      \<and> Unix (rq_ExpiresAt r) = Unix (rq_ExpiresAt r') \<and> c = c' \<and> a = a')"

lemma ApprovalDigest_typed: "ApprovalDigest E r c a = typedDataDigest E (Approval_typed_data E r c a)"
  by (simp add: ApprovalDigest_def typedDataDigest_def)

lemma keccakStrings_eq: "keccakStrings E xs = keccakJSON E (json_strings xs)"
  by (simp add: keccakStrings_def keccakJSON_def)

lemma Approval_typed_data_eq:
  assumes "Approval_typed_data E r c a = Approval_typed_data E r' c' a'"
    and "list_all utf8_ok (elems (rq_ScopeReq r))" "list_all utf8_ok (elems (rq_ScopeReq r'))"
  shows "same_approval r c a r' c' a'
         \<or> collision (Keccak256 E) (json_print (json_strings (rq_ScopeReq r)))
             (json_print (json_strings (rq_ScopeReq r')))"
  using assms keccakJSON_strings [of E "rq_ScopeReq r" "rq_ScopeReq r'"]
  by (auto simp: Approval_typed_data_def same_approval_def keccakStrings_eq)

lemma approval_is_no_attestation:
  "Approval_typed_data E r c a \<noteq> PSA_typed_data E p" "Approval_typed_data E r c a \<noteq> AgentGrant_typed_data g"
  by (simp_all add: Approval_typed_data_def PSA_typed_data_def AgentGrant_typed_data_def)

section \<open>The two address comparisons\<close>

definition hex_digits :: "string \<Rightarrow> bool" where
  "hex_digits s = list_all (\<lambda>c. hex_val c \<noteq> None) s"

text \<open>An address: hex digits, with or without a prefix.\<close>

definition address :: "string \<Rightarrow> bool" where
  "address s = (hex_digits s \<or> (\<exists>t. hex_digits t \<and> (s = ''0x'' @ t \<or> s = ''0X'' @ t)))"

lemma hex_digit_cases:
  "hex_val c \<noteq> None \<Longrightarrow>
   char_val c < 128 \<and> ascii_lower c = hex_upper_lower c \<and> c \<noteq> CHR ''x'' \<and> c \<noteq> CHR ''X''"
  by (auto simp: hex_val_def ascii_lower_def hex_upper_lower_def Let_def split: if_splits)

lemma hex_digits_lower: "hex_digits t \<Longrightarrow> map ascii_lower t = map hex_upper_lower t \<and> is_ascii t"
  unfolding hex_digits_def list_all_iff is_ascii_def using hex_digit_cases by (metis map_cong)

lemma hex_digits_prefix:
  assumes "hex_digits t"
  shows "take 2 t \<noteq> ''0x'' \<and> take 2 t \<noteq> ''0X''" "TrimPrefix t ''0x'' = t" "TrimPrefix t ''0X'' = t"
proof -
  have "CHR ''x'' \<notin> set t" "CHR ''X'' \<notin> set t"
    using assms hex_digit_cases by (auto simp: hex_digits_def list_all_iff)
  then have no: "take n t \<noteq> ''0x'' \<and> take n t \<noteq> ''0X''" for n
    by (metis in_set_takeD list.set_intros)
  then show "take 2 t \<noteq> ''0x'' \<and> take 2 t \<noteq> ''0X''" by blast
  show "TrimPrefix t ''0x'' = t" "TrimPrefix t ''0X'' = t"
    using no by (simp_all add: TrimPrefix_def HasPrefix_def)
qed

lemma normalizeHex_agree: "address s \<Longrightarrow> consent_normalizeHex E s = normalizeHex s"
proof -
  have digits: "consent_normalizeHex E t = map hex_upper_lower t \<and> normalizeHex t = map hex_upper_lower t"
    if "hex_digits t" for t
    using hex_digits_lower [OF that] hex_digits_prefix [OF that]
    by (simp only: consent_normalizeHex_def normalizeHex_def ToLower_def if_True if_False simp_thms)
  have prefixed: "consent_normalizeHex E (''0x'' @ t) = map hex_upper_lower t"
    "consent_normalizeHex E (''0X'' @ t) = map hex_upper_lower t" if "hex_digits t" for t
  proof -
    have "TrimPrefix (''0X'' @ t) ''0x'' = ''0X'' @ t"
      by (simp add: TrimPrefix_def HasPrefix_def)
    then show "consent_normalizeHex E (''0x'' @ t) = map hex_upper_lower t"
      "consent_normalizeHex E (''0X'' @ t) = map hex_upper_lower t"
      unfolding consent_normalizeHex_def ToLower_def
      using hex_digits_lower [OF that] hex_digits_prefix(2,3) [OF that] TrimPrefix_append by metis+
  qed
  assume "address s"
  then show ?thesis using digits prefixed by (auto simp: address_def)
qed

lemma addrEq_agree: "address a \<Longrightarrow> address b \<Longrightarrow> consent_addrEq E a b = addrEq a b"
  by (simp add: consent_addrEq_def addrEq_def normalizeHex_agree)

lemma hex_digits_encode: "hex_digits (hex_encode bs)"
  by (induction bs rule: hex_encode.induct) (simp_all add: hex_digits_def hex_nibble)

lemma verifyEOASig_agree:
  assumes "\<forall>pub. address (PubkeyToAddressHex E pub)" and "address root"
  shows "verifyEOASig E root d sig = Inr () \<longleftrightarrow> eoaSigned E root d sig"
  using assms
  by (simp add: verifyEOASig_def eoaSigned_def recoverAddress_def normalizeV_def Let_def addrEq_agree
      split: option.split)

section \<open>A concrete store\<close>

definition sample_request :: "Tier \<Rightarrow> Request" where
  "sample_request tier =
     \<lparr>rq_ID = ''r1'', rq_Code = ''c1'', rq_AgentID = ''aauth:a@b'', rq_Resource = ''https://res'',
      rq_AmountWei = ''150'', rq_ScopeReq = Some [''pay''], rq_MissionS256 = ''00'', rq_Tier = tier,
      rq_State = StatePending, rq_CreatedAt = 0, rq_ExpiresAt = 600 * Second,
      rq_ResourceJSON = [], rq_StepUpSig = None\<rparr>"

definition sample_store :: "Tier \<Rightarrow> Store" where
  "sample_store tier = fst (Create NewStore (sample_request tier))"

definition sample_stepup :: bytes where
  "sample_stepup =
     (case ApprovalDigest sample_ext (sample_request TierElevated) 8453 ''0xa1'' of
        None \<Rightarrow> [] | Some d \<Rightarrow> d @ replicate 32 (CHR ''k'') @ [CHR 0x1B])"

lemma sample_store_reached: "(consent_step E K)\<^sup>*\<^sup>* NewStore (sample_store tier)"
  using consent_step.create [of "sample_request tier" E K NewStore]
  by (auto simp: sample_store_def sample_request_def)

lemma sample_store_ok: "consent_ok E K (sample_store tier)"
  using decisions.inv_reaches [OF sample_store_reached] by simp

lemma sample_coded: "coded (sample_store tier) ''c1'' = Some (0, sample_request tier)"
  by (simp add: sample_store_def coded_def Create_def deref_def NewStore_def sample_request_def)

lemma sample_addresses: "\<forall>pub. address (PubkeyToAddressHex sample_ext pub)" "address sample_root"
proof -
  show "\<forall>pub. address (PubkeyToAddressHex sample_ext pub)"
    using hex_digits_encode by (auto simp: sample_ext_def address_def)
  have "hex_digits ''6b6b''" by (simp add: hex_digits_def hex_val_def)
  then show "address sample_root" by (auto simp: sample_root_def address_def)
qed

lemma sample_approval:
  obtains d where "ApprovalDigest sample_ext (sample_request TierElevated) 8453 ''0xa1'' = Some d"
    "verifyEOASig sample_ext sample_root d sample_stepup = Inr ()"
proof -
  obtain d where d: "ApprovalDigest sample_ext (sample_request TierElevated) 8453 ''0xa1'' = Some d"
    "length d = 32"
    using sample_digest unfolding ApprovalDigest_typed by blast
  then have "verifyEOASig sample_ext sample_root d sample_stepup = Inr ()"
    using sample_eoaSigned [OF d(2)] sample_addresses by (simp add: verifyEOASig_agree sample_stepup_def)
  then show thesis using that d by blast
qed

definition sample_approved :: Store where
  "sample_approved =
     set_request (sample_store TierElevated) 0
       ((sample_request TierElevated)\<lparr>rq_StepUpSig := Some sample_stepup, rq_State := StateApproved\<rparr>)"

lemma sample_approves:
  "ApproveElevated sample_ext (sample_store TierElevated) (60 * Second) ''c1'' sample_root 8453 ''0xa1''
     sample_stepup = Some (sample_approved, Inr ())"
proof -
  obtain d where "ApprovalDigest sample_ext (sample_request TierElevated) 8453 ''0xa1'' = Some d"
    "verifyEOASig sample_ext sample_root d sample_stepup = Inr ()" by (rule sample_approval)
  moreover have "rq_Tier (sample_request TierElevated) = TierElevated"
    "open_at (60 * Second) (sample_request TierElevated)"
    by (simp_all add: open_at_def sample_request_def Second_def)
  ultimately show ?thesis
    using sample_coded [of TierElevated]
    by (simp add: ApproveElevated_success [OF sample_store_ok] sample_approved_def)
qed

definition sample_K :: approval_context where
  "sample_K agent root chainID registry =
     (agent = ''aauth:a@b'' \<and> root = sample_root \<and> chainID = 8453 \<and> registry = ''0xa1'')"

lemma sample_approved_reached: "(consent_step sample_ext sample_K)\<^sup>*\<^sup>* NewStore sample_approved"
proof -
  have "(consent_step sample_ext sample_K)\<^sup>*\<^sup>* (sample_store TierElevated) sample_approved"
    using sample_approves
    by (rule ApproveElevated_steps)
      (auto simp: byCodeLocked_def sample_store_def Create_def NewStore_def sample_request_def sample_K_def)
  then show ?thesis using sample_store_reached rtranclp_trans by metis
qed

section \<open>Properties\<close>



text \<open>C28: exactly when each call on the store succeeds, and what it then
  changes. A click approves a pending routine request in its window; a root signature approves a
  pending elevated one if it verifies over the request's digest, and is kept with it; a denial
  closes a pending request. Nothing else about the store changes, and no call panics.\<close>

theorem approval_outcomes:
  assumes "(consent_step E K)\<^sup>*\<^sup>* NewStore s"
  shows "(ApproveRoutine s now code = Some (s', Inr ()) \<longleftrightarrow>
       (\<exists>q r. coded s code = Some (q, r) \<and> rq_Tier r = TierRoutine \<and> open_at now r
          \<and> s' = set_request s q (r\<lparr>rq_State := StateApproved\<rparr>)))
     \<and> (ApproveElevated E s now code root chainID registry sig = Some (s', Inr ()) \<longleftrightarrow>
       (\<exists>q r digest. coded s code = Some (q, r) \<and> rq_Tier r = TierElevated \<and> open_at now r
          \<and> ApprovalDigest E r chainID registry = Some digest
          \<and> verifyEOASig E root digest sig = Inr ()
          \<and> s' = set_request s q (r\<lparr>rq_StepUpSig := Some sig, rq_State := StateApproved\<rparr>)))
     \<and> (Deny s now code = Some (s', Inr ()) \<longleftrightarrow>
       (\<exists>q r. coded s code = Some (q, r) \<and> open_at now r
          \<and> s' = set_request s q (r\<lparr>rq_State := StateDenied\<rparr>)))
     \<and> ApproveRoutine s now code \<noteq> None \<and> Deny s now code \<noteq> None
     \<and> ApproveElevated E s now code root chainID registry sig \<noteq> None \<and> Poll s now rid \<noteq> None"
proof -
  have ok: "consent_ok E K s" using decisions.inv_reaches [OF assms] by simp
  show ?thesis
    by (intro conjI ApproveRoutine_success [OF ok] ApproveElevated_success [OF ok] Deny_success [OF ok]
        consent_total [OF ok])
qed

theorem approval_outcomes_witness:
  "ApproveRoutine (sample_store TierRoutine) (60 * Second) ''c1''
   = Some (set_request (sample_store TierRoutine) 0
       ((sample_request TierRoutine)\<lparr>rq_State := StateApproved\<rparr>), Inr ())"
proof -
  have "rq_Tier (sample_request TierRoutine) = TierRoutine \<and> open_at (60 * Second) (sample_request TierRoutine)"
    by (simp add: open_at_def sample_request_def Second_def)
  then show ?thesis
    using approval_outcomes [OF sample_store_reached [of sample_ext sample_K]] sample_coded by auto
qed

text \<open>C29: a request that has been approved, denied or expired stays so in every
  later state, and from its creation on nothing about a request but its decision and its signature
  changes.\<close>

theorem decisions_are_final:
  assumes "(consent_step E K)\<^sup>*\<^sup>* NewStore s" and "(consent_step E K)\<^sup>*\<^sup>* s s'"
    and "rheap s p = Some r"
  shows "\<exists>r'. rheap s' p = Some r'
           \<and> (rq_State r \<noteq> StatePending \<longrightarrow> rq_State r' = rq_State r)
           \<and> r'\<lparr>rq_State := StatePending, rq_StepUpSig := None\<rparr>
             = r\<lparr>rq_State := StatePending, rq_StepUpSig := None\<rparr>"
proof -
  have ok: "consent_ok E K s" using decisions.inv_reaches [OF assms(1)] by simp
  have "content s p = Some (r\<lparr>rq_State := StatePending, rq_StepUpSig := None\<rparr>)"
    using assms(3) by (simp add: content_def)
  from contents.known_reaches [OF assms(2) ok this] obtain r' where
    r': "rheap s' p = Some r'"
      "r'\<lparr>rq_State := StatePending, rq_StepUpSig := None\<rparr>
       = r\<lparr>rq_State := StatePending, rq_StepUpSig := None\<rparr>"
    by (auto simp: content_def)
  have "rq_State r' = rq_State r" if "rq_State r \<noteq> StatePending"
    using decisions.known_reaches [OF assms(2) ok, of p "rq_State r"] that assms(3) r'(1)
    by (simp add: decision_def split: if_splits)
  then show ?thesis using r' by blast
qed

theorem decisions_are_final_witness:
  "\<exists>r'. rheap sample_approved 0 = Some r' \<and> rq_State r' = StateApproved"
  using decisions_are_final [OF sample_approved_reached rtranclp.rtrancl_refl, of 0]
  by (simp add: sample_approved_def)

text \<open>What a poll may do to a request.\<close>

definition lapsed :: "time \<Rightarrow> bool \<Rightarrow> Request \<Rightarrow> Request" where
  "lapsed now polled r =
     (if rq_State r = StatePending \<and> now > rq_ExpiresAt r \<and> polled
      then r\<lparr>rq_State := StateExpired\<rparr> else r)"

lemma lapsed_simps [simp]:
  "rq_Tier (lapsed now b r) = rq_Tier r" "ApprovalDigest E (lapsed now b r) c a = ApprovalDigest E r c a"
  "lapsed now False r = r"
  by (simp_all add: lapsed_def ApprovalDigest_def Approval_typed_data_def)

lemma lapsed_open: "now \<le> later \<Longrightarrow> open_at later (lapsed now b r) = open_at later r"
  by (auto simp: lapsed_def open_at_def)

lemma poll_view:
  assumes "Poll s now rid = Some (s1, res)"
  shows "byCode s1 = byCode s \<and> byID s1 = byID s
         \<and> rheap s1 p = map_option (lapsed now (byID s rid = Some p)) (rheap s p)"
  using assms
  by (cases "rheap s p") (auto simp: Poll_def lapsed_def split: option.splits if_splits)

lemma poll_coded:
  assumes "Poll s now rid = Some (s1, res)"
  shows "coded s1 code = map_option (\<lambda>(q, r). (q, lapsed now (byID s rid = Some q) r)) (coded s code)"
  using poll_view [OF assms] by (auto simp: coded_def deref_def split: option.split)

text \<open>A poll never decides a request. Whether a later click, root
  signature or denial succeeds is the same with the poll as without it; a poll can only write down
  that the window has passed.\<close>

theorem polling_has_no_influence:
  assumes "(consent_step E K)\<^sup>*\<^sup>* NewStore s" and "Poll s now rid = Some (s1, res)" and "now \<le> later"
  shows "((\<exists>s'. ApproveRoutine s1 later code = Some (s', Inr ()))
            \<longleftrightarrow> (\<exists>s'. ApproveRoutine s later code = Some (s', Inr ())))
       \<and> ((\<exists>s'. Deny s1 later code = Some (s', Inr ()))
            \<longleftrightarrow> (\<exists>s'. Deny s later code = Some (s', Inr ())))
       \<and> ((\<exists>s'. ApproveElevated E s1 later code root chainID registry sig = Some (s', Inr ()))
            \<longleftrightarrow> (\<exists>s'. ApproveElevated E s later code root chainID registry sig = Some (s', Inr ())))"
proof -
  have ok: "consent_ok E K s" using decisions.inv_reaches [OF assms(1)] by simp
  then have ok1: "consent_ok E K s1" using consent_step.poll [OF assms(2)] consent_ok_step by blast
  show ?thesis
    unfolding ApproveRoutine_success [OF ok] ApproveRoutine_success [OF ok1] Deny_success [OF ok]
      Deny_success [OF ok1] ApproveElevated_success [OF ok] ApproveElevated_success [OF ok1]
      poll_coded [OF assms(2)]
    by (cases "coded s code") (auto simp: lapsed_open [OF assms(3)])
qed

theorem polling_has_no_influence_witness:
  "\<exists>s1 p. Poll (sample_store TierRoutine) (60 * Second) ''r1'' = Some (s1, Inr p)
     \<and> (\<exists>s'. ApproveRoutine s1 (61 * Second) ''c1'' = Some (s', Inr ()))"
proof -
  have poll: "Poll (sample_store TierRoutine) (60 * Second) ''r1'' = Some (sample_store TierRoutine, Inr 0)"
    by (simp add: Poll_def sample_store_def Create_def NewStore_def sample_request_def Second_def)
  have "rq_Tier (sample_request TierRoutine) = TierRoutine \<and> open_at (61 * Second) (sample_request TierRoutine)"
    by (simp add: open_at_def sample_request_def Second_def)
  then have "\<exists>s'. ApproveRoutine (sample_store TierRoutine) (61 * Second) ''c1'' = Some (s', Inr ())"
    using ApproveRoutine_success [OF sample_store_ok] sample_coded by auto
  then show ?thesis
    using polling_has_no_influence [OF sample_store_reached [of sample_ext sample_K] poll, of "61 * Second"] poll
    by (simp add: Second_def)
qed

text \<open>Two approvals with the same digest are for the same request id,
  agent, resource, amount (empty counting as zero), scope list, mission, expiry second, chain and
  registry, or exhibit a collision of the EIP-712 hash or of Keccak-256 on the two scope lists; and
  an approval shares no digest with an authorization or a grant unless the EIP-712 hash collides.
  So a captured step-up signature cannot be replayed for another action.\<close>

theorem approval_digest_binds:
  assumes "ApprovalDigest E r c a = Some d"
    and "list_all utf8_ok (elems (rq_ScopeReq r))" "list_all utf8_ok (elems (rq_ScopeReq r'))"
  shows "(ApprovalDigest E r' c' a' = Some d \<longrightarrow>
            same_approval r c a r' c' a'
            \<or> collision (Keccak256 E) (json_print (json_strings (rq_ScopeReq r)))
                (json_print (json_strings (rq_ScopeReq r')))
            \<or> collision (typedDataDigest E) (Approval_typed_data E r c a) (Approval_typed_data E r' c' a'))
         \<and> (PSADigest E p = Some d \<longrightarrow>
              collision (typedDataDigest E) (Approval_typed_data E r c a) (PSA_typed_data E p))
         \<and> (AgentGrantDigest E g = Some d \<longrightarrow>
              collision (typedDataDigest E) (Approval_typed_data E r c a) (AgentGrant_typed_data g))"
  using assms Approval_typed_data_eq [of E r c a r' c' a'] approval_is_no_attestation
    digest_eq_cases [of E "Approval_typed_data E r c a" d]
  unfolding ApprovalDigest_typed PSADigest_def AgentGrantDigest_def by metis

theorem approval_digest_binds_witness:
  "same_approval (sample_request TierElevated) 8453 ''0xa1'' (sample_request TierRoutine) 8453 ''0xa1''
   \<or> collision (Keccak256 sample_ext) (json_print (json_strings (rq_ScopeReq (sample_request TierElevated))))
       (json_print (json_strings (rq_ScopeReq (sample_request TierRoutine))))
   \<or> collision (typedDataDigest sample_ext)
       (Approval_typed_data sample_ext (sample_request TierElevated) 8453 ''0xa1'')
       (Approval_typed_data sample_ext (sample_request TierRoutine) 8453 ''0xa1'')"
proof -
  obtain d where "ApprovalDigest sample_ext (sample_request TierElevated) 8453 ''0xa1'' = Some d"
    by (rule sample_approval)
  moreover have "ApprovalDigest sample_ext (sample_request TierRoutine) 8453 ''0xa1''
      = ApprovalDigest sample_ext (sample_request TierElevated) 8453 ''0xa1''"
    by (simp add: ApprovalDigest_def Approval_typed_data_def sample_request_def)
  moreover have "list_all utf8_ok (elems (rq_ScopeReq (sample_request t)))" for t
    by (simp add: sample_request_def)
  ultimately show ?thesis
    using approval_digest_binds
      [of sample_ext "sample_request TierElevated" 8453 "''0xa1''" _ "sample_request TierRoutine" 8453 "''0xa1''"]
    by metis
qed



end
