(* ===== verification/Tokens.thy ===== *)
theory Tokens
  imports Attest
begin

text \<open>
  Package \<open>tokens\<close> (\<open>internal/tokens/tokens.go\<close>, \<open>helpers.go\<close>): the shapes of the auth and
  resource tokens, minting inside the envelope of the authorization, and the two layers of
  verification a resource runs. Interfaces that may keep state or answer differently each time
  (key resolver, attestation resolver, replay cache) pass a state \<open>'w\<close> through every call.
\<close>

section \<open>Claims\<close>

record JWK =
  Kty :: string
  Crv :: string
  X :: string

record MissionRef =
  Approver :: string
  S256 :: string

record StepUp =
  su_Digest :: string
  su_Sig :: string

record Vouched =
  Value :: string
  Provenance :: string

record AuthClaims =
  Iss :: string
  Dwk :: string
  Aud :: string
  Jti :: string
  Agent :: string
  Cnf :: JWK
  Iat :: int
  Exp :: int
  Sub :: string
  Mission :: "MissionRef option"
  PSARef :: string
  AgS256 :: string
  StepUpClaim :: "StepUp option"
  VName :: "Vouched option"
  VEmail :: "Vouched option"
  VKYC :: "Vouched option"

record ResourceClaims =
  rc_Iss :: string
  rc_Jti :: string
  rc_Iat :: int
  rc_Exp :: int
  rc_Scope :: "string slice"
  rc_AmountWei :: string

record jwtHeader =
  Alg :: string
  Typ :: string
  hdr_Kid :: string

section \<open>Thumbprints\<close>

text \<open>
  The \<open>%q\<close> verb (\<open>strconv.Quote\<close>), written out for ASCII text; text with other runes goes
  through the Unicode tables of the runtime.
\<close>

definition quote_ascii :: "char \<Rightarrow> string" where
  "quote_ascii c =
     (let v = char_val c in
      if c = dquote \<or> c = bslash then [bslash, c]
      else if 32 \<le> v \<and> v < 127 then [c]
      else if v = 7 then [bslash, CHR ''a'']
      else if v = 8 then [bslash, CHR ''b'']
      else if v = 12 then [bslash, CHR ''f'']
      else if v = 10 then [bslash, CHR ''n'']
      else if v = 13 then [bslash, CHR ''r'']
      else if v = 9 then [bslash, CHR ''t'']
      else if v = 11 then [bslash, CHR ''v'']
      else [bslash, CHR ''x'', hex_char (v div 16), hex_char (v mod 16)])"

definition go_quote :: "ext \<Rightarrow> string \<Rightarrow> string" where
  "go_quote E s =
     (if is_ascii s then dquote # concat (map quote_ascii s) @ [dquote] else UnicodeQuote E s)"

definition JWK_canonical :: "ext \<Rightarrow> JWK \<Rightarrow> string" where
  "JWK_canonical E k =
     ''{'' @ [dquote] @ ''crv'' @ [dquote] @ '':'' @ go_quote E (Crv k)
     @ '','' @ [dquote] @ ''kty'' @ [dquote] @ '':'' @ go_quote E (Kty k)
     @ '','' @ [dquote] @ ''x'' @ [dquote] @ '':'' @ go_quote E (X k) @ ''}''"

definition Thumbprint :: "ext \<Rightarrow> JWK \<Rightarrow> string" where
  "Thumbprint E k = b64_raw True (SHA256 E (JWK_canonical E k))"

section \<open>JSON form\<close>

definition JWK_json :: "JWK \<Rightarrow> json" where
  "JWK_json k = JObj [(''kty'', JStr (Kty k)), (''crv'', JStr (Crv k)), (''x'', JStr (X k))]"

definition JWK_zero :: JWK where
  "JWK_zero = \<lparr>Kty = [], Crv = [], X = []\<rparr>"

definition JWK_fields :: "(string \<times> JWK setter) list" where
  "JWK_fields =
     [(''kty'', into_string (\<lambda>x k. k\<lparr>Kty := x\<rparr>)),
      (''crv'', into_string (\<lambda>x k. k\<lparr>Crv := x\<rparr>)),
      (''x'', into_string (\<lambda>x k. k\<lparr>X := x\<rparr>))]"

text \<open>\<open>CNF\<close> is a struct with the one member \<open>jwk\<close>.\<close>

definition CNF_json :: "JWK \<Rightarrow> json" where
  "CNF_json k = JObj [(''jwk'', JWK_json k)]"

definition CNF_fields :: "(string \<times> JWK setter) list" where
  "CNF_fields = [(''jwk'', into_record JWK_fields (\<lambda>x k. x) (\<lambda>k. k))]"

definition MissionRef_json :: "MissionRef \<Rightarrow> json" where
  "MissionRef_json m = JObj [(''approver'', JStr (Approver m)), (''s256'', JStr (S256 m))]"

definition MissionRef_fields :: "(string \<times> MissionRef setter) list" where
  "MissionRef_fields =
     [(''approver'', into_string (\<lambda>x m. m\<lparr>Approver := x\<rparr>)),
      (''s256'', into_string (\<lambda>x m. m\<lparr>S256 := x\<rparr>))]"

definition StepUp_json :: "StepUp \<Rightarrow> json" where
  "StepUp_json u = JObj [(''digest'', JStr (su_Digest u)), (''sig'', JStr (su_Sig u))]"

definition StepUp_fields :: "(string \<times> StepUp setter) list" where
  "StepUp_fields =
     [(''digest'', into_string (\<lambda>x u. u\<lparr>su_Digest := x\<rparr>)),
      (''sig'', into_string (\<lambda>x u. u\<lparr>su_Sig := x\<rparr>))]"

definition Vouched_json :: "Vouched \<Rightarrow> json" where
  "Vouched_json v = JObj [(''value'', JStr (Value v)), (''provenance'', JStr (Provenance v))]"

definition Vouched_fields :: "(string \<times> Vouched setter) list" where
  "Vouched_fields =
     [(''value'', into_string (\<lambda>x v. v\<lparr>Value := x\<rparr>)),
      (''provenance'', into_string (\<lambda>x v. v\<lparr>Provenance := x\<rparr>))]"

definition MissionRef_zero :: MissionRef where "MissionRef_zero = \<lparr>Approver = [], S256 = []\<rparr>"
definition StepUp_zero :: StepUp where "StepUp_zero = \<lparr>su_Digest = [], su_Sig = []\<rparr>"
definition Vouched_zero :: Vouched where "Vouched_zero = \<lparr>Value = [], Provenance = []\<rparr>"

text \<open>A pointer field with \<open>omitempty\<close> is left out when nil.\<close>

definition omit_nil :: "string \<Rightarrow> ('r \<Rightarrow> json) \<Rightarrow> 'r option \<Rightarrow> (string \<times> json) list" where
  "omit_nil k f p = (case p of None \<Rightarrow> [] | Some r \<Rightarrow> [(k, f r)])"

definition AuthClaims_json :: "AuthClaims \<Rightarrow> json" where
  "AuthClaims_json c = JObj
     ([(''iss'', JStr (Iss c)), (''dwk'', JStr (Dwk c)), (''aud'', JStr (Aud c)),
       (''jti'', JStr (Jti c)), (''agent'', JStr (Agent c)), (''cnf'', CNF_json (Cnf c)),
       (''iat'', JNum (Iat c)), (''exp'', JNum (Exp c)), (''sub'', JStr (Sub c))]
      @ omit_nil ''mission'' MissionRef_json (Mission c)
      @ omitempty (PSARef c = []) ''psa'' (JStr (PSARef c))
      @ omitempty (AgS256 c = []) ''ag_s256'' (JStr (AgS256 c))
      @ omit_nil ''step_up'' StepUp_json (StepUpClaim c)
      @ omit_nil ''name'' Vouched_json (VName c)
      @ omit_nil ''email'' Vouched_json (VEmail c)
      @ omit_nil ''kyc'' Vouched_json (VKYC c))"

definition AuthClaims_zero :: AuthClaims where
  "AuthClaims_zero = \<lparr>Iss = [], Dwk = [], Aud = [], Jti = [], Agent = [], Cnf = JWK_zero, Iat = 0,
     Exp = 0, Sub = [], Mission = None, PSARef = [], AgS256 = [], StepUpClaim = None, VName = None,
     VEmail = None, VKYC = None\<rparr>"

definition AuthClaims_fields :: "(string \<times> AuthClaims setter) list" where
  "AuthClaims_fields =
     [(''iss'', into_string (\<lambda>x c. c\<lparr>Iss := x\<rparr>)),
      (''dwk'', into_string (\<lambda>x c. c\<lparr>Dwk := x\<rparr>)),
      (''aud'', into_string (\<lambda>x c. c\<lparr>Aud := x\<rparr>)),
      (''jti'', into_string (\<lambda>x c. c\<lparr>Jti := x\<rparr>)),
      (''agent'', into_string (\<lambda>x c. c\<lparr>Agent := x\<rparr>)),
      (''cnf'', into_record CNF_fields (\<lambda>x c. c\<lparr>Cnf := x\<rparr>) Cnf),
      (''iat'', into_int64 (\<lambda>x c. c\<lparr>Iat := x\<rparr>)),
      (''exp'', into_int64 (\<lambda>x c. c\<lparr>Exp := x\<rparr>)),
      (''sub'', into_string (\<lambda>x c. c\<lparr>Sub := x\<rparr>)),
      (''mission'', into_pointer MissionRef_fields MissionRef_zero (\<lambda>x c. c\<lparr>Mission := x\<rparr>) Mission),
      (''psa'', into_string (\<lambda>x c. c\<lparr>PSARef := x\<rparr>)),
      (''ag_s256'', into_string (\<lambda>x c. c\<lparr>AgS256 := x\<rparr>)),
      (''step_up'', into_pointer StepUp_fields StepUp_zero (\<lambda>x c. c\<lparr>StepUpClaim := x\<rparr>) StepUpClaim),
      (''name'', into_pointer Vouched_fields Vouched_zero (\<lambda>x c. c\<lparr>VName := x\<rparr>) VName),
      (''email'', into_pointer Vouched_fields Vouched_zero (\<lambda>x c. c\<lparr>VEmail := x\<rparr>) VEmail),
      (''kyc'', into_pointer Vouched_fields Vouched_zero (\<lambda>x c. c\<lparr>VKYC := x\<rparr>) VKYC)]"

definition AuthClaims_of_json :: "json \<Rightarrow> AuthClaims option" where
  "AuthClaims_of_json = into_struct AuthClaims_fields AuthClaims_zero"

definition ResourceClaims_json :: "ResourceClaims \<Rightarrow> json" where
  "ResourceClaims_json r = JObj
     ([(''iss'', JStr (rc_Iss r)), (''jti'', JStr (rc_Jti r)), (''iat'', JNum (rc_Iat r)),
       (''exp'', JNum (rc_Exp r)), (''scope'', json_strings (rc_Scope r))]
      @ omitempty (rc_AmountWei r = []) ''amount'' (JStr (rc_AmountWei r)))"

definition ResourceClaims_zero :: ResourceClaims where
  "ResourceClaims_zero = \<lparr>rc_Iss = [], rc_Jti = [], rc_Iat = 0, rc_Exp = 0, rc_Scope = None,
     rc_AmountWei = []\<rparr>"

definition ResourceClaims_fields :: "(string \<times> ResourceClaims setter) list" where
  "ResourceClaims_fields =
     [(''iss'', into_string (\<lambda>x r. r\<lparr>rc_Iss := x\<rparr>)),
      (''jti'', into_string (\<lambda>x r. r\<lparr>rc_Jti := x\<rparr>)),
      (''iat'', into_int64 (\<lambda>x r. r\<lparr>rc_Iat := x\<rparr>)),
      (''exp'', into_int64 (\<lambda>x r. r\<lparr>rc_Exp := x\<rparr>)),
      (''scope'', into_strings (\<lambda>x r. r\<lparr>rc_Scope := x\<rparr>)),
      (''amount'', into_string (\<lambda>x r. r\<lparr>rc_AmountWei := x\<rparr>))]"

definition ResourceClaims_of_json :: "json \<Rightarrow> ResourceClaims option" where
  "ResourceClaims_of_json = into_struct ResourceClaims_fields ResourceClaims_zero"

definition jwtHeader_json :: "jwtHeader \<Rightarrow> json" where
  "jwtHeader_json h =
     JObj [(''alg'', JStr (Alg h)), (''typ'', JStr (Typ h)), (''kid'', JStr (hdr_Kid h))]"

definition jwtHeader_fields :: "(string \<times> jwtHeader setter) list" where
  "jwtHeader_fields =
     [(''alg'', into_string (\<lambda>x h. h\<lparr>Alg := x\<rparr>)),
      (''typ'', into_string (\<lambda>x h. h\<lparr>Typ := x\<rparr>)),
      (''kid'', into_string (\<lambda>x h. h\<lparr>hdr_Kid := x\<rparr>))]"

definition jwtHeader_of_json :: "json \<Rightarrow> jwtHeader option" where
  "jwtHeader_of_json = into_struct jwtHeader_fields \<lparr>Alg = [], Typ = [], hdr_Kid = []\<rparr>"

lemma into_pointer_simps:
  "into_pointer fs z upd get JNull a = Some (upd None a)"
  "into_pointer fs z upd get (JObj ms) a =
     (case into_struct fs (case get a of None \<Rightarrow> z | Some x \<Rightarrow> x) (JObj ms) of
        None \<Rightarrow> None | Some x \<Rightarrow> Some (upd (Some x) a))"
  by (simp_all add: into_pointer_def)

lemma jwtHeader_of_json_json [simp]: "jwtHeader_of_json (jwtHeader_json h) = Some h"
  by (simp add: jwtHeader_of_json_def jwtHeader_json_def jwtHeader_fields_def find_field_def)

lemma into_CNF:
  "get a = JWK_zero \<Longrightarrow> into_record CNF_fields upd get (CNF_json k) a = Some (upd k a)"
  by (cases k) (simp add: into_record_def CNF_json_def CNF_fields_def JWK_json_def JWK_fields_def
      find_field_def JWK_zero_def)

lemma into_members:
  "get a = None \<Longrightarrow> into_pointer MissionRef_fields MissionRef_zero upd get (MissionRef_json m) a
     = Some (upd (Some m) a)"
  "get' a = None \<Longrightarrow> into_pointer StepUp_fields StepUp_zero upd' get' (StepUp_json u) a
     = Some (upd' (Some u) a)"
  "get'' a = None \<Longrightarrow> into_pointer Vouched_fields Vouched_zero upd'' get'' (Vouched_json v) a
     = Some (upd'' (Some v) a)"
  by (cases m; cases u; cases v; simp add: into_pointer_def MissionRef_json_def StepUp_json_def Vouched_json_def
      MissionRef_fields_def StepUp_fields_def Vouched_fields_def MissionRef_zero_def StepUp_zero_def
      Vouched_zero_def find_field_def)+

definition AuthClaims_in_range :: "AuthClaims \<Rightarrow> bool" where
  "AuthClaims_in_range c = (in_i64 (Iat c) \<and> in_i64 (Exp c))"

text \<open>An optional member sets its field, or leaves the nil it finds.\<close>

lemma store_omit_nil:
  assumes "find_field fs k = Some (into_pointer fs' z upd get)"
    and "\<And>r. into_pointer fs' z upd get (f r) a = Some (upd (Some r) a)" and "upd None a = a"
  shows "store_members fs (omit_nil k f p @ ms) a = store_members fs ms (upd p a)"
  using assms by (cases p) (simp_all add: omit_nil_def)

lemma AuthClaims_optional:
  "Mission a = None \<Longrightarrow> store_members AuthClaims_fields (omit_nil ''mission'' MissionRef_json m @ ms) a
     = store_members AuthClaims_fields ms (a\<lparr>Mission := m\<rparr>)"
  "StepUpClaim a = None \<Longrightarrow> store_members AuthClaims_fields (omit_nil ''step_up'' StepUp_json u @ ms) a
     = store_members AuthClaims_fields ms (a\<lparr>StepUpClaim := u\<rparr>)"
  "VName a = None \<Longrightarrow> store_members AuthClaims_fields (omit_nil ''name'' Vouched_json v @ ms) a
     = store_members AuthClaims_fields ms (a\<lparr>VName := v\<rparr>)"
  "VEmail a = None \<Longrightarrow> store_members AuthClaims_fields (omit_nil ''email'' Vouched_json v @ ms) a
     = store_members AuthClaims_fields ms (a\<lparr>VEmail := v\<rparr>)"
  "VKYC a = None \<Longrightarrow> store_members AuthClaims_fields (omit_nil ''kyc'' Vouched_json v @ ms) a
     = store_members AuthClaims_fields ms (a\<lparr>VKYC := v\<rparr>)"
  by (subst store_omit_nil, simp add: AuthClaims_fields_def find_field_def, simp_all add: into_members)+

lemma AuthClaims_texts:
  "PSARef a = [] \<Longrightarrow> store_members AuthClaims_fields (omitempty (x = []) ''psa'' (JStr x) @ ms) a
     = store_members AuthClaims_fields ms (a\<lparr>PSARef := x\<rparr>)"
  "AgS256 a = [] \<Longrightarrow> store_members AuthClaims_fields (omitempty (x = []) ''ag_s256'' (JStr x) @ ms) a
     = store_members AuthClaims_fields ms (a\<lparr>AgS256 := x\<rparr>)"
  by (cases a; simp add: omitempty_def AuthClaims_fields_def find_field_def)+

lemma AuthClaims_required:
  assumes "AuthClaims_in_range c"
  shows "store_members AuthClaims_fields
     ([(''iss'', JStr (Iss c)), (''dwk'', JStr (Dwk c)), (''aud'', JStr (Aud c)),
       (''jti'', JStr (Jti c)), (''agent'', JStr (Agent c)), (''cnf'', CNF_json (Cnf c)),
       (''iat'', JNum (Iat c)), (''exp'', JNum (Exp c)), (''sub'', JStr (Sub c))] @ ms) AuthClaims_zero
   = store_members AuthClaims_fields ms
      (AuthClaims_zero\<lparr>Iss := Iss c, Dwk := Dwk c, Aud := Aud c, Jti := Jti c, Agent := Agent c, Cnf := Cnf c,
         Iat := Iat c, Exp := Exp c, Sub := Sub c\<rparr>)"
  using assms
  by (simp add: AuthClaims_fields_def find_field_def AuthClaims_in_range_def into_CNF AuthClaims_zero_def)

lemma AuthClaims_of_json_json:
  assumes "AuthClaims_in_range c"
  shows "AuthClaims_of_json (AuthClaims_json c) = Some c"
  using AuthClaims_required [OF assms]
  by (simp add: AuthClaims_of_json_def AuthClaims_json_def AuthClaims_optional AuthClaims_texts
      AuthClaims_optional(5) [where ms = "[]", simplified] AuthClaims_zero_def del: append.simps)

lemma ResourceClaims_of_json_json:
  "in_i64 (rc_Iat r) \<Longrightarrow> in_i64 (rc_Exp r) \<Longrightarrow>
   ResourceClaims_of_json (ResourceClaims_json r) = Some r"
  by (simp add: ResourceClaims_of_json_def ResourceClaims_json_def ResourceClaims_fields_def
      find_field_def ResourceClaims_zero_def omitempty_def)

section \<open>Minting\<close>

record IssuerKey =
  Kid :: string
  Priv :: bytes
  Pub :: JWK

text \<open>A Go map is iterated in an order of its own; the claims are a list with distinct names.\<close>

record MintInput =
  mi_PSA :: PSA
  mi_PSABlobURL :: string
  mi_Grant :: AgentGrant
  mi_Resource :: ResourceClaims
  mi_AgentID :: string
  mi_AgentKey :: JWK
  mi_Mission :: "MissionRef option"
  mi_StepUp :: "StepUp option"
  mi_Claims :: "(string \<times> Vouched) list"
  mi_TTL :: int

datatype mint_err =
    KeyNotCovered
  | ClaimNotAllowed string
  | BadAmount
  | OverCap
  | StepUpRequired

definition bigOrZero :: "string \<Rightarrow> int" where
  "bigOrZero s =
     (if s = [] then 0 else case bigSetString s of Some n \<Rightarrow> n | None \<Rightarrow> 0)"

definition checkPaymentEnvelope :: "Scope \<Rightarrow> string \<Rightarrow> StepUp option \<Rightarrow> mint_err + unit" where
  "checkPaymentEnvelope s amountWei su =
     (if amountWei = [] then Inr ()
      else case bigSetString amountWei of
             None \<Rightarrow> Inl BadAmount
           | Some amt \<Rightarrow>
               (let cap = bigOrZero (PaymentCapWei s); th = bigOrZero (StepUpAboveWei s) in
                if cap = 0 \<or> amt > cap then Inl OverCap
                else if th > 0 \<and> amt > th \<and> su = None then Inl StepUpRequired
                else Inr ()))"

definition applyVouched :: "AuthClaims \<Rightarrow> (string \<times> Vouched) list \<Rightarrow> AuthClaims" where
  "applyVouched c m =
     fold (\<lambda>(name, v) c.
        if name = ''name'' then c\<lparr>VName := Some v\<rparr>
        else if name = ''email'' then c\<lparr>VEmail := Some v\<rparr>
        else if name = ''kyc'' then c\<lparr>VKYC := Some v\<rparr>
        else c) m c"

fun checkClaims :: "string list \<Rightarrow> (string \<times> Vouched) list \<Rightarrow> mint_err + unit" where
  "checkClaims allowed [] = Inr ()"
| "checkClaims allowed ((name, v) # cs) =
     (if \<not> contains allowed name then Inl (ClaimNotAllowed name) else checkClaims allowed cs)"

text \<open>\<open>time.Duration\<close> arithmetic wraps at 64 bits.\<close>

definition mintTTL :: "int \<Rightarrow> int \<Rightarrow> int" where
  "mintTTL maxSeconds ttl =
     (let max = i64 (maxSeconds * Second);
          ttl1 = (if ttl > max then max else ttl)
      in if ttl1 > Hour then Hour else ttl1)"

definition newJTI :: "bytes \<Rightarrow> string" where
  "newJTI random = hex_encode random"

definition signJWT :: "ext \<Rightarrow> IssuerKey \<Rightarrow> string \<Rightarrow> json \<Rightarrow> string" where
  "signJWT E key typ claims =
     (let h = json_print (jwtHeader_json \<lparr>Alg = ''EdDSA'', Typ = typ, hdr_Kid = Kid key\<rparr>);
          signing = b64_raw True h @ ''.'' @ b64_raw True (json_print claims)
      in signing @ ''.'' @ b64_raw True (Ed25519Sign E (Priv key) signing))"

definition mintClaims :: "ext \<Rightarrow> time \<Rightarrow> bytes \<Rightarrow> MintInput \<Rightarrow> AuthClaims" where
  "mintClaims E now random m =
     (let psa = mi_PSA m in
      applyVouched
        \<lparr>Iss = psa_Issuer psa, Dwk = ''aauth-issuer.json'', Aud = rc_Iss (mi_Resource m),
         Jti = newJTI random, Agent = mi_AgentID m, Cnf = mi_AgentKey m,
         Iat = Unix now,
         Exp = Unix (now + mintTTL (MaxTokenTTLSeconds (psa_Scope psa)) (mi_TTL m)),
         Sub = ''eip155:'' @ show_int (psa_RegistryChain psa) @ '':'' @ psa_Root psa,
         Mission = mi_Mission m,
         PSARef = mi_PSABlobURL m @ ''#s256='' @ ContentHash E (PSA_json psa),
         AgS256 = ContentHash E (AgentGrant_json (mi_Grant m)),
         StepUpClaim = mi_StepUp m, VName = None, VEmail = None, VKYC = None\<rparr>
        (mi_Claims m))"

definition Mint :: "ext \<Rightarrow> time \<Rightarrow> bytes \<Rightarrow> IssuerKey \<Rightarrow> MintInput \<Rightarrow> mint_err + string" where
  "Mint E now random key m =
     (if \<not> contains (elems (psa_KeyThumbprints (mi_PSA m))) (Thumbprint E (Pub key))
      then Inl KeyNotCovered
      else case checkClaims (elems (AllowedClaims (psa_Scope (mi_PSA m)))) (mi_Claims m) of
             Inl e \<Rightarrow> Inl e
           | Inr _ \<Rightarrow>
               (case checkPaymentEnvelope (psa_Scope (mi_PSA m)) (rc_AmountWei (mi_Resource m)) (mi_StepUp m) of
                  Inl e \<Rightarrow> Inl e
                | Inr _ \<Rightarrow> Inr (signJWT E key ''auth+jwt'' (AuthClaims_json (mintClaims E now random m)))))"

section \<open>Verification\<close>

datatype token_err =
    MalformedJWT nat
  | BadSegment
  | UnacceptableAlgTyp string string
  | KeyResolve string
  | BadIssuerKey
  | JwtSignatureInvalid
  | AudMismatch
  | ExpiredOrOverlong
  | CnfMismatch
  | JtiReplay
  | PsaResolve string
  | IssuerKeyResolve string
  | ChainRejected attest_err
  | SubNotRoot
  | GrantResolve string

text \<open>The four interfaces, each a function of the state \<open>'w\<close> they share, and the clock.\<close>

record 'w token_verifier =
  Keys :: "'w \<Rightarrow> string \<Rightarrow> string \<Rightarrow> 'w \<times> (string + JWK)"
  ResolvePSA :: "'w \<Rightarrow> string \<Rightarrow> 'w \<times> (string + PSA)"
  ResolveGrant :: "'w \<Rightarrow> string \<Rightarrow> string \<Rightarrow> 'w \<times> (string + AgentGrant)"
  Chain :: verifier
  SeenJTI :: "'w \<Rightarrow> string \<Rightarrow> int \<Rightarrow> 'w \<times> bool"
  VNow :: time

definition split3 :: "string \<Rightarrow> token_err + string list" where
  "split3 raw =
     (let parts = split_on (CHR ''.'') raw in
      if length parts \<noteq> 3 then Inl (MalformedJWT (length parts)) else Inr parts)"

definition decodeSeg :: "(json \<Rightarrow> 'a option) \<Rightarrow> string \<Rightarrow> 'a option" where
  "decodeSeg of_json seg =
     (case b64_raw_decode True seg of
        None \<Rightarrow> None
      | Some raw \<Rightarrow> (case json_unmarshal raw of None \<Rightarrow> None | Some v \<Rightarrow> of_json v))"

definition parseAndCheckSig ::
  "ext \<Rightarrow> ('w \<Rightarrow> string \<Rightarrow> string \<Rightarrow> 'w \<times> (string + JWK)) \<Rightarrow> (json \<Rightarrow> 'c option) \<Rightarrow> ('c \<Rightarrow> string)
   \<Rightarrow> 'w \<Rightarrow> string \<Rightarrow> string \<Rightarrow> 'w \<times> (token_err + jwtHeader \<times> 'c)" where
  "parseAndCheckSig E keys of_json issFromAny w raw wantTyp =
     (case split3 raw of
        Inl e \<Rightarrow> (w, Inl e)
      | Inr parts \<Rightarrow>
          (case decodeSeg jwtHeader_of_json (parts ! 0) of
             None \<Rightarrow> (w, Inl BadSegment)
           | Some hdr \<Rightarrow>
               if Alg hdr \<noteq> ''EdDSA'' \<or> Typ hdr \<noteq> wantTyp
               then (w, Inl (UnacceptableAlgTyp (Alg hdr) (Typ hdr)))
               else (case decodeSeg of_json (parts ! 1) of
                       None \<Rightarrow> (w, Inl BadSegment)
                     | Some claims \<Rightarrow>
                         (case keys w (issFromAny claims) (hdr_Kid hdr) of
                            (w1, Inl e) \<Rightarrow> (w1, Inl (KeyResolve e))
                          | (w1, Inr jwk) \<Rightarrow>
                              (case b64_raw_decode True (X jwk) of
                                 None \<Rightarrow> (w1, Inl BadIssuerKey)
                               | Some pub \<Rightarrow>
                                   if length pub \<noteq> 32 then (w1, Inl BadIssuerKey)
                                   else (case b64_raw_decode True (parts ! 2) of
                                           None \<Rightarrow> (w1, Inl JwtSignatureInvalid)
                                         | Some sig \<Rightarrow>
                                             if \<not> Ed25519Verify E pub (parts ! 0 @ ''.'' @ parts ! 1) sig
                                             then (w1, Inl JwtSignatureInvalid)
                                             else (w1, Inr (hdr, claims))))))))"

definition verifyLayer1 ::
  "ext \<Rightarrow> 'w token_verifier \<Rightarrow> 'w \<Rightarrow> string \<Rightarrow> string \<Rightarrow> string
   \<Rightarrow> 'w \<times> (token_err + jwtHeader \<times> AuthClaims)" where
  "verifyLayer1 E v w rawJWT aud requestSigKeyThumb =
     (case parseAndCheckSig E (Keys v) AuthClaims_of_json Iss w rawJWT ''auth+jwt'' of
        (w1, Inl e) \<Rightarrow> (w1, Inl e)
      | (w1, Inr (hdr, claims)) \<Rightarrow>
          (let now = Unix (VNow v) in
           if Aud claims \<noteq> aud then (w1, Inl AudMismatch)
           else if now \<ge> Exp claims \<or> i64 (Exp claims - Iat claims) > 24 * 3600
           then (w1, Inl ExpiredOrOverlong)
           else if Thumbprint E (Cnf claims) \<noteq> requestSigKeyThumb then (w1, Inl CnfMismatch)
           else (case SeenJTI v w1 (Jti claims) (Exp claims) of
                   (w2, seen) \<Rightarrow> if seen then (w2, Inl JtiReplay) else (w2, Inr (hdr, claims)))))"

definition issuerThumbFromHeader ::
  "ext \<Rightarrow> ('w \<Rightarrow> string \<Rightarrow> string \<Rightarrow> 'w \<times> (string + JWK)) \<Rightarrow> 'w \<Rightarrow> string \<Rightarrow> string
   \<Rightarrow> 'w \<times> (token_err + string)" where
  "issuerThumbFromHeader E keys w iss kid =
     (case keys w iss kid of
        (w1, Inl e) \<Rightarrow> (w1, Inl (IssuerKeyResolve e))
      | (w1, Inr jwk) \<Rightarrow> (w1, Inr (Thumbprint E jwk)))"

definition caipEq :: "ext \<Rightarrow> string \<Rightarrow> string \<Rightarrow> bool" where
  "caipEq E a b = EqualFold (UnicodeEqualFold E) a b"

definition verifyLayer2 ::
  "ext \<Rightarrow> 'w token_verifier \<Rightarrow> 'w \<Rightarrow> jwtHeader \<Rightarrow> AuthClaims \<Rightarrow> 'w \<times> (token_err + AuthClaims)" where
  "verifyLayer2 E v w hdr claims =
     (case ResolvePSA v w (PSARef claims) of
        (w1, Inl e) \<Rightarrow> (w1, Inl (PsaResolve e))
      | (w1, Inr psa) \<Rightarrow>
          (case issuerThumbFromHeader E (Keys v) w1 (Iss claims) (hdr_Kid hdr) of
             (w2, Inl e) \<Rightarrow> (w2, Inl e)
           | (w2, Inr issuerKeyThumb) \<Rightarrow>
               (case VerifyPSA E (Chain v) psa (Iss claims) issuerKeyThumb of
                  Inl e \<Rightarrow> (w2, Inl (ChainRejected e))
                | Inr _ \<Rightarrow>
                    if \<not> caipEq E (''eip155:'' @ show_int (psa_RegistryChain psa) @ '':'' @ psa_Root psa)
                          (Sub claims)
                    then (w2, Inl SubNotRoot)
                    else (case ResolveGrant v w2 (Iss claims) (AgS256 claims) of
                            (w3, Inl e) \<Rightarrow> (w3, Inl (GrantResolve e))
                          | (w3, Inr grant) \<Rightarrow>
                              (case VerifyAgentGrant E (Chain v) grant (psa_Root psa) (Agent claims)
                                      (Thumbprint E (Cnf claims)) of
                                 Inl e \<Rightarrow> (w3, Inl (ChainRejected e))
                               | Inr _ \<Rightarrow> (w3, Inr claims))))))"

definition Verify ::
  "ext \<Rightarrow> 'w token_verifier \<Rightarrow> 'w \<Rightarrow> string \<Rightarrow> string \<Rightarrow> string \<Rightarrow> 'w \<times> (token_err + AuthClaims)" where
  "Verify E v w rawJWT aud requestSigKeyThumb =
     (case verifyLayer1 E v w rawJWT aud requestSigKeyThumb of
        (w1, Inl e) \<Rightarrow> (w1, Inl e)
      | (w1, Inr (hdr, claims)) \<Rightarrow>
          if PSARef claims = [] then (w1, Inr claims) else verifyLayer2 E v w1 hdr claims)"

definition VerifyVanilla ::
  "ext \<Rightarrow> 'w token_verifier \<Rightarrow> 'w \<Rightarrow> string \<Rightarrow> string \<Rightarrow> string \<Rightarrow> 'w \<times> (token_err + AuthClaims)" where
  "VerifyVanilla E v w rawJWT aud requestSigKeyThumb =
     (case verifyLayer1 E v w rawJWT aud requestSigKeyThumb of
        (w1, Inl e) \<Rightarrow> (w1, Inl e)
      | (w1, Inr (hdr, claims)) \<Rightarrow> (w1, Inr claims))"

section \<open>Lifetimes\<close>

lemma mintTTL_hour: "mintTTL m ttl \<le> Hour"
  by (simp add: mintTTL_def Let_def)

lemma mintTTL_scope:
  assumes "- 9223372036 \<le> m"
  shows "mintTTL m ttl \<le> m * Second"
proof -
  have "i64 (m * Second) \<le> m * Second"
  proof (cases "in_i64 (m * Second)")
    case False
    then have "2 ^ 63 \<le> m * Second" using assms by (simp add: in_i64_def Second_def)
    then show ?thesis using i64_bounds(2) [of "m * Second"] by simp
  qed (simp add: i64_id)
  then show ?thesis by (simp add: mintTTL_def Let_def)
qed

lemma Unix_add_le: "d \<le> k * Second \<Longrightarrow> Unix (t + d) \<le> Unix t + k"
  using Unix_mono [of "t + d" "t + k * Second"] by (simp add: Unix_add_seconds)

lemma applyVouched_frame [simp]:
  "Iss (applyVouched c m) = Iss c" "Aud (applyVouched c m) = Aud c" "Jti (applyVouched c m) = Jti c"
  "Agent (applyVouched c m) = Agent c" "Cnf (applyVouched c m) = Cnf c" "Iat (applyVouched c m) = Iat c"
  "Exp (applyVouched c m) = Exp c" "Sub (applyVouched c m) = Sub c" "Mission (applyVouched c m) = Mission c"
  "PSARef (applyVouched c m) = PSARef c" "AgS256 (applyVouched c m) = AgS256 c"
  "StepUpClaim (applyVouched c m) = StepUpClaim c"
  by (induction m arbitrary: c) (auto simp: applyVouched_def split: prod.splits)

lemma mintClaims_simps [simp]:
  "Iss (mintClaims E now r m) = psa_Issuer (mi_PSA m)"
  "Aud (mintClaims E now r m) = rc_Iss (mi_Resource m)" "Jti (mintClaims E now r m) = newJTI r"
  "Agent (mintClaims E now r m) = mi_AgentID m" "Cnf (mintClaims E now r m) = mi_AgentKey m"
  "Iat (mintClaims E now r m) = Unix now"
  "Exp (mintClaims E now r m)
     = Unix (now + mintTTL (MaxTokenTTLSeconds (psa_Scope (mi_PSA m))) (mi_TTL m))"
  "Sub (mintClaims E now r m)
     = ''eip155:'' @ show_int (psa_RegistryChain (mi_PSA m)) @ '':'' @ psa_Root (mi_PSA m)"
  "PSARef (mintClaims E now r m)
     = mi_PSABlobURL m @ ''#s256='' @ ContentHash E (PSA_json (mi_PSA m))"
  "AgS256 (mintClaims E now r m) = ContentHash E (AgentGrant_json (mi_Grant m))"
  "StepUpClaim (mintClaims E now r m) = mi_StepUp m"
  by (simp_all add: mintClaims_def Let_def)

lemma mint_lifetime:
  "Exp (mintClaims E now r m) \<le> Iat (mintClaims E now r m) + 3600"
  "- 9223372036 \<le> MaxTokenTTLSeconds (psa_Scope (mi_PSA m)) \<Longrightarrow>
   Exp (mintClaims E now r m) \<le> Iat (mintClaims E now r m) + MaxTokenTTLSeconds (psa_Scope (mi_PSA m))"
  using mintTTL_hour mintTTL_scope by (simp_all add: Unix_add_le Hour_def)

section \<open>The envelope\<close>

definition within_payment :: "Scope \<Rightarrow> string \<Rightarrow> StepUp option \<Rightarrow> bool" where
  "within_payment s amountWei su =
     (amountWei = []
      \<or> (case bigSetString amountWei of
           None \<Rightarrow> False
         | Some amt \<Rightarrow>
             bigOrZero (PaymentCapWei s) \<noteq> 0 \<and> amt \<le> bigOrZero (PaymentCapWei s)
             \<and> (0 < bigOrZero (StepUpAboveWei s) \<and> bigOrZero (StepUpAboveWei s) < amt \<longrightarrow> su \<noteq> None)))"

lemma checkPaymentEnvelope_ok:
  "checkPaymentEnvelope s a su = Inr () \<longleftrightarrow> within_payment s a su"
  by (auto simp: checkPaymentEnvelope_def within_payment_def Let_def split: option.splits)

lemma checkClaims_ok: "checkClaims allowed cs = Inr () \<longleftrightarrow> fst ` set cs \<subseteq> set allowed"
  by (induction allowed cs rule: checkClaims.induct) auto

lemma Mint_ok:
  "Mint E now r key m = Inr token \<longleftrightarrow>
     Thumbprint E (Pub key) \<in> set (elems (psa_KeyThumbprints (mi_PSA m)))
     \<and> fst ` set (mi_Claims m) \<subseteq> set (elems (AllowedClaims (psa_Scope (mi_PSA m))))
     \<and> within_payment (psa_Scope (mi_PSA m)) (rc_AmountWei (mi_Resource m)) (mi_StepUp m)
     \<and> token = signJWT E key ''auth+jwt'' (AuthClaims_json (mintClaims E now r m))"
  unfolding checkPaymentEnvelope_ok [symmetric] checkClaims_ok [symmetric]
  by (auto simp: Mint_def split: sum.splits)

section \<open>Signing and parsing\<close>

lemma split3_signed:
  assumes "CHR ''.'' \<notin> set a" "CHR ''.'' \<notin> set b" "CHR ''.'' \<notin> set c"
  shows "split3 (a @ ''.'' @ b @ ''.'' @ c) = Inr [a, b, c]"
  using assms by (simp add: split3_def split_on_append split_on_none)

lemma decodeSeg_print:
  assumes "json_clean v" and "json_depth v \<le> max_depth" and "of_json v = Some c"
  shows "decodeSeg of_json (b64_raw True (json_print v)) = Some c"
  using assms by (simp add: decodeSeg_def json_unmarshal_print)

lemma header_json_ok:
  "utf8_ok typ \<Longrightarrow> utf8_ok kid \<Longrightarrow>
   json_clean (jwtHeader_json \<lparr>Alg = ''EdDSA'', Typ = typ, hdr_Kid = kid\<rparr>)
   \<and> json_depth (jwtHeader_json h) \<le> max_depth"
  by (simp add: jwtHeader_json_def max_depth_def)

text \<open>What it takes for the key a resolver returns to be the signer's public key.\<close>

definition holds_key :: "ext \<Rightarrow> IssuerKey \<Rightarrow> JWK \<Rightarrow> bool" where
  "holds_key E key jwk =
     (case b64_raw_decode True (X jwk) of
        None \<Rightarrow> False | Some pub \<Rightarrow> ed25519_pair E (Priv key) pub)"

lemma parse_signJWT:
  assumes "json_clean cj" "json_depth cj \<le> max_depth" "of_json cj = Some c"
    and "utf8_ok typ" "utf8_ok (Kid key)"
    and "keys w (iss c) (Kid key) = (w1, Inr jwk)" and "holds_key E key jwk"
  shows "parseAndCheckSig E keys of_json iss w (signJWT E key typ cj) typ
         = (w1, Inr (\<lparr>Alg = ''EdDSA'', Typ = typ, hdr_Kid = Kid key\<rparr>, c))"
proof -
  let ?hdr = "\<lparr>Alg = ''EdDSA'', Typ = typ, hdr_Kid = Kid key\<rparr>"
  let ?h = "b64_raw True (json_print (jwtHeader_json ?hdr))"
  let ?c = "b64_raw True (json_print cj)"
  obtain pub where pub: "b64_raw_decode True (X jwk) = Some pub" "ed25519_pair E (Priv key) pub"
    using assms(7) by (auto simp: holds_key_def split: option.splits)
  have raw: "signJWT E key typ cj = ?h @ ''.'' @ ?c @ ''.'' @ b64_raw True (Ed25519Sign E (Priv key) (?h @ ''.'' @ ?c))"
    by (simp add: signJWT_def Let_def)
  have "decodeSeg jwtHeader_of_json ?h = Some ?hdr"
    using header_json_ok [OF assms(4,5)] by (intro decodeSeg_print) auto
  moreover have "decodeSeg of_json ?c = Some c"
    using assms(1-3) by (intro decodeSeg_print)
  moreover have "split3 (signJWT E key typ cj)
      = Inr [?h, ?c, b64_raw True (Ed25519Sign E (Priv key) (?h @ ''.'' @ ?c))]"
    unfolding raw by (rule split3_signed) simp_all
  ultimately show ?thesis
    using assms(6) pub by (simp add: parseAndCheckSig_def ed25519_pair_def)
qed

definition auth_header :: "IssuerKey \<Rightarrow> jwtHeader" where
  "auth_header key = \<lparr>Alg = ''EdDSA'', Typ = ''auth+jwt'', hdr_Kid = Kid key\<rparr>"

lemma AuthClaims_json_depth: "json_depth (AuthClaims_json c) \<le> max_depth"
  by (cases "Mission c"; cases "StepUpClaim c"; cases "VName c"; cases "VEmail c"; cases "VKYC c")
    (auto simp: AuthClaims_json_def CNF_json_def JWK_json_def MissionRef_json_def StepUp_json_def
      Vouched_json_def omit_nil_def omitempty_def max_depth_def fold_max_le)

lemma verifyLayer1_signed:
  assumes "json_clean (AuthClaims_json c)" "AuthClaims_in_range c" "utf8_ok (Kid key)"
    and "Keys v w (Iss c) (Kid key) = (w1, Inr jwk)" and "holds_key E key jwk"
  shows "verifyLayer1 E v w (signJWT E key ''auth+jwt'' (AuthClaims_json c)) aud thumb =
     (if Aud c \<noteq> aud then (w1, Inl AudMismatch)
      else if Unix (VNow v) \<ge> Exp c \<or> i64 (Exp c - Iat c) > 86400 then (w1, Inl ExpiredOrOverlong)
      else if Thumbprint E (Cnf c) \<noteq> thumb then (w1, Inl CnfMismatch)
      else case SeenJTI v w1 (Jti c) (Exp c) of
             (w2, seen) \<Rightarrow> if seen then (w2, Inl JtiReplay) else (w2, Inr (auth_header key, c)))"
proof -
  have "parseAndCheckSig E (Keys v) AuthClaims_of_json Iss w (signJWT E key ''auth+jwt'' (AuthClaims_json c))
      ''auth+jwt'' = (w1, Inr (auth_header key, c))"
    unfolding auth_header_def using assms AuthClaims_json_depth AuthClaims_of_json_json
    by (intro parse_signJWT) (auto simp: is_ascii_utf8_ok)
  then show ?thesis by (simp add: verifyLayer1_def Let_def)
qed

section \<open>What acceptance establishes\<close>

text \<open>
  A compact token whose header and claims decode to \<open>hdr\<close> and \<open>c\<close> and whose first two segments
  carry a signature that verifies under the key \<open>jwk\<close>.
\<close>

definition signed_by :: "ext \<Rightarrow> string \<Rightarrow> jwtHeader \<Rightarrow> AuthClaims \<Rightarrow> JWK \<Rightarrow> bool" where
  "signed_by E raw hdr c jwk =
     (\<exists>h b s pub sig. split3 raw = Inr [h, b, s]
        \<and> decodeSeg jwtHeader_of_json h = Some hdr \<and> Alg hdr = ''EdDSA'' \<and> Typ hdr = ''auth+jwt''
        \<and> decodeSeg AuthClaims_of_json b = Some c
        \<and> b64_raw_decode True (X jwk) = Some pub \<and> length pub = 32
        \<and> b64_raw_decode True s = Some sig \<and> Ed25519Verify E pub (h @ ''.'' @ b) sig)"

lemma split3_three: "split3 raw = Inr parts \<Longrightarrow> parts = [parts ! 0, parts ! 1, parts ! 2]"
  by (auto simp: split3_def Let_def length_Suc_conv numeral_3_eq_3 numeral_2_eq_2 split: if_splits)

lemma parse_accepts:
  assumes "parseAndCheckSig E keys AuthClaims_of_json Iss w raw ''auth+jwt'' = (w', Inr (hdr, c))"
  obtains jwk where "keys w (Iss c) (hdr_Kid hdr) = (w', Inr jwk)" "signed_by E raw hdr c jwk"
proof -
  obtain parts where "split3 raw = Inr parts"
    using assms by (auto simp: parseAndCheckSig_def split: sum.splits)
  then have parts: "split3 raw = Inr [parts ! 0, parts ! 1, parts ! 2]"
    using split3_three by metis
  have seg: "[a, b, c] ! 0 = a" "[a, b, c] ! 1 = b" "[a, b, c] ! 2 = c" for a b c :: string
    by simp_all
  show thesis
    using assms that unfolding parseAndCheckSig_def parts signed_by_def
    by (auto simp: seg split: option.splits if_splits prod.splits sum.splits)
qed

lemma Layer1_accepts:
  assumes "verifyLayer1 E v w raw aud thumb = (w', Inr (hdr, c))"
  obtains jwk w1 where "Keys v w (Iss c) (hdr_Kid hdr) = (w1, Inr jwk)" "signed_by E raw hdr c jwk"
    "Aud c = aud" "Unix (VNow v) < Exp c" "i64 (Exp c - Iat c) \<le> 86400" "Thumbprint E (Cnf c) = thumb"
    "SeenJTI v w1 (Jti c) (Exp c) = (w', False)"
proof -
  obtain w1 where p: "parseAndCheckSig E (Keys v) AuthClaims_of_json Iss w raw ''auth+jwt'' = (w1, Inr (hdr, c))"
    "Aud c = aud" "Unix (VNow v) < Exp c" "i64 (Exp c - Iat c) \<le> 86400" "Thumbprint E (Cnf c) = thumb"
    "SeenJTI v w1 (Jti c) (Exp c) = (w', False)"
    using assms by (auto simp: verifyLayer1_def Let_def split: prod.splits sum.splits if_splits)
  from parse_accepts [OF p(1)] show thesis using that p(2-) by metis
qed

lemma Layer2_accepts:
  assumes "verifyLayer2 E v w hdr claims = (w', Inr c)"
  obtains psa grant w1 w2 jwk where "c = claims" "ResolvePSA v w (PSARef c) = (w1, Inr psa)"
    "Keys v w1 (Iss c) (hdr_Kid hdr) = (w2, Inr jwk)"
    "VerifyPSA E (Chain v) psa (Iss c) (Thumbprint E jwk) = Inr ()"
    "caipEq E (''eip155:'' @ show_int (psa_RegistryChain psa) @ '':'' @ psa_Root psa) (Sub c)"
    "ResolveGrant v w2 (Iss c) (AgS256 c) = (w', Inr grant)"
    "VerifyAgentGrant E (Chain v) grant (psa_Root psa) (Agent c) (Thumbprint E (Cnf c)) = Inr ()"
  using assms
  by (auto simp: verifyLayer2_def issuerThumbFromHeader_def split: prod.splits sum.splits if_splits)

lemma Layer2_same: "verifyLayer2 E v w hdr claims = (w', Inr c) \<Longrightarrow> c = claims"
  by (erule Layer2_accepts)

text \<open>A key resolver that gives the same answer to both lookups of one verification.\<close>

definition stable_keys :: "('w \<Rightarrow> string \<Rightarrow> string \<Rightarrow> 'w \<times> (string + JWK)) \<Rightarrow> bool" where
  "stable_keys keys = (\<forall>w w' iss kid. snd (keys w iss kid) = snd (keys w' iss kid))"

text \<open>The closed chain: root, issuer key, token, agent key.\<close>

definition key_rooted ::
  "ext \<Rightarrow> 'w token_verifier \<Rightarrow> string \<Rightarrow> string \<Rightarrow> string \<Rightarrow> AuthClaims \<Rightarrow> bool" where
  "key_rooted E v raw aud thumb c =
     (\<exists>hdr jwk psa grant w1 w2 w3 w4. signed_by E raw hdr c jwk
        \<and> Aud c = aud \<and> Unix (VNow v) < Exp c \<and> Thumbprint E (Cnf c) = thumb
        \<and> ResolvePSA v w1 (PSARef c) = (w2, Inr psa)
        \<and> ResolveGrant v w3 (Iss c) (AgS256 c) = (w4, Inr grant)
        \<and> VerifyPSA E (Chain v) psa (Iss c) (Thumbprint E jwk) = Inr ()
        \<and> caipEq E (''eip155:'' @ show_int (psa_RegistryChain psa) @ '':'' @ psa_Root psa) (Sub c)
        \<and> VerifyAgentGrant E (Chain v) grant (psa_Root psa) (Agent c) thumb = Inr ())"

lemma Verify_key_rooted:
  assumes "Verify E v w raw aud thumb = (w', Inr c)" and "PSARef c \<noteq> []" and "stable_keys (Keys v)"
  shows "key_rooted E v raw aud thumb c"
proof -
  obtain w1 hdr where l1: "verifyLayer1 E v w raw aud thumb = (w1, Inr (hdr, c))"
    and l2: "verifyLayer2 E v w1 hdr c = (w', Inr c)"
    using assms(1,2)
    by (auto simp: Verify_def split: prod.splits sum.splits if_splits dest: Layer2_same)
  from l1 obtain jwk w0 where one: "Keys v w (Iss c) (hdr_Kid hdr) = (w0, Inr jwk)" "signed_by E raw hdr c jwk"
    "Aud c = aud" "Unix (VNow v) < Exp c" "Thumbprint E (Cnf c) = thumb"
    by (rule Layer1_accepts)
  from l2 obtain psa grant wa wb jwk' where two: "ResolvePSA v w1 (PSARef c) = (wa, Inr psa)"
    "Keys v wa (Iss c) (hdr_Kid hdr) = (wb, Inr jwk')"
    "VerifyPSA E (Chain v) psa (Iss c) (Thumbprint E jwk') = Inr ()"
    "caipEq E (''eip155:'' @ show_int (psa_RegistryChain psa) @ '':'' @ psa_Root psa) (Sub c)"
    "ResolveGrant v wb (Iss c) (AgS256 c) = (w', Inr grant)"
    "VerifyAgentGrant E (Chain v) grant (psa_Root psa) (Agent c) (Thumbprint E (Cnf c)) = Inr ()"
    by (rule Layer2_accepts)
  have "jwk' = jwk"
    using assms(3) one(1) two(2) by (metis stable_keys_def snd_conv sum.inject(2))
  then show ?thesis
    unfolding key_rooted_def using one two(1,3,4,5) two(6) by blast
qed

text \<open>The minted token through both layers.\<close>

lemma caipEq_refl: "is_ascii s \<Longrightarrow> caipEq E s s"
  by (simp add: caipEq_def EqualFold_refl_ascii)

lemma minted_lifetime_i64:
  assumes "now \<le> later" and "Unix later < Exp (mintClaims E now r m)"
    and "AuthClaims_in_range (mintClaims E now r m)"
  shows "i64 (Exp (mintClaims E now r m) - Iat (mintClaims E now r m)) \<le> 86400"
proof -
  let ?d = "Exp (mintClaims E now r m) - Iat (mintClaims E now r m)"
  have "0 \<le> ?d" using assms(1,2) Unix_mono [OF assms(1)] by simp
  moreover have "?d \<le> 3600" using mint_lifetime(1) [of E now r m] by linarith
  ultimately show ?thesis by (simp add: i64_id in_i64_def)
qed

lemma minted_verifies:
  assumes mint: "Mint E now r key m = Inr token"
    and clean: "json_clean (AuthClaims_json (mintClaims E now r m))" "utf8_ok (Kid key)"
      "is_ascii (psa_Root (mi_PSA m))"
    and time: "AuthClaims_in_range (mintClaims E now r m)" "now \<le> VNow v"
      "Unix (VNow v) < Exp (mintClaims E now r m)"
    and keys: "\<And>w. snd (Keys v w (psa_Issuer (mi_PSA m)) (Kid key)) = Inr (Pub key)" "holds_key E key (Pub key)"
    and resolve: "\<And>w. snd (ResolvePSA v w (PSARef (mintClaims E now r m))) = Inr (mi_PSA m)"
      "\<And>w. snd (ResolveGrant v w (psa_Issuer (mi_PSA m)) (AgS256 (mintClaims E now r m))) = Inr (mi_Grant m)"
    and chain: "VerifyPSA E (Chain v) (mi_PSA m) (psa_Issuer (mi_PSA m)) (Thumbprint E (Pub key)) = Inr ()"
      "VerifyAgentGrant E (Chain v) (mi_Grant m) (psa_Root (mi_PSA m)) (mi_AgentID m)
         (Thumbprint E (mi_AgentKey m)) = Inr ()"
    and fresh: "\<not> snd (SeenJTI v (fst (Keys v w (psa_Issuer (mi_PSA m)) (Kid key))) (newJTI r)
             (Exp (mintClaims E now r m)))"
  shows "snd (Verify E v w token (rc_Iss (mi_Resource m)) (Thumbprint E (mi_AgentKey m)))
         = Inr (mintClaims E now r m)"
proof -
  let ?c = "mintClaims E now r m"
  have token: "token = signJWT E key ''auth+jwt'' (AuthClaims_json ?c)"
    using mint by (simp add: Mint_ok)
  obtain w1 where w1: "Keys v w (Iss ?c) (Kid key) = (w1, Inr (Pub key))"
    using keys(1) [of w] by (metis mintClaims_simps(1) prod.collapse)
  obtain w2 where w2: "SeenJTI v w1 (Jti ?c) (Exp ?c) = (w2, False)"
    using fresh w1 by (metis fst_conv mintClaims_simps(1,3) prod.collapse)
  have "verifyLayer1 E v w token (Aud ?c) (Thumbprint E (Cnf ?c)) = (w2, Inr (auth_header key, ?c))"
    unfolding token
    using clean(1,2) time keys(2) w1 w2 minted_lifetime_i64 [OF time(2,3,1)]
    by (subst verifyLayer1_signed [where ?w1.0 = w1 and jwk = "Pub key"]) auto
  moreover have "snd (verifyLayer2 E v w2 (auth_header key) ?c) = Inr ?c"
  proof -
    obtain w3 where w3: "ResolvePSA v w2 (PSARef ?c) = (w3, Inr (mi_PSA m))"
      using resolve(1) [of w2] by (metis prod.collapse)
    obtain w4 where w4: "Keys v w3 (psa_Issuer (mi_PSA m)) (Kid key) = (w4, Inr (Pub key))"
      using keys(1) [of w3] by (metis prod.collapse)
    obtain w5 where "ResolveGrant v w4 (psa_Issuer (mi_PSA m)) (AgS256 ?c) = (w5, Inr (mi_Grant m))"
      using resolve(2) [of w4] by (metis prod.collapse)
    then show ?thesis
      using w3 w4 clean(3) chain
      by (simp add: verifyLayer2_def issuerThumbFromHeader_def auth_header_def caipEq_refl)
  qed
  ultimately show ?thesis by (simp add: Verify_def)
qed

section \<open>Replay caches\<close>

text \<open>
  The contract of \<open>ReplayCache\<close>: the answer tells whether the id was spent before, and the id is
  spent afterwards, no other. A verifier uses the cache when it asks this cache and its
  resolvers leave it alone.
\<close>

definition uses_cache :: "('w \<Rightarrow> string \<Rightarrow> int \<Rightarrow> 'w \<times> bool) \<Rightarrow> ('w \<Rightarrow> string \<Rightarrow> bool) \<Rightarrow> 'w token_verifier \<Rightarrow> bool" where
  "uses_cache seen spent v =
     (SeenJTI v = seen \<and> (\<forall>w iss kid. spent (fst (Keys v w iss kid)) = spent w)
      \<and> (\<forall>w ref. spent (fst (ResolvePSA v w ref)) = spent w)
      \<and> (\<forall>w iss h. spent (fst (ResolveGrant v w iss h)) = spent w))"

text \<open>The claims accepted in a sequence of presentations, enhanced or vanilla.\<close>

fun accepted ::
  "ext \<Rightarrow> ('w token_verifier \<times> bool \<times> string \<times> string \<times> string) list \<Rightarrow> 'w \<Rightarrow> AuthClaims list" where
  "accepted E [] w = []"
| "accepted E ((v, enhanced, raw, aud, thumb) # ps) w =
     (case (if enhanced then Verify E v w raw aud thumb else VerifyVanilla E v w raw aud thumb) of
        (w', Inl e) \<Rightarrow> accepted E ps w'
      | (w', Inr c) \<Rightarrow> c # accepted E ps w')"

lemma parse_state:
  "parseAndCheckSig E keys of_json iss w raw typ = (w', r) \<Longrightarrow>
   w' = w \<or> (\<exists>i k. w' = fst (keys w i k))"
  by (auto simp: parseAndCheckSig_def Let_def split: sum.splits option.splits prod.splits if_splits)
    (metis fst_conv)+

locale replay_cache =
  fixes seen :: "'w \<Rightarrow> string \<Rightarrow> int \<Rightarrow> 'w \<times> bool" and spent :: "'w \<Rightarrow> string \<Rightarrow> bool"
  assumes seen_verdict: "snd (seen w j e) = spent w j"
    and seen_spends: "spent (fst (seen w j e)) k \<longleftrightarrow> k = j \<or> spent w k"
begin

lemma parse_keeps:
  "uses_cache seen spent v \<Longrightarrow> parseAndCheckSig E (Keys v) of_json iss w raw typ = (w', r) \<Longrightarrow>
   spent w' = spent w"
  using parse_state unfolding uses_cache_def by metis

lemma layer1_cases:
  assumes "uses_cache seen spent v" and "verifyLayer1 E v w raw aud thumb = (w', r)"
  shows "case r of Inl _ \<Rightarrow> (\<forall>k. spent w k \<longrightarrow> spent w' k)
         | Inr (hdr, c) \<Rightarrow> \<not> spent w (Jti c) \<and> (\<forall>k. spent w' k \<longleftrightarrow> k = Jti c \<or> spent w k)"
proof -
  obtain w1 p where p: "parseAndCheckSig E (Keys v) AuthClaims_of_json Iss w raw ''auth+jwt'' = (w1, p)"
    by (cases "parseAndCheckSig E (Keys v) AuthClaims_of_json Iss w raw ''auth+jwt''")
  have w1: "spent w1 = spent w" using parse_keeps [OF assms(1) p] .
  have "SeenJTI v = seen" using assms(1) by (simp add: uses_cache_def)
  then show ?thesis
    using assms(2) p w1 seen_verdict seen_spends
    by (auto simp: verifyLayer1_def Let_def split: sum.splits prod.splits if_splits) (metis fst_conv snd_conv)+
qed

lemma layer2_keeps:
  assumes "uses_cache seen spent v" and "verifyLayer2 E v w hdr c = (w', r)"
  shows "spent w' = spent w"
proof -
  have fr: "spent (fst (Keys v w iss kid)) = spent w" "spent (fst (ResolvePSA v w ref)) = spent w"
    "spent (fst (ResolveGrant v w iss h)) = spent w" for w iss kid ref h
    using assms(1) by (simp_all add: uses_cache_def)
  have fr': "Keys v w iss kid = (w2, a) \<Longrightarrow> spent w2 = spent w"
    "ResolvePSA v w ref = (w2, b) \<Longrightarrow> spent w2 = spent w"
    "ResolveGrant v w iss h = (w2, d) \<Longrightarrow> spent w2 = spent w" for w w2 iss kid ref h a b d
    using fr by (metis fst_conv)+
  show ?thesis
    using assms(2)
    by (auto simp: verifyLayer2_def issuerThumbFromHeader_def split: sum.splits prod.splits if_splits dest!: fr')
qed

lemma presentation_cases:
  assumes "uses_cache seen spent v"
    and "(if enhanced then Verify E v w raw aud thumb else VerifyVanilla E v w raw aud thumb) = (w', r)"
  shows "(\<forall>k. spent w k \<longrightarrow> spent w' k)
         \<and> (case r of Inl _ \<Rightarrow> True | Inr c \<Rightarrow> \<not> spent w (Jti c) \<and> spent w' (Jti c))"
proof -
  obtain w1 p where p: "verifyLayer1 E v w raw aud thumb = (w1, p)"
    by (cases "verifyLayer1 E v w raw aud thumb")
  note one = layer1_cases [OF assms(1) p]
  show ?thesis
  proof (cases p)
    case (Inl e)
    then show ?thesis using assms(2) p one by (auto simp: Verify_def VerifyVanilla_def split: if_splits)
  next
    case (Inr hc)
    then obtain hdr c where hc: "p = Inr (hdr, c)" by (cases hc) simp
    have two: "verifyLayer2 E v w1 hdr c = (w', r) \<Longrightarrow> spent w' = spent w1"
      using layer2_keeps [OF assms(1)] .
    have "verifyLayer2 E v w1 hdr c = (w', Inr c') \<Longrightarrow> c' = c" for c'
      by (rule Layer2_same)
    then show ?thesis
      using assms(2) p one two hc
      by (auto simp: Verify_def VerifyVanilla_def split: if_splits sum.splits)
  qed
qed

lemma accepted_once:
  assumes "\<forall>(v, _) \<in> set ps. uses_cache seen spent v"
  shows "distinct (map Jti (accepted E ps w)) \<and> (\<forall>c \<in> set (accepted E ps w). \<not> spent w (Jti c))"
  using assms
proof (induction ps arbitrary: w)
  case (Cons p ps)
  obtain v enhanced raw aud thumb where p: "p = (v, enhanced, raw, aud, thumb)" by (cases p)
  obtain w' r where r: "(if enhanced then Verify E v w raw aud thumb else VerifyVanilla E v w raw aud thumb) = (w', r)"
    by (cases "if enhanced then Verify E v w raw aud thumb else VerifyVanilla E v w raw aud thumb")
  have "uses_cache seen spent v" using Cons.prems p by simp
  from presentation_cases [OF this r] show ?case
    using Cons.IH [of w'] Cons.prems r p by (cases r) (auto split: if_splits)
qed simp

end

section \<open>Thumbprints pin keys\<close>

definition ascii_key :: "JWK \<Rightarrow> bool" where
  "ascii_key k = (is_ascii (Kty k) \<and> is_ascii (Crv k) \<and> is_ascii (X k))"

text \<open>Reading back one quoted character shows that quoting loses nothing.\<close>

definition unescape :: "char \<Rightarrow> char" where
  "unescape d =
     (if d = CHR ''a'' then char_of (7 :: nat) else if d = CHR ''b'' then char_of (8 :: nat)
      else if d = CHR ''f'' then char_of (12 :: nat) else if d = CHR ''n'' then char_of (10 :: nat)
      else if d = CHR ''r'' then char_of (13 :: nat) else if d = CHR ''t'' then char_of (9 :: nat)
      else if d = CHR ''v'' then char_of (11 :: nat) else d)"

definition unquote_one :: "string \<Rightarrow> (char \<times> string) option" where
  "unquote_one s =
     (case s of
        [] \<Rightarrow> None
      | a # r \<Rightarrow>
          if a \<noteq> bslash then Some (a, r)
          else (case r of
                  [] \<Rightarrow> None
                | d # r1 \<Rightarrow>
                    if d \<noteq> CHR ''x'' then Some (unescape d, r1)
                    else (case r1 of
                            h # l # r2 \<Rightarrow>
                              Some (char_of (16 * the (hex_val h) + the (hex_val l)), r2)
                          | _ \<Rightarrow> None)))"

lemma quote_ascii_plain:
  "32 \<le> char_val c \<Longrightarrow> char_val c < 127 \<Longrightarrow> c \<noteq> dquote \<Longrightarrow> c \<noteq> bslash \<Longrightarrow> quote_ascii c = [c]"
  by (simp add: quote_ascii_def)

lemma quote_ascii_short:
  "quote_ascii dquote = [bslash, dquote]" "quote_ascii bslash = [bslash, bslash]"
  "quote_ascii (char_of (7 :: nat)) = [bslash, CHR ''a'']" "quote_ascii (char_of (8 :: nat)) = [bslash, CHR ''b'']"
  "quote_ascii (char_of (12 :: nat)) = [bslash, CHR ''f'']" "quote_ascii (char_of (10 :: nat)) = [bslash, CHR ''n'']"
  "quote_ascii (char_of (13 :: nat)) = [bslash, CHR ''r'']" "quote_ascii (char_of (9 :: nat)) = [bslash, CHR ''t'']"
  "quote_ascii (char_of (11 :: nat)) = [bslash, CHR ''v'']"
  by (simp_all add: quote_ascii_def char_of_eq_iff dquote_def bslash_def)

lemma quote_ascii_hex:
  "c \<noteq> dquote \<Longrightarrow> c \<noteq> bslash \<Longrightarrow> \<not> (32 \<le> char_val c \<and> char_val c < 127) \<Longrightarrow>
   char_val c \<notin> {7, 8, 12, 10, 13, 9, 11} \<Longrightarrow>
   quote_ascii c = [bslash, CHR ''x'', hex_char (char_val c div 16), hex_char (char_val c mod 16)]"
  by (auto simp: quote_ascii_def Let_def)

lemma unescape_simps:
  "unescape dquote = dquote" "unescape bslash = bslash"
  "unescape (CHR ''a'') = char_of (7 :: nat)" "unescape (CHR ''b'') = char_of (8 :: nat)"
  "unescape (CHR ''f'') = char_of (12 :: nat)" "unescape (CHR ''n'') = char_of (10 :: nat)"
  "unescape (CHR ''r'') = char_of (13 :: nat)" "unescape (CHR ''t'') = char_of (9 :: nat)"
  "unescape (CHR ''v'') = char_of (11 :: nat)"
  by (simp_all add: unescape_def dquote_def bslash_def)

lemma unquote_one_simps:
  "a \<noteq> bslash \<Longrightarrow> unquote_one (a # r) = Some (a, r)"
  "d \<noteq> CHR ''x'' \<Longrightarrow> unquote_one (bslash # d # r) = Some (unescape d, r)"
  "unquote_one (bslash # CHR ''x'' # h # l # r)
     = Some (char_of (16 * the (hex_val h) + the (hex_val l)), r)"
  by (simp_all add: unquote_one_def)

lemma quote_ascii_cases:
  obtains (plain) "quote_ascii c = [c]" "c \<noteq> dquote" "c \<noteq> bslash"
  | (short) d where "quote_ascii c = [bslash, d]" "d \<noteq> CHR ''x''" "unescape d = c"
  | (hexa) "quote_ascii c = [bslash, CHR ''x'', hex_char (char_val c div 16), hex_char (char_val c mod 16)]"
proof (cases "c \<in> {dquote, bslash} \<or> char_val c \<in> {7, 8, 12, 10, 13, 9, 11}")
  case True
  have "c \<in> char_of ` S" if "char_val c \<in> S" for S
    by (rule image_eqI [OF _ that]) (rule char_of_char [symmetric])
  from True this [of "{7, 8, 12, 10, 13, 9, 11}"]
  have "c \<in> {dquote, bslash} \<union> char_of ` {7 :: nat, 8, 12, 10, 13, 9, 11}"
    by blast
  then have "\<exists>d. quote_ascii c = [bslash, d] \<and> d \<noteq> CHR ''x'' \<and> unescape d = c"
    using quote_ascii_short unescape_simps by (auto simp: dquote_def bslash_def)
  then show thesis using short by blast
next
  case False
  then show thesis
    using plain hexa quote_ascii_plain [of c] quote_ascii_hex [of c] by blast
qed

lemma unquote_one_quote [simp]: "unquote_one (quote_ascii c @ r) = Some (c, r)"
proof (cases c rule: quote_ascii_cases)
  case hexa
  have "char_val c div 16 < 16" "char_val c mod 16 < 16" by simp_all
  then show ?thesis by (simp add: hexa unquote_one_simps mult.commute)
qed (simp_all add: unquote_one_simps)

lemma quote_ascii_first: "\<exists>a r. quote_ascii c = a # r \<and> a \<noteq> dquote"
  by (cases c rule: quote_ascii_cases) (simp_all add: dquote_def bslash_def)

lemma quoted_text_inject:
  "concat (map quote_ascii s) @ dquote # u = concat (map quote_ascii t) @ dquote # v \<Longrightarrow> s = t \<and> u = v"
proof (induction s arbitrary: t)
  case Nil
  then show ?case using quote_ascii_first [of "hd t"] by (cases t) auto
next
  case (Cons c s)
  then obtain d t' where t: "t = d # t'"
    using quote_ascii_first [of c] by (cases t) auto
  have "unquote_one (quote_ascii c @ concat (map quote_ascii s) @ dquote # u)
        = unquote_one (quote_ascii d @ concat (map quote_ascii t') @ dquote # v)"
    using Cons.prems by (simp add: t)
  then show ?case using Cons.IH [of t'] by (simp add: t)
qed

lemma go_quote_inject:
  "is_ascii s \<Longrightarrow> is_ascii t \<Longrightarrow> go_quote E s @ u = go_quote E t @ v \<Longrightarrow> s = t \<and> u = v"
  using quoted_text_inject [of s u t v] by (simp add: go_quote_def)

lemma JWK_canonical_inject:
  assumes "JWK_canonical E k = JWK_canonical E l" and "ascii_key k" "ascii_key l"
  shows "k = l"
proof -
  have ascii: "is_ascii (Crv k)" "is_ascii (Crv l)" "is_ascii (Kty k)" "is_ascii (Kty l)"
    "is_ascii (X k)" "is_ascii (X l)"
    using assms(2,3) by (simp_all add: ascii_key_def)
  define x where "x j = go_quote E (X j) @ ''}''" for j :: JWK
  define kty where "kty j = go_quote E (Kty j) @ '','' @ [dquote] @ ''x'' @ [dquote] @ '':'' @ x j" for j :: JWK
  define crv where "crv j = go_quote E (Crv j) @ '','' @ [dquote] @ ''kty'' @ [dquote] @ '':'' @ kty j" for j :: JWK
  have "crv k = crv l"
    using assms(1) by (simp add: JWK_canonical_def crv_def kty_def x_def)
  from go_quote_inject [OF ascii(1,2) this [unfolded crv_def]]
  have 1: "Crv k = Crv l" "kty k = kty l" by simp_all
  from go_quote_inject [OF ascii(3,4) 1(2) [unfolded kty_def]]
  have 2: "Kty k = Kty l" "x k = x l" by simp_all
  from go_quote_inject [OF ascii(5,6) 2(2) [unfolded x_def]]
  have "X k = X l" by simp
  then show ?thesis using 1 2 by simp
qed

section \<open>A concrete issuer\<close>

definition sample_jwk :: JWK where
  "sample_jwk = \<lparr>Kty = ''OKP'', Crv = ''Ed25519'', X = b64_raw True (replicate 32 (CHR ''k''))\<rparr>"

definition sample_agent_jwk :: JWK where
  "sample_agent_jwk = \<lparr>Kty = ''OKP'', Crv = ''Ed25519'', X = b64_raw True (replicate 32 (CHR ''a''))\<rparr>"

definition sample_key :: IssuerKey where
  "sample_key = \<lparr>Kid = ''k1'', Priv = replicate 32 (CHR ''k''), Pub = sample_jwk\<rparr>"

definition issued_psa :: PSA where
  "issued_psa =
     sample_sign_psa (sample_psa_unsigned\<lparr>psa_KeyThumbprints := Some [Thumbprint sample_ext sample_jwk]\<rparr>)"

definition issued_grant :: AgentGrant where
  "issued_grant =
     sample_sign_grant (sample_grant_unsigned\<lparr>ag_AgentThumbprint := Thumbprint sample_ext sample_agent_jwk\<rparr>)"

definition sample_input :: MintInput where
  "sample_input =
     \<lparr>mi_PSA = issued_psa, mi_PSABlobURL = ''https://ps/psa/r'', mi_Grant = issued_grant,
      mi_Resource = \<lparr>rc_Iss = ''https://res'', rc_Jti = ''j'', rc_Iat = 0, rc_Exp = 0,
        rc_Scope = Some [''pay''], rc_AmountWei = ''50''\<rparr>,
      mi_AgentID = ''aauth:a@b'', mi_AgentKey = sample_agent_jwk, mi_Mission = None,
      mi_StepUp = None, mi_Claims = [], mi_TTL = 3 * Hour\<rparr>"

abbreviation sample_claims :: AuthClaims where
  "sample_claims \<equiv> mintClaims sample_ext (1000 * Second) ''xy'' sample_input"

definition sample_token_verifier :: "string list token_verifier" where
  "sample_token_verifier =
     \<lparr>Keys = (\<lambda>w iss kid. (w, Inr sample_jwk)), ResolvePSA = (\<lambda>w ref. (w, Inr issued_psa)),
      ResolveGrant = (\<lambda>w iss h. (w, Inr issued_grant)), Chain = sample_verifier,
      SeenJTI = (\<lambda>w j e. (j # w, j \<in> set w)), VNow = 1000 * Second\<rparr>"

lemma issued_simps [simp]:
  "psa_Root issued_psa = sample_root" "psa_Issuer issued_psa = ''https://ps''"
  "psa_KeyThumbprints issued_psa = Some [Thumbprint sample_ext sample_jwk]"
  "psa_Scope issued_psa = psa_Scope sample_psa_unsigned" "psa_RegistryChain issued_psa = 8453"
  "ag_Root issued_grant = sample_root" "ag_AgentIdentifier issued_grant = ''aauth:a@b''"
  "ag_AgentThumbprint issued_grant = Thumbprint sample_ext sample_agent_jwk"
  by (simp_all add: issued_psa_def issued_grant_def sample_psa_unsigned_def sample_grant_unsigned_def)

lemma issued_verify:
  "VerifyPSA sample_ext sample_verifier issued_psa ''https://ps'' (Thumbprint sample_ext sample_jwk) = Inr ()"
  "VerifyAgentGrant sample_ext sample_verifier issued_grant sample_root ''aauth:a@b''
     (Thumbprint sample_ext sample_agent_jwk) = Inr ()"
proof -
  have "PSA_signed sample_ext sample_verifier issued_psa"
    unfolding issued_psa_def by (rule sample_psa_signed) (simp add: sample_psa_unsigned_def)
  then show "VerifyPSA sample_ext sample_verifier issued_psa ''https://ps'' (Thumbprint sample_ext sample_jwk) = Inr ()"
    by (simp add: VerifyPSA_accepts)
      (simp add: issued_psa_def sample_psa_unsigned_def sample_verifier_def Unix_def Second_def)
  have "AgentGrant_signed sample_ext sample_verifier issued_grant"
    unfolding issued_grant_def by (rule sample_grant_signed) (simp add: sample_grant_unsigned_def)
  then show "VerifyAgentGrant sample_ext sample_verifier issued_grant sample_root ''aauth:a@b''
     (Thumbprint sample_ext sample_agent_jwk) = Inr ()"
    by (simp add: VerifyAgentGrant_accepts)
      (simp add: issued_grant_def sample_grant_unsigned_def sample_verifier_def Unix_def Second_def)
qed

lemma sample_holds_key: "holds_key sample_ext sample_key sample_jwk"
  using sample_ed25519_pair [of "replicate 32 (CHR ''k'')"]
  by (simp add: holds_key_def sample_jwk_def sample_key_def)

lemma sample_payment: "within_payment (psa_Scope sample_psa_unsigned) ''50'' None"
  by (simp add: within_payment_def sample_psa_unsigned_def bigOrZero_def bigSetString_def
      all_digits_def is_digit_def read_nat_def)

lemma sample_mint:
  "Mint sample_ext (1000 * Second) ''xy'' sample_key sample_input
   = Inr (signJWT sample_ext sample_key ''auth+jwt'' (AuthClaims_json sample_claims))"
  using sample_payment by (simp add: Mint_ok) (simp add: sample_input_def sample_key_def)

lemma sample_claims_lifetime: "Iat sample_claims = 1000" "Exp sample_claims = 1600"
  by (simp_all add: sample_input_def mintTTL_def sample_psa_unsigned_def i64_def Second_def Hour_def Unix_def)

lemma sample_claims_clean: "json_clean (AuthClaims_json sample_claims)"
  by (simp add: AuthClaims_json_def CNF_json_def JWK_json_def omit_nil_def omitempty_def ContentHash_def newJTI_def
      del: hex_encode.simps)
    (simp add: sample_input_def sample_agent_jwk_def sample_root_def mintClaims_def applyVouched_def)

lemma sample_verifies:
  "snd (Verify sample_ext sample_token_verifier []
     (signJWT sample_ext sample_key ''auth+jwt'' (AuthClaims_json sample_claims)) ''https://res''
     (Thumbprint sample_ext sample_agent_jwk)) = Inr sample_claims"
  using sample_mint sample_claims_clean sample_claims_lifetime sample_holds_key issued_verify
    minted_verifies [of sample_ext "1000 * Second" "''xy''" sample_key sample_input _ sample_token_verifier "[]"]
  by (simp add: sample_token_verifier_def AuthClaims_in_range_def in_i64_def newJTI_def Unix_def Second_def
      del: hex_encode.simps)
    (simp add: sample_input_def sample_key_def sample_root_def)

section \<open>Properties\<close>

text \<open>C13: \<open>Mint\<close> produces a token exactly when the authorization lists the
  issuing key, allows every claim to be vouched for, and covers the payment: a decimal amount within
  a cap that is not zero and, above a positive step-up threshold, with a step-up. The token is then
  the signed claims of \<open>mintClaims\<close>, and every other input is refused (I1, I3).\<close>

theorem mint_within_envelope:
  "Mint E now r key m = Inr token \<longleftrightarrow>
     Thumbprint E (Pub key) \<in> set (elems (psa_KeyThumbprints (mi_PSA m)))
     \<and> fst ` set (mi_Claims m) \<subseteq> set (elems (AllowedClaims (psa_Scope (mi_PSA m))))
     \<and> within_payment (psa_Scope (mi_PSA m)) (rc_AmountWei (mi_Resource m)) (mi_StepUp m)
     \<and> token = signJWT E key ''auth+jwt'' (AuthClaims_json (mintClaims E now r m))"
  by (fact Mint_ok)

text \<open>C31: whatever lifetime is asked for and whatever the signed scope says
  (its seconds wrap at 64 bits as the code computes them), a minted token expires at most an hour
  after it was issued, and at most the signed maximum after it, for every maximum that does not
  underflow the nanosecond clock.\<close>

theorem minted_lifetime_bounded:
  "Exp (mintClaims E now r m) \<le> Iat (mintClaims E now r m) + 3600
   \<and> (- 9223372036 \<le> MaxTokenTTLSeconds (psa_Scope (mi_PSA m)) \<longrightarrow>
        Exp (mintClaims E now r m)
          \<le> Iat (mintClaims E now r m) + MaxTokenTTLSeconds (psa_Scope (mi_PSA m)))"
  using mint_lifetime by blast

theorem minted_lifetime_bounded_witness:
  "Exp sample_claims \<le> Iat sample_claims + 600"
  using minted_lifetime_bounded [of sample_ext "1000 * Second" "''xy''" sample_input]
  by (simp add: sample_input_def) (simp add: sample_psa_unsigned_def)

text \<open>C12: a token minted by a server whose key signs correctly, presented in
  its lifetime to the resource it names by the holder of the agent key, passes the full enhanced
  verification and gives back exactly the minted claims, when the resolvers serve the key,
  authorization and grant it was minted from, these verify, and its id has not been spent.\<close>

theorem minted_token_verifies:
  assumes "Mint E now r key m = Inr token"
    and "json_clean (AuthClaims_json (mintClaims E now r m))" "utf8_ok (Kid key)"
      "is_ascii (psa_Root (mi_PSA m))"
    and "AuthClaims_in_range (mintClaims E now r m)" "now \<le> VNow v"
      "Unix (VNow v) < Exp (mintClaims E now r m)"
    and "\<And>w. snd (Keys v w (psa_Issuer (mi_PSA m)) (Kid key)) = Inr (Pub key)" "holds_key E key (Pub key)"
    and "\<And>w. snd (ResolvePSA v w (PSARef (mintClaims E now r m))) = Inr (mi_PSA m)"
      "\<And>w. snd (ResolveGrant v w (psa_Issuer (mi_PSA m)) (AgS256 (mintClaims E now r m))) = Inr (mi_Grant m)"
    and "VerifyPSA E (Chain v) (mi_PSA m) (psa_Issuer (mi_PSA m)) (Thumbprint E (Pub key)) = Inr ()"
      "VerifyAgentGrant E (Chain v) (mi_Grant m) (psa_Root (mi_PSA m)) (mi_AgentID m)
         (Thumbprint E (mi_AgentKey m)) = Inr ()"
    and "\<not> snd (SeenJTI v (fst (Keys v w (psa_Issuer (mi_PSA m)) (Kid key))) (newJTI r)
             (Exp (mintClaims E now r m)))"
  shows "snd (Verify E v w token (rc_Iss (mi_Resource m)) (Thumbprint E (mi_AgentKey m)))
         = Inr (mintClaims E now r m)"
  using assms by (rule minted_verifies)

theorem minted_token_verifies_witness:
  "snd (Verify sample_ext sample_token_verifier []
     (signJWT sample_ext sample_key ''auth+jwt'' (AuthClaims_json sample_claims))
     (rc_Iss (mi_Resource sample_input)) (Thumbprint sample_ext (mi_AgentKey sample_input)))
   = Inr sample_claims"
proof (rule minted_token_verifies [OF sample_mint sample_claims_clean])
  show "AuthClaims_in_range sample_claims"
    unfolding AuthClaims_in_range_def sample_claims_lifetime by (simp add: in_i64_def)
  show "Unix (VNow sample_token_verifier) < Exp sample_claims"
    unfolding sample_claims_lifetime by (simp add: sample_token_verifier_def Unix_def Second_def)
  show "holds_key sample_ext sample_key (Pub sample_key)"
    using sample_holds_key by (simp add: sample_key_def)
  show "VerifyPSA sample_ext (Chain sample_token_verifier) (mi_PSA sample_input)
      (psa_Issuer (mi_PSA sample_input)) (Thumbprint sample_ext (Pub sample_key)) = Inr ()"
    "VerifyAgentGrant sample_ext (Chain sample_token_verifier) (mi_Grant sample_input)
      (psa_Root (mi_PSA sample_input)) (mi_AgentID sample_input)
      (Thumbprint sample_ext (mi_AgentKey sample_input)) = Inr ()"
    using issued_verify by (simp_all add: sample_token_verifier_def sample_input_def sample_key_def)
qed (simp_all add: sample_token_verifier_def sample_input_def sample_key_def sample_root_def)



text \<open>A token rejected by any check of the first layer other than
  the replay check itself is rejected without consulting the replay cache: the verdict and the state
  are the same with every cache. So a thief without the agent key cannot burn a token's id.\<close>

theorem failed_checks_spend_no_token:
  assumes "verifyLayer1 E v w raw aud thumb = (w', Inl e)" and "e \<noteq> JtiReplay"
  shows "verifyLayer1 E (v\<lparr>SeenJTI := f\<rparr>) w raw aud thumb = (w', Inl e)"
  using assms by (auto simp: verifyLayer1_def Let_def split: prod.splits sum.splits if_splits)

theorem failed_checks_spend_no_token_witness:
  "verifyLayer1 sample_ext (sample_token_verifier\<lparr>SeenJTI := (\<lambda>w j e. (w, True))\<rparr>) [] ''a.b'' ''https://res'' ''t''
   = ([], Inl (MalformedJWT 2))"
  by (rule failed_checks_spend_no_token)
    (simp_all add: verifyLayer1_def parseAndCheckSig_def split3_def)

text \<open>C36: the check against over-long tokens computes the lifetime in 64 bits,
  so a token whose lifetime is \<open>2^63\<close> seconds or more, dated far in the past, passes it: the first
  layer accepts it at every time before its expiry.\<close>

theorem overlong_check_wraps:
  assumes "json_clean (AuthClaims_json c)" "AuthClaims_in_range c" "utf8_ok (Kid key)"
    and "Keys v w (Iss c) (Kid key) = (w1, Inr jwk)" and "holds_key E key jwk"
    and "Unix (VNow v) < Exp c" and "2 ^ 63 \<le> Exp c - Iat c"
    and "SeenJTI v w1 (Jti c) (Exp c) = (w', False)"
  shows "verifyLayer1 E v w (signJWT E key ''auth+jwt'' (AuthClaims_json c)) (Aud c) (Thumbprint E (Cnf c))
         = (w', Inr (auth_header key, c))"
proof -
  have "Exp c - Iat c < 2 ^ 64"
    using assms(2) by (simp add: AuthClaims_in_range_def in_i64_def)
  then have "i64 (Exp c - Iat c) \<le> 86400"
    using i64_wrap [OF assms(7)] by simp
  then show ?thesis
    using assms(6,8) by (simp add: verifyLayer1_signed [OF assms(1-5)])
qed

definition sample_overlong :: AuthClaims where
  "sample_overlong = AuthClaims_zero\<lparr>Iat := - 4611686018427387904, Exp := 4611686018427387904\<rparr>"

theorem overlong_check_wraps_witness:
  "snd (verifyLayer1 sample_ext sample_token_verifier []
      (signJWT sample_ext sample_key ''auth+jwt'' (AuthClaims_json sample_overlong)) []
      (Thumbprint sample_ext JWK_zero)) = Inr (auth_header sample_key, sample_overlong)"
proof -
  have c: "Iat sample_overlong = - 4611686018427387904" "Exp sample_overlong = 4611686018427387904"
    "Aud sample_overlong = []" "Cnf sample_overlong = JWK_zero" "Jti sample_overlong = []"
    "json_clean (AuthClaims_json sample_overlong)"
    by (simp_all add: sample_overlong_def AuthClaims_zero_def AuthClaims_json_def CNF_json_def
        JWK_json_def JWK_zero_def omit_nil_def omitempty_def)
  have "verifyLayer1 sample_ext sample_token_verifier []
      (signJWT sample_ext sample_key ''auth+jwt'' (AuthClaims_json sample_overlong)) (Aud sample_overlong)
      (Thumbprint sample_ext (Cnf sample_overlong)) = ([Jti sample_overlong], Inr (auth_header sample_key, sample_overlong))"
    using c sample_holds_key
    by (intro overlong_check_wraps [where ?w1.0 = "[]" and jwk = sample_jwk])
      (simp_all add: AuthClaims_in_range_def in_i64_def sample_token_verifier_def Unix_def Second_def sample_key_def)
  then show ?thesis by (simp add: c)
qed

text \<open>Two keys with ASCII members and the same thumbprint are the same key, or
  their canonical texts are a collision of SHA-256.\<close>

theorem thumbprint_pins_key:
  assumes "Thumbprint E k = Thumbprint E l" and "ascii_key k" "ascii_key l"
  shows "k = l \<or> collision (SHA256 E) (JWK_canonical E k) (JWK_canonical E l)"
  using assms JWK_canonical_inject by (auto simp: Thumbprint_def collision_def)

theorem thumbprint_pins_key_witness:
  "sample_jwk = sample_jwk
   \<or> collision (SHA256 sample_ext) (JWK_canonical sample_ext sample_jwk) (JWK_canonical sample_ext sample_jwk)"
  by (rule thumbprint_pins_key) (simp_all add: ascii_key_def sample_jwk_def)

end
