(* ===== verification/Go_Flag.thy ===== *)
theory Go_Flag
  imports Go_Std
begin

text \<open>
  What the commands use of the packages \<open>flag\<close>, \<open>strconv\<close> and \<open>net/url\<close>: command-line flags with
  their number syntax, and query strings, with the round trips between what is printed and what is
  parsed.
\<close>

section \<open>strconv, base 0\<close>

text \<open>The value of a digit or letter; \<open>lower\<close> of the Go source sets bit 5.\<close>

definition alnum_val :: "char \<Rightarrow> nat option" where
  "alnum_val c =
     (let v = char_val c in
      if 48 \<le> v \<and> v \<le> 57 then Some (v - 48)
      else if 97 \<le> v \<and> v \<le> 122 then Some (v - 87)
      else if 65 \<le> v \<and> v \<le> 90 then Some (v - 55)
      else None)"

text \<open>The base a literal announces by its prefix, and what follows the prefix.\<close>

definition base_prefix :: "string \<Rightarrow> nat \<times> string" where
  "base_prefix s =
     (if s \<noteq> [] \<and> hd s = CHR ''0''
      then (if length s \<ge> 3 \<and> s ! 1 \<in> {CHR ''b'', CHR ''B''} then (2, drop 2 s)
            else if length s \<ge> 3 \<and> s ! 1 \<in> {CHR ''o'', CHR ''O''} then (8, drop 2 s)
            else if length s \<ge> 3 \<and> s ! 1 \<in> {CHR ''x'', CHR ''X''} then (16, drop 2 s)
            else (8, drop 1 s))
      else (10, s))"

fun digits_in :: "nat \<Rightarrow> nat \<Rightarrow> string \<Rightarrow> nat option" where
  "digits_in base acc [] = Some acc"
| "digits_in base acc (c # s) =
     (if c = CHR ''_'' then digits_in base acc s
      else case alnum_val c of
             None \<Rightarrow> None
           | Some d \<Rightarrow> if d \<ge> base then None else digits_in base (base * acc + d) s)"

text \<open>\<open>underscoreOK\<close>: an underscore stands between digits, or after the prefix.\<close>

datatype seen = AtStart | SeenDigit | SeenUnderscore | SeenOther

fun underscores_placed :: "bool \<Rightarrow> seen \<Rightarrow> string \<Rightarrow> bool" where
  "underscores_placed hex i [] = (i \<noteq> SeenUnderscore)"
| "underscores_placed hex i (c # s) =
     (if is_digit c \<or> (hex \<and> hex_val c \<noteq> None) then underscores_placed hex SeenDigit s
      else if c = CHR ''_'' then i = SeenDigit \<and> underscores_placed hex SeenUnderscore s
      else i \<noteq> SeenUnderscore \<and> underscores_placed hex SeenOther s)"

definition underscoreOK :: "string \<Rightarrow> bool" where
  "underscoreOK s =
     (if length s \<ge> 2 \<and> hd s = CHR ''0'' \<and> s ! 1 \<in> set ''bBoOxX''
      then underscores_placed (s ! 1 \<in> {CHR ''x'', CHR ''X''}) SeenDigit (drop 2 s)
      else underscores_placed False AtStart s)"

text \<open>\<open>strconv.ParseUint(s, 0, 64)\<close> and \<open>strconv.ParseInt(s, 0, 64)\<close>, without the kind of the error.\<close>

definition parse_uint64 :: "string \<Rightarrow> nat option" where
  "parse_uint64 s =
     (if s = [] then None
      else case base_prefix s of (base, digits) \<Rightarrow>
             (case digits_in base 0 digits of
                None \<Rightarrow> None
              | Some n \<Rightarrow>
                  if n \<ge> 2 ^ 64 then None
                  else if CHR ''_'' \<in> set digits \<and> \<not> underscoreOK s then None
                  else Some n))"

definition parse_int64 :: "string \<Rightarrow> int option" where
  "parse_int64 s =
     (if s = [] then None
      else let neg = (hd s = CHR ''-''); t = (if neg \<or> hd s = CHR ''+'' then tl s else s) in
        case parse_uint64 t of
          None \<Rightarrow> None
        | Some n \<Rightarrow>
            if \<not> neg \<and> n \<ge> 2 ^ 63 then None
            else if neg \<and> n > 2 ^ 63 then None
            else Some (if neg then - int n else int n))"

definition parse_bool :: "string \<Rightarrow> bool option" where
  "parse_bool s =
     (if s \<in> set [''1'', ''t'', ''T'', ''true'', ''TRUE'', ''True''] then Some True
      else if s \<in> set [''0'', ''f'', ''F'', ''false'', ''FALSE'', ''False''] then Some False
      else None)"

section \<open>flag\<close>

text \<open>
  A flag says whether it is boolean and stores its value, or refuses it. \<open>FlagSet.Parse\<close> with
  \<open>ExitOnError\<close>: it stops at the first argument that is no flag, or after \<open>--\<close>; a request for help
  ends the program with status 0, any other failure with status 2.
\<close>

type_synonym 'a flag = "bool \<times> (string \<Rightarrow> 'a \<Rightarrow> 'a option)"

datatype flag_exit = HelpShown | BadFlag

definition string_flag :: "(string \<Rightarrow> 'a \<Rightarrow> 'a) \<Rightarrow> 'a flag" where
  "string_flag upd = (False, \<lambda>s a. Some (upd s a))"

definition int64_flag :: "(int \<Rightarrow> 'a \<Rightarrow> 'a) \<Rightarrow> 'a flag" where
  "int64_flag upd = (False, \<lambda>s a. map_option (\<lambda>n. upd n a) (parse_int64 s))"

definition uint64_flag :: "(64 word \<Rightarrow> 'a \<Rightarrow> 'a) \<Rightarrow> 'a flag" where
  "uint64_flag upd = (False, \<lambda>s a. map_option (\<lambda>n. upd (of_nat n) a) (parse_uint64 s))"

definition bool_flag :: "(bool \<Rightarrow> 'a \<Rightarrow> 'a) \<Rightarrow> 'a flag" where
  "bool_flag upd = (True, \<lambda>s a. map_option (\<lambda>b. upd b a) (parse_bool s))"

definition split_flag :: "string \<Rightarrow> string \<times> string option" where
  "split_flag name =
     (takeWhile (\<lambda>c. c \<noteq> CHR ''='') name,
      if CHR ''='' \<in> set name then Some (tl (dropWhile (\<lambda>c. c \<noteq> CHR ''='') name)) else None)"

fun parse_flags :: "(string \<times> 'a flag) list \<Rightarrow> string list \<Rightarrow> 'a \<Rightarrow> flag_exit + 'a" where
  "parse_flags fs [] a = Inr a"
| "parse_flags fs (s # args) a =
     (if length s < 2 \<or> hd s \<noteq> CHR ''-'' \<or> s = ''--'' then Inr a
      else let name = (if s ! 1 = CHR ''-'' then drop 2 s else drop 1 s) in
        if hd name \<in> {CHR ''-'', CHR ''=''} then Inl BadFlag
        else case map_of fs (fst (split_flag name)) of
               None \<Rightarrow> Inl (if fst (split_flag name) \<in> set [''help'', ''h''] then HelpShown else BadFlag)
             | Some (is_bool, store) \<Rightarrow>
                 (case (if is_bool \<and> snd (split_flag name) = None then Some ''true'' else snd (split_flag name)) of
                    Some v \<Rightarrow> (case store v a of None \<Rightarrow> Inl BadFlag | Some a' \<Rightarrow> parse_flags fs args a')
                  | None \<Rightarrow>
                      (case args of
                         [] \<Rightarrow> Inl BadFlag
                       | v # rest \<Rightarrow>
                           (case store v a of None \<Rightarrow> Inl BadFlag | Some a' \<Rightarrow> parse_flags fs rest a'))))"

declare parse_flags.simps(2) [simp del]

text \<open>A flag written \<open>--name value\<close>.\<close>

lemma parse_flags_value:
  assumes "name \<noteq> []" and "CHR ''='' \<notin> set name" and "hd name \<noteq> CHR ''-''" and "map_of fs name = Some (False, store)"
  shows "parse_flags fs ((''--'' @ name) # v # args) a =
    (case store v a of None \<Rightarrow> Inl BadFlag | Some a' \<Rightarrow> parse_flags fs args a')"
proof -
  have "hd name \<noteq> CHR ''=''" using assms(1,2) by (cases name) auto
  moreover have "split_flag name = (name, None)" using assms(2) by (auto simp: split_flag_def)
  ultimately show ?thesis using assms(1,3,4) by (cases name) (simp_all add: parse_flags.simps(2))
qed

lemma parse_flags_bool:
  assumes "name \<noteq> []" and "CHR ''='' \<notin> set name" and "hd name \<noteq> CHR ''-''" and "map_of fs name = Some (True, store)"
  shows "parse_flags fs ((''--'' @ name) # args) a =
    (case store ''true'' a of None \<Rightarrow> Inl BadFlag | Some a' \<Rightarrow> parse_flags fs args a')"
proof -
  have "hd name \<noteq> CHR ''=''" using assms(1,2) by (cases name) auto
  moreover have "split_flag name = (name, None)" using assms(2) by (auto simp: split_flag_def)
  ultimately show ?thesis using assms(1,3,4) by (cases name) (simp_all add: parse_flags.simps(2))
qed

lemma flag_stores:
  "snd (string_flag upd) s a = Some (upd s a)"
  "fst (string_flag upd) = False" "fst (int64_flag upd') = False" "fst (uint64_flag upd'') = False"
  by (simp_all add: string_flag_def int64_flag_def uint64_flag_def)

text \<open>What follows a positional argument is not looked at.\<close>

lemma parse_flags_positional: "s = [] \<or> hd s \<noteq> CHR ''-'' \<Longrightarrow> parse_flags fs (s # args) a = Inr a"
  by (cases s) (auto simp: parse_flags.simps(2))

section \<open>Decimal arguments\<close>

lemma hd_show_nat: "0 < n \<Longrightarrow> hd (show_nat n) \<noteq> CHR ''0''"
proof (induction n rule: show_nat.induct)
  case (1 n)
  show ?case
  proof (cases "n < 10")
    case True
    then have "char_val (digit_char n) \<noteq> char_val CHR ''0''" using 1(2) by simp
    then show ?thesis using True by (metis list.sel(1) show_nat.simps)
  next
    case False
    then show ?thesis using 1(1) by (simp add: show_nat.simps [of n])
  qed
qed

lemma digits_in_decimal:
  "list_all is_digit s \<Longrightarrow> digits_in 10 acc s = Some (foldl (\<lambda>a c. 10 * a + (char_val c - 48)) acc s)"
proof (induction s arbitrary: acc)
  case (Cons c s)
  then have "c \<noteq> CHR ''_''" "alnum_val c = Some (char_val c - 48)" "char_val c - 48 < 10"
    by (auto simp: is_digit_def alnum_val_def)
  then show ?case using Cons by simp
qed simp

lemma parse_uint64_show: "n < 2 ^ 64 \<Longrightarrow> parse_uint64 (show_nat n) = Some n"
proof (cases "n = 0")
  case True
  then have "show_nat n = ''0''" by (simp add: show_nat.simps digit_char_def char_of_eq_iff)
  then show ?thesis using True by (simp add: parse_uint64_def base_prefix_def)
next
  case False
  assume n: "n < 2 ^ 64"
  have digits: "list_all is_digit (show_nat n)" using all_digits_show_nat [of n] by (simp add: all_digits_def)
  have "digits_in 10 0 (show_nat n) = Some n"
    using digits_in_decimal [OF digits, of 0] read_show_nat [of n] by (simp add: read_nat_def)
  moreover have "base_prefix (show_nat n) = (10, show_nat n)" using hd_show_nat False by (simp add: base_prefix_def)
  moreover have "CHR ''_'' \<notin> set (show_nat n)" using show_nat_digits by (fastforce simp: is_digit_def)
  ultimately show ?thesis using n by (simp add: parse_uint64_def)
qed

lemma parse_int64_show:
  assumes "- (2 ^ 63) \<le> i" and "i < 2 ^ 63"
  shows "parse_int64 (show_int i) = Some i"
proof (cases "i < 0")
  case True
  have "nat (- i) < 2 ^ 64" "\<not> 2 ^ 63 < nat (- i)" using assms by simp_all
  then show ?thesis using True parse_uint64_show [of "nat (- i)"] by (simp add: parse_int64_def show_int_def)
next
  case False
  have n: "nat i < 2 ^ 64" "\<not> 2 ^ 63 \<le> nat i" using assms by simp_all
  have "is_digit (hd (show_nat (nat i)))" by (rule show_nat_digits [OF hd_in_set]) simp
  then have "hd (show_nat (nat i)) \<noteq> CHR ''-''" "hd (show_nat (nat i)) \<noteq> CHR ''+''"
    by (auto dest: is_digit_not_punct)
  then show ?thesis using False n parse_uint64_show [OF n(1)] by (simp add: parse_int64_def show_int_def)
qed

text \<open>A leading zero makes an argument octal.\<close>

lemma octal_argument: "parse_uint64 ''010'' = Some 8" "parse_uint64 ''08'' = None"
  by (simp_all add: parse_uint64_def base_prefix_def alnum_val_def)

section \<open>Query strings\<close>

text \<open>\<open>url.QueryEscape\<close> and \<open>url.QueryUnescape\<close>.\<close>

definition query_plain :: "char \<Rightarrow> bool" where
  "query_plain c =
     (let v = char_val c in
      (48 \<le> v \<and> v \<le> 57) \<or> (65 \<le> v \<and> v \<le> 90) \<or> (97 \<le> v \<and> v \<le> 122) \<or> c \<in> set ''-_.~'')"

definition upper_hex :: "nat \<Rightarrow> char" where
  "upper_hex n = (if n < 10 then char_of (48 + n) else char_of (55 + n))"

definition escape_char :: "char \<Rightarrow> string" where
  "escape_char c =
     (if query_plain c then [c] else if c = CHR '' '' then ''+''
      else [CHR ''%'', upper_hex (char_val c div 16), upper_hex (char_val c mod 16)])"

definition QueryEscape :: "string \<Rightarrow> string" where
  "QueryEscape s = concat (map escape_char s)"

fun QueryUnescape :: "string \<Rightarrow> string option" where
  "QueryUnescape [] = Some []"
| "QueryUnescape (c # s) =
     (if c = CHR ''%''
      then (case s of
              h # l # r \<Rightarrow>
                (case (hex_val h, hex_val l) of
                   (Some x, Some y) \<Rightarrow> map_option ((#) (char_of (16 * x + y))) (QueryUnescape r)
                 | _ \<Rightarrow> None)
            | _ \<Rightarrow> None)
      else map_option ((#) (if c = CHR ''+'' then CHR '' '' else c)) (QueryUnescape s))"

text \<open>\<open>URL.Query\<close> and \<open>Values.Get\<close>: malformed settings are dropped, the first value counts.\<close>

definition query_setting :: "string \<Rightarrow> (string \<times> string) option" where
  "query_setting p =
     (if p = [] \<or> CHR '';'' \<in> set p then None
      else case (QueryUnescape (fst (split_flag p)),
                 QueryUnescape (case snd (split_flag p) of None \<Rightarrow> [] | Some v \<Rightarrow> v)) of
             (Some k, Some v) \<Rightarrow> Some (k, v)
           | _ \<Rightarrow> None)"

definition query_get :: "string \<Rightarrow> string \<Rightarrow> string" where
  "query_get k q =
     (case map_of (List.map_filter query_setting (split_on (CHR ''&'') q)) k of None \<Rightarrow> [] | Some v \<Rightarrow> v)"

lemma upper_hex_val: "n < 16 \<Longrightarrow> hex_val (upper_hex n) = Some n"
  by (auto simp: hex_val_def upper_hex_def)

lemma upper_hex_plain: "n < 16 \<Longrightarrow> query_plain (upper_hex n)"
  by (auto simp: query_plain_def upper_hex_def)

lemma QueryUnescape_escape_char: "QueryUnescape (escape_char c @ s) = map_option ((#) c) (QueryUnescape s)"
proof (cases "query_plain c")
  case True
  then have "c \<noteq> CHR ''%''" "c \<noteq> CHR ''+''" by (auto simp: query_plain_def)
  then show ?thesis using True by (simp add: escape_char_def)
next
  case False
  have "16 * (char_val c div 16) + char_val c mod 16 = char_val c" by (rule mult_div_mod_eq)
  then have "char_of (16 * (char_val c div 16) + char_val c mod 16) = c" by simp
  then show ?thesis using False by (simp add: escape_char_def upper_hex_val)
qed

lemma QueryUnescape_escape [simp]: "QueryUnescape (QueryEscape s) = Some s"
  by (induction s) (simp_all add: QueryEscape_def QueryUnescape_escape_char)

lemma QueryEscape_chars: "c \<in> set (QueryEscape s) \<Longrightarrow> query_plain c \<or> c = CHR ''+'' \<or> c = CHR ''%''"
  by (auto simp: QueryEscape_def escape_char_def upper_hex_plain split: if_splits)

lemma QueryEscape_safe:
  "CHR ''&'' \<notin> set (QueryEscape s)" "CHR '';'' \<notin> set (QueryEscape s)" "CHR ''='' \<notin> set (QueryEscape s)"
  "CHR ''?'' \<notin> set (QueryEscape s)" "CHR ''#'' \<notin> set (QueryEscape s)"
  by (auto dest!: QueryEscape_chars simp: query_plain_def)

text \<open>Digits are their own escapes.\<close>

lemma QueryEscape_digits: "list_all is_digit s \<Longrightarrow> QueryEscape s = s"
  by (induction s) (simp_all add: QueryEscape_def escape_char_def query_plain_def is_digit_def)

lemma query_setting_escaped:
  assumes "k \<noteq> []" and "list_all query_plain k"
  shows "query_setting (k @ CHR ''='' # QueryEscape v) = Some (k, v)"
proof -
  have k: "CHR ''='' \<notin> set k" "CHR '';'' \<notin> set k" using assms(2) by (auto simp: list_all_iff query_plain_def)
  then have "split_flag (k @ CHR ''='' # QueryEscape v) = (k, Some (QueryEscape v))"
    by (induction k) (auto simp: split_flag_def)
  moreover have "QueryUnescape k = Some k"
    using assms(2) QueryUnescape_escape [of k] by (induction k) (auto simp: query_plain_def)
  ultimately show ?thesis using assms(1) k(2) QueryEscape_safe(2) by (simp add: query_setting_def)
qed

text \<open>The parts of a URL before and after the question mark, without the fragment.\<close>

definition url_base :: "string \<Rightarrow> string" where
  "url_base url = takeWhile (\<lambda>c. c \<noteq> CHR ''?'') (takeWhile (\<lambda>c. c \<noteq> CHR ''#'') url)"

definition url_query :: "string \<Rightarrow> string" where
  "url_query url = drop 1 (dropWhile (\<lambda>c. c \<noteq> CHR ''?'') (takeWhile (\<lambda>c. c \<noteq> CHR ''#'') url))"

lemma url_parts:
  assumes "CHR ''?'' \<notin> set b" and "CHR ''#'' \<notin> set b" and "CHR ''#'' \<notin> set q"
  shows "url_base (b @ CHR ''?'' # q) = b" "url_query (b @ CHR ''?'' # q) = q"
proof -
  have no_hash: "takeWhile (\<lambda>c. c \<noteq> CHR ''#'') (b @ CHR ''?'' # q) = b @ CHR ''?'' # q"
    using assms by (intro takeWhile_eq_all_conv [THEN iffD2]) auto
  have cut: "takeWhile (\<lambda>c. c \<noteq> CHR ''?'') (b @ CHR ''?'' # q) = b"
    "dropWhile (\<lambda>c. c \<noteq> CHR ''?'') (b @ CHR ''?'' # q) = CHR ''?'' # q"
    using assms(1) by (induction b) auto
  show "url_base (b @ CHR ''?'' # q) = b" "url_query (b @ CHR ''?'' # q) = q"
    unfolding url_base_def url_query_def no_hash cut by simp_all
qed

text \<open>A query of two escaped settings gives both values back.\<close>

lemma query_get_two:
  assumes "k \<noteq> []" "list_all query_plain k" "k' \<noteq> []" "list_all query_plain k'" and "k \<noteq> k'"
  shows "query_get k (k @ ''='' @ QueryEscape v @ ''&'' @ k' @ ''='' @ QueryEscape v') = v"
    "query_get k' (k @ ''='' @ QueryEscape v @ ''&'' @ k' @ ''='' @ QueryEscape v') = v'"
proof -
  let ?p = "k @ CHR ''='' # QueryEscape v" and ?p' = "k' @ CHR ''='' # QueryEscape v'"
  have "CHR ''&'' \<notin> set k" "CHR ''&'' \<notin> set k'"
    using assms(2,4) by (auto simp: list_all_iff query_plain_def)
  then have p: "CHR ''&'' \<notin> set ?p" "CHR ''&'' \<notin> set ?p'" using QueryEscape_safe(1) by auto
  have "split_on (CHR ''&'') (?p @ CHR ''&'' # ?p') = [?p, ?p']"
    using split_on_append [OF p(1), of ?p'] split_on_none [OF p(2)] by (simp only:)
  moreover have "k @ ''='' @ QueryEscape v @ ''&'' @ k' @ ''='' @ QueryEscape v' = ?p @ CHR ''&'' # ?p'" by simp
  ultimately have "List.map_filter query_setting
      (split_on (CHR ''&'') (k @ ''='' @ QueryEscape v @ ''&'' @ k' @ ''='' @ QueryEscape v')) = [(k, v), (k', v')]"
    using query_setting_escaped assms by (simp add: List.map_filter_simps)
  then show "query_get k (k @ ''='' @ QueryEscape v @ ''&'' @ k' @ ''='' @ QueryEscape v') = v"
    "query_get k' (k @ ''='' @ QueryEscape v @ ''&'' @ k' @ ''='' @ QueryEscape v') = v'"
    using assms(5) by (simp_all add: query_get_def)
qed

end
