(* ===== verification/Resource.thy ===== *)
theory Resource
  imports Tokens Go_Flag
begin

text \<open>
  The demo resource server (\<open>cmd/resd/main.go\<close>): its challenge, its resolvers over HTTP, its replay
  cache, and \<open>/whoami\<close>, which runs the enhanced or the vanilla verification. The network is a
  function \<open>fetch\<close> from the number of the request and its URL to a transport error or a status and
  a body, so it may answer differently each time.
\<close>

section \<open>State\<close>

type_synonym network = "nat \<Rightarrow> string \<Rightarrow> string + nat \<times> bytes"

record world =
  seen :: "string \<rightharpoonup> int"
  requests :: nat

record resource =
  self :: string
  rpriv :: bytes
  requireKeyRooted :: bool
  amount :: string
  scope :: "string list"

definition newReplayCache :: world where
  "newReplayCache = \<lparr>seen = Map.empty, requests = 0\<rparr>"

definition SeenJTI_resd :: "world \<Rightarrow> string \<Rightarrow> int \<Rightarrow> world \<times> bool" where
  "SeenJTI_resd w jti exp =
     (case seen w jti of
        Some _ \<Rightarrow> (w, True)
      | None \<Rightarrow> (w\<lparr>seen := (seen w)(jti \<mapsto> exp)\<rparr>, False))"

section \<open>Resolvers\<close>

text \<open>A URL and the hash pinned in its fragment; the hash is empty when there is none.\<close>

definition splitRef :: "string \<Rightarrow> string \<times> string" where
  "splitRef ref =
     (if CHR ''#'' \<in> set ref
      then let url = takeWhile (\<lambda>c. c \<noteq> CHR ''#'') ref;
               frag = tl (dropWhile (\<lambda>c. c \<noteq> CHR ''#'') ref)
           in if CHR ''='' \<in> set frag \<and> takeWhile (\<lambda>c. c \<noteq> CHR ''='') frag = ''s256''
              then (url, tl (dropWhile (\<lambda>c. c \<noteq> CHR ''='') frag))
              else (url, [])
      else (ref, []))"

definition getJSON :: "network \<Rightarrow> (json \<Rightarrow> 'a option) \<Rightarrow> world \<Rightarrow> string \<Rightarrow> world \<times> (string + 'a)" where
  "getJSON fetch of_json w url =
     (w\<lparr>requests := requests w + 1\<rparr>,
      case fetch (requests w) url of
        Inl e \<Rightarrow> Inl e
      | Inr (status, body) \<Rightarrow>
          if status \<noteq> 200 then Inl (''GET '' @ url)
          else (case json_decode body of
                  None \<Rightarrow> Inl ''json''
                | Some v \<Rightarrow> (case of_json v of None \<Rightarrow> Inl ''json'' | Some a \<Rightarrow> Inr a)))"

definition jwks_of_json :: "json \<Rightarrow> JWK slice option" where
  "jwks_of_json = into_struct [(''keys'', into_slice JWK_fields JWK_zero (\<lambda>ks _. ks))] None"

definition Key_resd :: "network \<Rightarrow> world \<Rightarrow> string \<Rightarrow> string \<Rightarrow> world \<times> (string + JWK)" where
  "Key_resd fetch w iss kid =
     (case getJSON fetch jwks_of_json w (TrimRight (CHR ''/'') iss @ ''/jwks.json'') of
        (w1, Inl e) \<Rightarrow> (w1, Inl e)
      | (w1, Inr body) \<Rightarrow>
          if length (elems body) = 0 then (w1, Inl (''jwks: no keys at '' @ iss))
          else (w1, Inr (elems body ! 0)))"

definition PSA_resd :: "ext \<Rightarrow> network \<Rightarrow> world \<Rightarrow> string \<Rightarrow> world \<times> (string + PSA)" where
  "PSA_resd E fetch w ref =
     (case splitRef ref of (url, want) \<Rightarrow>
        (case getJSON fetch PSA_of_json w url of
           (w1, Inl e) \<Rightarrow> (w1, Inl e)
         | (w1, Inr psa) \<Rightarrow>
             if want \<noteq> [] \<and> ContentHash E (PSA_json psa) \<noteq> want
             then (w1, Inl ''psa content hash mismatch'')
             else (w1, Inr psa)))"

definition AgentGrant_resd ::
  "ext \<Rightarrow> network \<Rightarrow> world \<Rightarrow> string \<Rightarrow> string \<Rightarrow> world \<times> (string + AgentGrant)" where
  "AgentGrant_resd E fetch w iss agS256 =
     (case getJSON fetch AgentGrant_of_json w (TrimRight (CHR ''/'') iss @ ''/grants/'' @ agS256) of
        (w1, Inl e) \<Rightarrow> (w1, Inl e)
      | (w1, Inr g) \<Rightarrow>
          if ContentHash E (AgentGrant_json g) \<noteq> agS256
          then (w1, Inl ''agentgrant content hash mismatch'')
          else (w1, Inr g))"

definition alwaysLive :: registry where
  "alwaysLive chainID registry root nonce = Inr False"

definition resd_verifier :: "ext \<Rightarrow> network \<Rightarrow> time \<Rightarrow> world token_verifier" where
  "resd_verifier E fetch now =
     \<lparr>Keys = Key_resd fetch, ResolvePSA = PSA_resd E fetch, ResolveGrant = AgentGrant_resd E fetch,
      Chain = \<lparr>Registry = alwaysLive, ERC1271 = None, Now = now\<rparr>, SeenJTI = SeenJTI_resd, VNow = now\<rparr>"

section \<open>Handlers\<close>

definition signResourceToken :: "ext \<Rightarrow> resource \<Rightarrow> ResourceClaims \<Rightarrow> string" where
  "signResourceToken E rs claims =
     (let hdr = json_print (JObj [(''alg'', JStr ''EdDSA''), (''kid'', JStr ''resd''),
                  (''typ'', JStr ''aa-resource+jwt'')]);
          signing = b64_raw True hdr @ ''.'' @ b64_raw True (json_print (ResourceClaims_json claims))
      in signing @ ''.'' @ b64_raw True (Ed25519Sign E (rpriv rs) signing))"

definition challenge_claims :: "resource \<Rightarrow> time \<Rightarrow> bytes \<Rightarrow> ResourceClaims" where
  "challenge_claims rs now random =
     \<lparr>rc_Iss = self rs, rc_Jti = hex_encode random, rc_Iat = Unix now,
      rc_Exp = Unix (now + 5 * Minute), rc_Scope = Some (scope rs), rc_AmountWei = amount rs\<rparr>"

definition challenge :: "ext \<Rightarrow> resource \<Rightarrow> time \<Rightarrow> bytes \<Rightarrow> nat \<times> json" where
  "challenge E rs now random =
     (let claims = challenge_claims rs now random in
      (200, JObj [(''required'', ResourceClaims_json claims),
                  (''resource_token'', JStr (signResourceToken E rs claims))]))"

fun bearer_scheme :: "ext \<Rightarrow> string list \<Rightarrow> string \<Rightarrow> string" where
  "bearer_scheme E [] h = []"
| "bearer_scheme E (sch # schs) h =
     (if HasPrefix h sch then TrimSpace (UnicodeTrim E) (drop (length sch) h) else bearer_scheme E schs h)"

definition bearer :: "ext \<Rightarrow> string \<Rightarrow> string" where
  "bearer E h = bearer_scheme E [''AAuth '', ''Bearer ''] h"

datatype resd_err = TokenErr token_err | NotKeyRooted

datatype whoami_reply =
    MissingToken
  | Forbidden resd_err bool
  | Echo string string string string bool

text \<open>The status codes of the replies.\<close>

fun reply_status :: "whoami_reply \<Rightarrow> nat" where
  "reply_status MissingToken = 401"
| "reply_status (Forbidden e b) = 403"
| "reply_status (Echo sub agent iss chain b) = 200"

definition whoami_verify ::
  "ext \<Rightarrow> world token_verifier \<Rightarrow> resource \<Rightarrow> world \<Rightarrow> string \<Rightarrow> string \<Rightarrow> world \<times> (resd_err + AuthClaims)" where
  "whoami_verify E v rs w tok thumb =
     (if requireKeyRooted rs
      then (case Verify E v w tok (self rs) thumb of
              (w1, Inl e) \<Rightarrow> (w1, Inl (TokenErr e))
            | (w1, Inr claims) \<Rightarrow>
                if PSARef claims = [] then (w1, Inl NotKeyRooted) else (w1, Inr claims))
      else (case VerifyVanilla E v w tok (self rs) thumb of
              (w1, Inl e) \<Rightarrow> (w1, Inl (TokenErr e))
            | (w1, Inr claims) \<Rightarrow> (w1, Inr claims)))"

definition whoami ::
  "ext \<Rightarrow> network \<Rightarrow> time \<Rightarrow> resource \<Rightarrow> world \<Rightarrow> string \<Rightarrow> string \<Rightarrow> world \<times> whoami_reply" where
  "whoami E fetch now rs w authorization devThumb =
     (let tok = bearer E authorization in
      if tok = [] then (w, MissingToken)
      else let thumb = TrimSpace (UnicodeTrim E) devThumb in
           (case whoami_verify E (resd_verifier E fetch now) rs w tok thumb of
              (w1, Inl e) \<Rightarrow> (w1, Forbidden e (requireKeyRooted rs))
            | (w1, Inr claims) \<Rightarrow>
                (w1, Echo (Sub claims) (Agent claims) (Iss claims)
                       (if PSARef claims \<noteq> [] then ''verified'' else ''vanilla'') (requireKeyRooted rs))))"

section \<open>Start and routes\<close>

text \<open>The flags of \<open>main\<close> and what \<open>ed25519.GenerateKey\<close> returned.\<close>

definition resd_main ::
  "string \<Rightarrow> bool \<Rightarrow> string \<Rightarrow> string \<Rightarrow> string + bytes \<times> bytes \<Rightarrow> string + resource" where
  "resd_main port keyRooted amountFlag scopeFlag generated =
     (case generated of
        Inl e \<Rightarrow> Inl e
      | Inr (_, priv) \<Rightarrow>
          Inr \<lparr>self = ''http://localhost:'' @ port, rpriv = priv, requireKeyRooted = keyRooted,
               amount = amountFlag, scope = split_on (CHR '','') scopeFlag\<rparr>)"

text \<open>The command line; arguments after the flags are not looked at.\<close>

record resd_opts =
  o_port :: string
  o_keyRooted :: bool
  o_amount :: string
  o_scope :: string

definition resd_flags :: "(string \<times> resd_opts flag) list" where
  "resd_flags =
     [(''port'', string_flag (\<lambda>x f. f\<lparr>o_port := x\<rparr>)),
      (''require-key-rooted'', bool_flag (\<lambda>x f. f\<lparr>o_keyRooted := x\<rparr>)),
      (''amount'', string_flag (\<lambda>x f. f\<lparr>o_amount := x\<rparr>)),
      (''scope'', string_flag (\<lambda>x f. f\<lparr>o_scope := x\<rparr>))]"

definition resd_run ::
  "string list \<Rightarrow> string + bytes \<times> bytes \<Rightarrow> (flag_exit + string) + resource" where
  "resd_run args generated =
     (case parse_flags resd_flags (drop 1 args)
             \<lparr>o_port = ''8095'', o_keyRooted = False, o_amount = [], o_scope = ''read:whoami''\<rparr> of
        Inl x \<Rightarrow> Inl (Inl x)
      | Inr f \<Rightarrow>
          (case resd_main (o_port f) (o_keyRooted f) (o_amount f) (o_scope f) generated of
             Inl x \<Rightarrow> Inl (Inr x) | Inr rs \<Rightarrow> Inr rs))"

text \<open>
  The flag turns enforcement on wherever it stands among the flags, and has no effect after a
  positional argument: \<open>resd 8095 --require-key-rooted\<close> serves without enforcement.
\<close>

lemma resd_enforcing:
  "resd_run [prog, ''--port'', port, ''--require-key-rooted''] (Inr (pub, priv))
     = Inr \<lparr>self = ''http://localhost:'' @ port, rpriv = priv, requireKeyRooted = True, amount = [],
            scope = [''read:whoami'']\<rparr>"
  using parse_flags_value [of "''port''" resd_flags _ port "[''--require-key-rooted'']"]
    parse_flags_bool [of "''require-key-rooted''" resd_flags _ "[]"]
  by (simp add: resd_run_def resd_main_def resd_flags_def string_flag_def bool_flag_def parse_bool_def split_on_none)

lemma resd_positional:
  assumes "x = [] \<or> hd x \<noteq> CHR ''-''" and "resd_run (prog # x # args) generated = Inr rs"
  shows "\<not> requireKeyRooted rs"
  using assms by (auto simp: resd_run_def resd_main_def parse_flags_positional split: sum.splits)

datatype resd_reply =
    ChallengeReply nat json
  | WhoamiReply whoami_reply
  | ResdMux nat

text \<open>\<open>GET /\<close> takes every path but \<open>/whoami\<close>; both take \<open>HEAD\<close> too.\<close>

definition resd_routes ::
  "ext \<Rightarrow> network \<Rightarrow> time \<Rightarrow> bytes \<Rightarrow> resource \<Rightarrow> world \<Rightarrow> string \<Rightarrow> string list \<Rightarrow> string \<Rightarrow> string
   \<Rightarrow> world \<times> resd_reply" where
  "resd_routes E fetch now random rs w meth path authorization devThumb =
     (if meth \<noteq> ''GET'' \<and> meth \<noteq> ''HEAD'' then (w, ResdMux 405)
      else if path = [''whoami'']
      then (case whoami E fetch now rs w authorization devThumb of (w1, rep) \<Rightarrow> (w1, WhoamiReply rep))
      else (case challenge E rs now random of (status, v) \<Rightarrow> (w, ChallengeReply status v)))"

section \<open>The replay cache\<close>

definition spent :: "world \<Rightarrow> string \<Rightarrow> bool" where
  "spent w jti = (seen w jti \<noteq> None)"

interpretation resd_cache: replay_cache SeenJTI_resd spent
  by unfold_locales (auto simp: SeenJTI_resd_def spent_def split: option.split)

lemma getJSON_seen [simp]: "spent (fst (getJSON fetch f w url)) = spent w"
  by (auto simp: getJSON_def spent_def)

lemma resd_uses_cache: "uses_cache SeenJTI_resd spent (resd_verifier E fetch now)"
proof -
  have get: "getJSON fetch f w url = (w1, r) \<Longrightarrow> spent w1 = spent w" for f w url w1 r
    using getJSON_seen [of fetch f w url] by simp
  show ?thesis
    by (auto simp: uses_cache_def resd_verifier_def Key_resd_def PSA_resd_def AgentGrant_resd_def
        split: prod.split sum.split dest!: get)
qed

section \<open>What the resolvers return\<close>

lemma splitRef_pinned:
  "CHR ''#'' \<notin> set url \<Longrightarrow> splitRef (url @ ''#s256='' @ h) = (url, h)"
proof -
  assume url: "CHR ''#'' \<notin> set url"
  then have ne: "c \<in> set url \<Longrightarrow> c \<noteq> CHR ''#''" for c by blast
  have "takeWhile (\<lambda>c. c \<noteq> CHR ''#'') (url @ ''#s256='' @ h) = url"
    using ne by (subst takeWhile_append2) auto
  moreover have "dropWhile (\<lambda>c. c \<noteq> CHR ''#'') (url @ ''#s256='' @ h) = ''#s256='' @ h"
    using ne by (subst dropWhile_append2) auto
  ultimately show ?thesis by (simp add: splitRef_def Let_def)
qed

lemma PSA_resd_pinned:
  "PSA_resd E fetch w ref = (w', Inr psa) \<Longrightarrow> snd (splitRef ref) \<noteq> [] \<Longrightarrow>
   ContentHash E (PSA_json psa) = snd (splitRef ref)"
  by (auto simp: PSA_resd_def split: prod.splits sum.splits if_splits)

lemma AgentGrant_resd_pinned:
  "AgentGrant_resd E fetch w iss h = (w', Inr g) \<Longrightarrow> ContentHash E (AgentGrant_json g) = h"
  by (auto simp: AgentGrant_resd_def split: prod.splits sum.splits if_splits)

text \<open>A network that gives the same answer to every request for the same URL.\<close>

definition stable_network :: "network \<Rightarrow> bool" where
  "stable_network fetch = (\<forall>n n' url. fetch n url = fetch n' url)"

lemma getJSON_stable: "stable_network fetch \<Longrightarrow> snd (getJSON fetch f w url) = snd (getJSON fetch f w' url)"
  unfolding getJSON_def stable_network_def snd_conv by metis

lemma stable_resd: "stable_network fetch \<Longrightarrow> stable_keys (Keys (resd_verifier E fetch now))"
  unfolding stable_keys_def
proof (intro allI)
  fix w w' iss kid
  assume "stable_network fetch"
  from getJSON_stable [OF this, of jwks_of_json w "TrimRight (CHR ''/'') iss @ ''/jwks.json''" w']
  show "snd (Keys (resd_verifier E fetch now) w iss kid) = snd (Keys (resd_verifier E fetch now) w' iss kid)"
    by (auto simp: resd_verifier_def Key_resd_def split: prod.splits sum.splits)
qed
section \<open>A concrete network\<close>

text \<open>A server that serves the key, the authorization and the grant of the sample token.\<close>

definition served :: "json \<Rightarrow> string + nat \<times> bytes" where
  "served v = Inr (200, json_print v @ ''\<newline>'')"

definition sample_fetch :: network where
  "sample_fetch n url =
     (if url = ''https://ps/jwks.json'' then served (JObj [(''keys'', JArr [JWK_json sample_jwk])])
      else if url = ''https://ps/psa/r'' then served (PSA_json issued_psa)
      else if HasPrefix url ''https://ps/grants/'' then served (AgentGrant_json issued_grant)
      else Inl ''no such host'')"

definition sample_resource :: resource where
  "sample_resource = \<lparr>self = ''https://res'', rpriv = [], requireKeyRooted = True, amount = ''50'',
     scope = [''pay'']\<rparr>"

lemma getJSON_served:
  assumes "fetch (requests w) url = served v" and "json_clean v" "json_depth v \<le> max_depth"
    and "of_json v = Some a"
  shows "snd (getJSON fetch of_json w url) = Inr a"
  using assms json_decode_print by (simp add: getJSON_def served_def)

lemma stable_sample: "stable_network sample_fetch"
  by (simp add: stable_network_def sample_fetch_def)

lemma issued_clean:
  "json_clean (PSA_json issued_psa)" "json_clean (AgentGrant_json issued_grant)"
  "PSA_in_range issued_psa" "AgentGrant_in_range issued_grant"
  by (simp_all add: PSA_json_def Scope_json_def json_strings_def PSA_in_range_def in_i64_def
      AgentGrant_json_def AgentGrant_in_range_def omitempty_def issued_psa_def issued_grant_def
      sample_psa_unsigned_def sample_grant_unsigned_def sample_root_def Thumbprint_def)

lemma issued_signed: "PSA_signed sample_ext v issued_psa" "AgentGrant_signed sample_ext v issued_grant"
  unfolding issued_psa_def issued_grant_def
  by (rule sample_psa_signed, simp add: sample_psa_unsigned_def)
    (rule sample_grant_signed, simp add: sample_grant_unsigned_def)

lemma sample_jwks: "snd (Key_resd sample_fetch w ''https://ps'' kid) = Inr sample_jwk"
proof -
  have url: "TrimRight (CHR ''/'') ''https://ps'' @ ''/jwks.json'' = ''https://ps/jwks.json''"
    by (simp add: TrimRight_def)
  have v: "json_clean (JObj [(''keys'', JArr [JWK_json sample_jwk])])"
    "json_depth (JObj [(''keys'', JArr [JWK_json sample_jwk])]) \<le> max_depth"
    "jwks_of_json (JObj [(''keys'', JArr [JWK_json sample_jwk])]) = Some (Some [sample_jwk])"
    by (simp_all add: JWK_json_def sample_jwk_def max_depth_def jwks_of_json_def into_slice_def
        JWK_fields_def find_field_def JWK_zero_def)
  have "snd (getJSON sample_fetch jwks_of_json w ''https://ps/jwks.json'') = Inr (Some [sample_jwk])"
    using v by (intro getJSON_served [where v = "JObj [(''keys'', JArr [JWK_json sample_jwk])]"])
      (simp_all add: sample_fetch_def)
  then show ?thesis by (auto simp: Key_resd_def url split: prod.splits sum.splits)
qed

lemma sample_psa_ref:
  "PSARef sample_claims = ''https://ps/psa/r'' @ ''#s256='' @ ContentHash sample_ext (PSA_json issued_psa)"
  "AgS256 sample_claims = ContentHash sample_ext (AgentGrant_json issued_grant)"
  by (simp_all add: sample_input_def)

lemma sample_psa_served: "snd (PSA_resd sample_ext sample_fetch w (PSARef sample_claims)) = Inr issued_psa"
proof -
  have "snd (getJSON sample_fetch PSA_of_json w ''https://ps/psa/r'') = Inr issued_psa"
    using issued_clean PSA_json_depth PSA_of_json_PSA_json
    by (intro getJSON_served [where v = "PSA_json issued_psa"]) (simp_all add: sample_fetch_def)
  moreover have "splitRef (PSARef sample_claims)
      = (''https://ps/psa/r'', ContentHash sample_ext (PSA_json issued_psa))"
    unfolding sample_psa_ref(1) by (rule splitRef_pinned) simp
  ultimately show ?thesis by (auto simp: PSA_resd_def split: prod.splits sum.splits)
qed

lemma sample_grant_served:
  "snd (AgentGrant_resd sample_ext sample_fetch w ''https://ps'' (AgS256 sample_claims)) = Inr issued_grant"
proof -
  let ?h = "AgS256 sample_claims"
  have url: "TrimRight (CHR ''/'') ''https://ps'' @ ''/grants/'' @ ?h = ''https://ps/grants/'' @ ?h"
    by (simp add: TrimRight_def)
  have "sample_fetch n (''https://ps/grants/'' @ ?h) = served (AgentGrant_json issued_grant)" for n
    by (simp add: sample_fetch_def HasPrefix_def)
  then have "snd (getJSON sample_fetch AgentGrant_of_json w (''https://ps/grants/'' @ ?h)) = Inr issued_grant"
    using issued_clean AgentGrant_json_depth AgentGrant_of_json_AgentGrant_json
    by (intro getJSON_served [where v = "AgentGrant_json issued_grant"]) auto
  then show ?thesis
    unfolding AgentGrant_resd_def url
    by (auto simp: sample_psa_ref(2) [simplified] split: prod.splits sum.splits)
qed

definition sample_auth :: string where
  "sample_auth = ''AAuth '' @ signJWT sample_ext sample_key ''auth+jwt'' (AuthClaims_json sample_claims)"

lemma TrimSpace_clean: "\<forall>c \<in> set s. \<not> is_space c \<and> char_val c < 128 \<Longrightarrow> TrimSpace uni s = s"
proof -
  assume s: "\<forall>c \<in> set s. \<not> is_space c \<and> char_val c < 128"
  then have "dropWhile is_space s = s" "dropWhile is_space (rev s) = rev s"
    unfolding dropWhile_eq_self_iff by (metis hd_in_set set_rev rev_is_Nil_conv)+
  moreover have "s \<noteq> [] \<Longrightarrow> char_val (hd s) < 128 \<and> char_val (last s) < 128" using s by simp
  ultimately show ?thesis by (auto simp: TrimSpace_def Let_def)
qed

lemma b64_not_space: "c \<in> set (b64_raw url bs) \<Longrightarrow> \<not> is_space c \<and> char_val c < 128"
  using set_b64_raw [of c url bs] by (auto simp: b64_class_def is_space_def Let_def)

lemma bearer_signed: "bearer E (''AAuth '' @ signJWT E k typ c) = signJWT E k typ c"
proof -
  have "\<not> is_space c' \<and> char_val c' < 128" if "c' \<in> set (signJWT E k typ c)" for c'
    using that by (auto simp: signJWT_def Let_def is_space_def dest: b64_not_space)
  then show ?thesis by (simp add: bearer_def HasPrefix_def TrimSpace_clean)
qed

lemma TrimSpace_Thumbprint: "TrimSpace u (Thumbprint E k) = Thumbprint E k"
  using b64_not_space by (intro TrimSpace_clean) (auto simp: Thumbprint_def)

lemma sample_bearer:
  "bearer sample_ext sample_auth = signJWT sample_ext sample_key ''auth+jwt'' (AuthClaims_json sample_claims)"
  "TrimSpace u (Thumbprint sample_ext k) = Thumbprint sample_ext k"
  by (simp_all only: sample_auth_def bearer_signed TrimSpace_Thumbprint)

lemma sample_resd_verifies:
  "snd (Verify sample_ext (resd_verifier sample_ext sample_fetch (1000 * Second)) newReplayCache
     (bearer sample_ext sample_auth) ''https://res'' (Thumbprint sample_ext sample_agent_jwk))
   = Inr sample_claims"
proof -
  let ?v = "resd_verifier sample_ext sample_fetch (1000 * Second)"
  have m: "mi_PSA sample_input = issued_psa" "mi_Grant sample_input = issued_grant"
    "mi_AgentID sample_input = ''aauth:a@b''" "mi_AgentKey sample_input = sample_agent_jwk"
    "rc_Iss (mi_Resource sample_input) = ''https://res''" "Pub sample_key = sample_jwk"
    by (simp_all add: sample_input_def sample_key_def)
  have chain: "VerifyPSA sample_ext (Chain ?v) issued_psa ''https://ps'' (Thumbprint sample_ext sample_jwk) = Inr ()"
    "VerifyAgentGrant sample_ext (Chain ?v) issued_grant sample_root ''aauth:a@b''
       (Thumbprint sample_ext sample_agent_jwk) = Inr ()"
    using issued_verify issued_signed
    by (simp_all add: VerifyPSA_accepts VerifyAgentGrant_accepts resd_verifier_def alwaysLive_def
        sample_verifier_def)
  have "spent newReplayCache (newJTI ''xy'') = False"
    by (simp add: spent_def newReplayCache_def)
  then have fresh: "\<not> snd (SeenJTI ?v (fst (Keys ?v newReplayCache ''https://ps'' (Kid sample_key))) (newJTI ''xy'')
      (Exp sample_claims))"
    using resd_uses_cache resd_cache.seen_verdict by (simp add: uses_cache_def)
  have "snd (Verify sample_ext ?v newReplayCache
      (signJWT sample_ext sample_key ''auth+jwt'' (AuthClaims_json sample_claims))
      (rc_Iss (mi_Resource sample_input)) (Thumbprint sample_ext (mi_AgentKey sample_input))) = Inr sample_claims"
  proof (rule minted_verifies [OF sample_mint sample_claims_clean])
    show "AuthClaims_in_range sample_claims"
      unfolding AuthClaims_in_range_def sample_claims_lifetime by (simp add: in_i64_def)
    show "Unix (VNow ?v) < Exp sample_claims"
      unfolding sample_claims_lifetime by (simp add: resd_verifier_def Unix_def Second_def)
    show "holds_key sample_ext sample_key (Pub sample_key)" using sample_holds_key by (simp add: m)
  qed (use chain fresh sample_jwks sample_psa_served sample_grant_served in
      \<open>simp_all add: m, simp_all add: resd_verifier_def sample_key_def sample_root_def sample_input_def\<close>)
  then show ?thesis by (simp add: m sample_bearer)
qed

lemma sample_token_long: "bearer sample_ext sample_auth \<noteq> []"
  by (simp add: sample_bearer signJWT_def Let_def)

lemma sample_whoami:
  obtains w' where "whoami sample_ext sample_fetch (1000 * Second) sample_resource newReplayCache sample_auth
     (Thumbprint sample_ext sample_agent_jwk)
     = (w', Echo (Sub sample_claims) (Agent sample_claims) (Iss sample_claims) ''verified'' True)"
proof -
  obtain w' where w': "Verify sample_ext (resd_verifier sample_ext sample_fetch (1000 * Second)) newReplayCache
     (bearer sample_ext sample_auth) ''https://res'' (Thumbprint sample_ext sample_agent_jwk)
     = (w', Inr sample_claims)"
    using sample_resd_verifies by (metis prod.collapse)
  have rs: "requireKeyRooted sample_resource" "self sample_resource = ''https://res''"
    by (simp_all add: sample_resource_def)
  have "PSARef sample_claims \<noteq> []" unfolding sample_psa_ref by simp
  then show thesis
    using w' rs sample_token_long
    by (intro that [of w']) (simp add: whoami_def whoami_verify_def Let_def sample_bearer(2) del: mintClaims_simps)
qed

lemma Verify_vanilla:
  "Verify E v w raw aud thumb = (w', Inr c) \<Longrightarrow> \<exists>w1. VerifyVanilla E v w raw aud thumb = (w1, Inr c)"
  by (auto simp: Verify_def VerifyVanilla_def split: prod.splits sum.splits if_splits dest: Layer2_same)

section \<open>Properties\<close>

text \<open>One request at a time: whatever is presented to the resource server, in whatever order, at
  whatever times and with whatever answers of the network, in the enhanced or the vanilla mode, no
  two accepted tokens have the same id, and none has an id the cache had already seen.\<close>

theorem token_spent_once:
  assumes "\<forall>(v, _) \<in> set ps. \<exists>fetch now. v = resd_verifier E fetch now"
  shows "distinct (map Jti (accepted E ps w)) \<and> (\<forall>c \<in> set (accepted E ps w). seen w (Jti c) = None)"
proof -
  have "\<forall>(v, _) \<in> set ps. uses_cache SeenJTI_resd spent v"
    using assms resd_uses_cache by fastforce
  from resd_cache.accepted_once [OF this] show ?thesis by (simp add: spent_def)
qed

theorem token_spent_once_witness:
  "distinct (map Jti (accepted sample_ext
      [(resd_verifier sample_ext (\<lambda>n url. Inl ''offline'') 0, True, ''a.b.c'', ''https://res'', ''t''),
       (resd_verifier sample_ext (\<lambda>n url. Inr (200, ''{}'')) 1, False, ''a.b.c'', ''https://res'', ''t'')]
      newReplayCache))"
  using token_spent_once
    [of "[(resd_verifier sample_ext (\<lambda>n url. Inl ''offline'') 0, True, ''a.b.c'', ''https://res'', ''t''),
       (resd_verifier sample_ext (\<lambda>n url. Inr (200, ''{}'')) 1, False, ''a.b.c'', ''https://res'', ''t'')]"
      sample_ext newReplayCache]
  by auto

text \<open>One request at a time: a resource server started with \<open>--require-key-rooted\<close> answers
  200 only for a token whose chain is closed: root, issuer key, token and agent key, with the
  authorization and the grant it fetched being the ones whose hashes the token carries (the
  authorization when the token pins one).\<close>

theorem require_key_rooted_enforced:
  assumes "whoami E fetch now rs w auth devThumb = (w', reply)" and "reply_status reply = 200"
    and "requireKeyRooted rs" and "stable_network fetch"
  shows "\<exists>c. reply = Echo (Sub c) (Agent c) (Iss c) ''verified'' True
     \<and> key_rooted E (resd_verifier E fetch now) (bearer E auth) (self rs) (TrimSpace (UnicodeTrim E) devThumb) c
     \<and> (\<exists>psa w1 w2. PSA_resd E fetch w1 (PSARef c) = (w2, Inr psa)
          \<and> (snd (splitRef (PSARef c)) \<noteq> [] \<longrightarrow> ContentHash E (PSA_json psa) = snd (splitRef (PSARef c))))
     \<and> (\<exists>g w1 w2. AgentGrant_resd E fetch w1 (Iss c) (AgS256 c) = (w2, Inr g)
          \<and> ContentHash E (AgentGrant_json g) = AgS256 c)"
proof -
  let ?v = "resd_verifier E fetch now" and ?thumb = "TrimSpace (UnicodeTrim E) devThumb"
  obtain c where c: "Verify E ?v w (bearer E auth) (self rs) ?thumb = (w', Inr c)" "PSARef c \<noteq> []"
    "reply = Echo (Sub c) (Agent c) (Iss c) ''verified'' True"
    using assms(1-3)
    by (auto simp: whoami_def whoami_verify_def Let_def split: if_splits prod.splits sum.splits)
  have kr: "key_rooted E ?v (bearer E auth) (self rs) ?thumb c"
    using Verify_key_rooted [OF c(1,2) stable_resd [OF assms(4)]] .
  then obtain psa g w1 w2 w3 w4 where r: "ResolvePSA ?v w1 (PSARef c) = (w2, Inr psa)"
    "ResolveGrant ?v w3 (Iss c) (AgS256 c) = (w4, Inr g)"
    unfolding key_rooted_def by blast
  have psa: "PSA_resd E fetch w1 (PSARef c) = (w2, Inr psa)"
    and g: "AgentGrant_resd E fetch w3 (Iss c) (AgS256 c) = (w4, Inr g)"
    using r by (simp_all add: resd_verifier_def)
  show ?thesis
    using c(3) kr psa g PSA_resd_pinned [OF psa] AgentGrant_resd_pinned [OF g] by blast
qed

theorem require_key_rooted_enforced_witness:
  "\<exists>w' c. whoami sample_ext sample_fetch (1000 * Second) sample_resource newReplayCache sample_auth
            (Thumbprint sample_ext sample_agent_jwk) = (w', Echo (Sub c) (Agent c) (Iss c) ''verified'' True)
     \<and> key_rooted sample_ext (resd_verifier sample_ext sample_fetch (1000 * Second))
         (bearer sample_ext sample_auth) ''https://res'' (Thumbprint sample_ext sample_agent_jwk) c"
proof -
  obtain w' where w': "whoami sample_ext sample_fetch (1000 * Second) sample_resource newReplayCache sample_auth
      (Thumbprint sample_ext sample_agent_jwk)
      = (w', Echo (Sub sample_claims) (Agent sample_claims) (Iss sample_claims) ''verified'' True)"
    by (rule sample_whoami)
  then have "requireKeyRooted sample_resource" "self sample_resource = ''https://res''"
    "reply_status (Echo (Sub sample_claims) (Agent sample_claims) (Iss sample_claims) ''verified'' True) = 200"
    by (simp_all add: sample_resource_def)
  then show ?thesis
    using require_key_rooted_enforced [OF w' _ _ stable_sample] w' sample_bearer(2) by force
qed

text \<open>C37: without \<open>--require-key-rooted\<close> the second layer never runs,
  and yet the reply says that the chain is verified for every accepted token that merely carries an
  authorization reference, whatever the reference leads to.\<close>

theorem vanilla_reply_claims_verified:
  assumes "\<not> requireKeyRooted rs" and "bearer E auth \<noteq> []"
    and "VerifyVanilla E (resd_verifier E fetch now) w (bearer E auth) (self rs)
           (TrimSpace (UnicodeTrim E) devThumb) = (w', Inr c)"
    and "PSARef c \<noteq> []"
  shows "whoami E fetch now rs w auth devThumb
         = (w', Echo (Sub c) (Agent c) (Iss c) ''verified'' False)"
  using assms by (simp add: whoami_def whoami_verify_def Let_def)

theorem vanilla_reply_claims_verified_witness:
  "\<exists>w'. whoami sample_ext sample_fetch (1000 * Second) (sample_resource\<lparr>requireKeyRooted := False\<rparr>)
     newReplayCache sample_auth (Thumbprint sample_ext sample_agent_jwk)
     = (w', Echo (Sub sample_claims) (Agent sample_claims) (Iss sample_claims) ''verified'' False)"
proof -
  obtain w1 where "VerifyVanilla sample_ext (resd_verifier sample_ext sample_fetch (1000 * Second)) newReplayCache
     (bearer sample_ext sample_auth) ''https://res'' (Thumbprint sample_ext sample_agent_jwk)
     = (w1, Inr sample_claims)"
    using sample_resd_verifies Verify_vanilla by (metis prod.collapse)
  moreover have "self (sample_resource\<lparr>requireKeyRooted := False\<rparr>) = ''https://res''"
    by (simp add: sample_resource_def)
  moreover have "PSARef sample_claims \<noteq> []" unfolding sample_psa_ref by simp
  ultimately have "whoami sample_ext sample_fetch (1000 * Second) (sample_resource\<lparr>requireKeyRooted := False\<rparr>)
     newReplayCache sample_auth (Thumbprint sample_ext sample_agent_jwk)
     = (w1, Echo (Sub sample_claims) (Agent sample_claims) (Iss sample_claims) ''verified'' False)"
    using sample_token_long sample_bearer(2)
    by (intro vanilla_reply_claims_verified) simp_all
  then show ?thesis by blast
qed

end
