(* ===== verification/Json_Texts.thy ===== *)
theory Json_Texts
  imports Json_Read
begin

text \<open>
  What the JSON reader accepts is well-formed text: every string it returns is valid UTF-8, since
  escapes and malformed bytes are replaced while reading. A value read back and printed again is
  therefore the same value, which is how the server keeps a request's claims between the approval
  and the mint.
\<close>

section \<open>Strings\<close>

lemma utf8_ok_append: "utf8_ok s \<Longrightarrow> utf8_ok (s @ t) = utf8_ok t"
proof (induction s rule: utf8_ok.induct)
  case (2 c s)
  show ?case
  proof (cases "char_val c < 128")
    case True
    then show ?thesis using 2 by simp
  next
    case False
    let ?w = "utf8_width (c # s)"
    have w: "?w \<noteq> 0" and ok: "utf8_ok (drop (?w - 1) s)" using 2(3) False by simp_all
    then have len: "?w - 1 \<le> length s" using utf8_width_bounds [OF w] by linarith
    have "utf8_width (take ?w (c # s) @ drop ?w (c # s) @ t) = ?w"
      by (rule utf8_width_take [OF w])
    then have "utf8_width (c # s @ t) = ?w"
      by (metis append.assoc append_Cons append_take_drop_id)
    then show ?thesis using 2(2) [OF False ok] False w len by simp
  qed
qed simp

lemma utf8_ok_take:
  assumes "utf8_width (c # s) \<noteq> 0" and "128 \<le> char_val c"
  shows "utf8_ok (take (utf8_width (c # s)) (c # s))"
proof -
  let ?w = "utf8_width (c # s)"
  have b: "2 \<le> ?w" "?w \<le> Suc (length s)" using utf8_width_bounds [OF assms(1)] by simp_all
  then have t: "take ?w (c # s) = c # take (?w - 1) s" by (cases ?w) simp_all
  have "utf8_width (c # take (?w - 1) s) = ?w"
    using utf8_width_take [OF assms(1), of "[]"] t by simp
  then show ?thesis using t assms by simp
qed

lemma utf8_ok_replacement [simp]: "utf8_ok replacement"
  by (simp add: replacement_def utf8_width_def rune2_def rune3_def utf8_cont_def)

lemma digits64: "(u :: nat) = u div 4096 * 4096 + u div 64 mod 64 * 64 + u mod 64"
proof -
  have "u = u div 64 * 64 + u mod 64" by simp
  moreover have "u div 64 = u div 64 div 64 * 64 + u div 64 mod 64" by simp
  moreover have "u div 64 div 64 = u div 4096" by (simp add: div_mult2_eq [symmetric])
  ultimately show ?thesis by linarith
qed

lemma digits64_top: "(u :: nat) div 4096 = u div 262144 * 64 + u div 4096 mod 64"
proof -
  have "u div 4096 = u div 4096 div 64 * 64 + u div 4096 mod 64" by simp
  moreover have "u div 4096 div 64 = u div 262144" by (simp add: div_mult2_eq [symmetric])
  ultimately show ?thesis by linarith
qed

lemma utf8_ok_encode:
  assumes "u < 1114112" and "\<not> (55296 \<le> u \<and> u < 57344)"
  shows "utf8_ok (utf8_encode u)"
proof -
  consider "u < 128" | "128 \<le> u" "u < 2048" | "2048 \<le> u" "u < 65536" | "65536 \<le> u" by linarith
  then show ?thesis
  proof cases
    case 1
    then show ?thesis by (simp add: utf8_encode_def)
  next
    case 2
    then have "u div 64 < 32" "2 \<le> u div 64" by auto
    then show ?thesis using 2 by (simp add: utf8_encode_def utf8_width_def rune2_def utf8_cont_def)
  next
    case 3
    define a b c where abc: "a = u div 4096" "b = u div 64 mod 64" "c = u mod 64"
    have "u = a * 4096 + b * 64 + c" unfolding abc using digits64 [of u] by simp
    moreover have "b < 64" "c < 64" "a < 16" using 3 unfolding abc by auto
    ultimately show ?thesis using 3 assms(2)
      unfolding utf8_encode_def abc [symmetric]
      by (auto simp: utf8_width_def rune2_def rune3_def utf8_cont_def)
  next
    case 4
    define a b c d where abcd: "a = u div 262144" "b = u div 4096 mod 64" "c = u div 64 mod 64" "d = u mod 64"
    have "u = a * 262144 + b * 4096 + c * 64 + d"
      unfolding abcd using digits64 [of u] digits64_top [of u] by simp
    moreover have "b < 64" "c < 64" "d < 64" "a < 5" using 4 assms(1) unfolding abcd by auto
    ultimately show ?thesis using 4 assms(1)
      unfolding utf8_encode_def abcd [symmetric]
      by (auto simp: utf8_width_def rune2_def rune3_def rune4_def utf8_cont_def)
  qed
qed

lemma hex_val_less: "hex_val c = Some n \<Longrightarrow> n < 16"
  by (auto simp: hex_val_def Let_def split: if_splits)

lemma hex4_less: "hex4 s = Some u \<Longrightarrow> u < 65536"
  by (auto simp: hex4_def split: list.splits option.splits dest!: hex_val_less)

lemma surrogate_pair_range:
  "surrogate_pair u s = Some p \<Longrightarrow> 55296 \<le> u \<Longrightarrow> 65536 \<le> p \<and> p < 1114112"
  by (auto simp: surrogate_pair_def split: list.splits option.splits if_splits)

lemma simple_escape_ok: "simple_escape e = Some x \<Longrightarrow> utf8_ok x"
  by (auto simp: simple_escape_def dquote_def bslash_def split: if_splits)

lemma cons_text_Some: "cons_text x m = Some (y, r) \<longleftrightarrow> (\<exists>z. m = Some (z, r) \<and> y = x @ z)"
  by (cases m) auto

lemma read_string_ok: "read_string s = Some (x, r) \<Longrightarrow> utf8_ok x"
proof (induction "length s" arbitrary: s x r rule: less_induct)
  case less
  obtain c t where s: "s = c # t" using less.prems by (cases s) auto
  have join: "utf8_ok x" if "cons_text y (read_string t') = Some (x, r)" "utf8_ok y" "length t' < length s" for y t'
    using that less.hyps utf8_ok_append by (auto simp: cons_text_Some)
  have escape: "utf8_ok x" if b: "c = bslash" and n: "c \<noteq> dquote"
  proof -
    obtain e u where t: "t = e # u" using less.prems s b n by (auto split: list.splits)
    show ?thesis
    proof (cases "simple_escape e")
      case (Some y)
      then show ?thesis using less.prems s b n t join [OF _ simple_escape_ok [OF Some], of u] by simp
    next
      case None
      then obtain h where h: "e = CHR ''u''" "hex4 u = Some h"
        using less.prems s b n t by (auto split: if_splits option.splits)
      note eq = less.prems [unfolded s t]
      have short: "length (drop k u) < length s" for k using s t by simp
      consider "\<not> (55296 \<le> h \<and> h < 57344)"
        | p where "55296 \<le> h" "h < 57344" "surrogate_pair h (drop 4 u) = Some p"
        | "55296 \<le> h" "h < 57344" "surrogate_pair h (drop 4 u) = None"
        by (cases "surrogate_pair h (drop 4 u)") auto
      then show ?thesis
      proof cases
        case 1
        then show ?thesis
          using eq b n None h hex4_less [OF h(2)] by (intro join [of "utf8_encode h" "drop 4 u"] utf8_ok_encode short) auto
      next
        case 2
        then show ?thesis
          using eq b n None h surrogate_pair_range [OF 2(3,1)]
          by (intro join [of "utf8_encode p" "drop 10 u"] utf8_ok_encode short) auto
      next
        case 3
        then show ?thesis
          using eq b n None h by (intro join [of replacement "drop 4 u"] utf8_ok_replacement short) auto
      qed
    qed
  qed
  show ?case
  proof (cases "c = bslash \<or> c = dquote \<or> char_val c < 128")
    case True
    then show ?thesis
      using escape less.prems s join [of "[c]" t] by (auto split: if_splits)
  next
    case False
    then show ?thesis
      using less.prems s join [of replacement t] join [OF _ utf8_ok_take, of c t "drop (utf8_width (c # t) - 1) t"]
      by (auto split: if_splits)
  qed
qed

section \<open>Values\<close>

fun json_texts_ok :: "json \<Rightarrow> bool" where
  "json_texts_ok (JStr s) = utf8_ok s"
| "json_texts_ok (JArr vs) = list_all json_texts_ok vs"
| "json_texts_ok (JObj ms) = list_all (\<lambda>(k, v). utf8_ok k \<and> json_texts_ok v) ms"
| "json_texts_ok v = True"

lemma read_number_ok: "read_number s = Some (v, r) \<Longrightarrow> json_texts_ok v"
  by (auto simp: read_number_def Let_def split: option.splits prod.splits if_splits list.splits)

lemma read_literal_ok: "read_literal l w s = Some (v, r) \<Longrightarrow> v = w"
  by (simp add: read_literal_def split: if_splits)

lemma read_ok:
  "read_value n d s = Some (v, r) \<Longrightarrow> json_texts_ok v"
  "read_elems n d s = Some (vs, r) \<Longrightarrow> list_all json_texts_ok vs"
  "read_members n d s = Some (ms, r) \<Longrightarrow> list_all (\<lambda>(k, v). utf8_ok k \<and> json_texts_ok v) ms"
proof (induction n d s and n d s and n d s arbitrary: v r and vs r and ms r
    rule: read_value_read_elems_read_members.induct)
  case (2 n d s)
  then show ?case
    by (fastforce dest: read_string_ok read_number_ok read_literal_ok
        split: list.splits if_splits option.splits nat.splits)
next
  case (4 n d s)
  then show ?case by (fastforce split: list.splits if_splits option.splits)
next
  case (6 n d s)
  then show ?case by (fastforce dest: read_string_ok split: list.splits if_splits option.splits)
qed simp_all

lemma json_unmarshal_ok: "json_unmarshal s = Some v \<Longrightarrow> json_texts_ok v"
  by (auto simp: json_unmarshal_def simp del: read_value.simps split: option.splits if_splits dest: read_ok(1))

lemma json_decode_ok: "json_decode s = Some v \<Longrightarrow> json_texts_ok v"
  by (auto simp: json_decode_def simp del: read_value.simps dest: read_ok(1))

text \<open>What a struct inherits from the value stored into it, member by member.\<close>

lemma store_members_inv:
  assumes "store_members fs ms a = Some b" and "P a" and "list_all (\<lambda>(k, v). Q v) ms"
    and "\<And>k f v x y. find_field fs k = Some f \<Longrightarrow> Q v \<Longrightarrow> P x \<Longrightarrow> f v x = Some y \<Longrightarrow> P y"
  shows "P b"
  using assms(1-3)
proof (induction ms arbitrary: a)
  case (Cons m ms)
  obtain k v where m: "m = (k, v)" by (cases m)
  show ?case
  proof (cases "find_field fs k")
    case (Some f)
    then obtain a' where a': "f v a = Some a'" "store_members fs ms a' = Some b"
      using Cons.prems m by (auto split: option.splits)
    then have "P a'" using assms(4) [OF Some _ _ a'(1)] Cons.prems m by simp
    then show ?thesis using Cons.IH [OF a'(2)] Cons.prems by simp
  qed (use Cons m in auto)
qed simp

lemma find_field_set:
  "find_field fs k = Some f \<Longrightarrow> f \<in> snd ` set fs"
  by (force simp: find_field_def split: option.splits dest!: map_of_SomeD)

lemma into_elems_ok: "into_elems vs = Some xs \<Longrightarrow> list_all json_texts_ok vs \<Longrightarrow> list_all utf8_ok xs"
  by (induction vs arbitrary: xs rule: into_elems.induct) auto

lemma json_clean_strings: "list_all utf8_ok (elems s) \<Longrightarrow> json_clean (json_strings s)"
  by (cases s) (simp_all add: json_strings_def list_all_iff)

end
