(* ===== verification/Documents.thy ===== *)
theory Documents
  imports Tokens Json_Texts
begin

text \<open>
  The documents read from the wire: whatever JSON an authorization, a grant or the claims of a
  resource token are read from, printing them and reading the text again gives the same document.
\<close>

section \<open>Setters\<close>

text \<open>A predicate every setter of a struct keeps holds of the struct that is read.\<close>

lemma into_struct_inv:
  assumes "into_struct fs zero v = Some b" and "json_texts_ok v" and "P zero"
    and keep: "\<And>f w x y. f \<in> snd ` set fs \<Longrightarrow> json_texts_ok w \<Longrightarrow> P x \<Longrightarrow> f w x = Some y \<Longrightarrow> P y"
  shows "P b"
proof -
  have "P b" if m: "store_members fs ms zero = Some b" and ok: "list_all (\<lambda>(k, v). utf8_ok k \<and> json_texts_ok v) ms" for ms
  proof -
    have "list_all (\<lambda>(k, v). json_texts_ok v) ms" using ok by (auto simp: list_all_iff)
    from store_members_inv [where P = P and Q = json_texts_ok, OF m assms(3) this]
    show ?thesis using keep find_field_set by metis
  qed
  then show ?thesis
    using assms(1-3) unfolding into_struct_def by (auto split: json.splits)
qed

lemma into_string_ok:
  "into_string upd v a = Some b \<Longrightarrow> json_texts_ok v \<Longrightarrow> b = a \<or> (\<exists>s. utf8_ok s \<and> b = upd s a)"
  by (auto simp: into_string_def split: json.splits)

lemma into_int64_ok: "into_int64 upd v a = Some b \<Longrightarrow> b = a \<or> (\<exists>n. in_i64 n \<and> b = upd n a)"
  by (auto simp: into_int64_def split: json.splits if_splits)

lemma into_uint64_ok: "into_uint64 upd v a = Some b \<Longrightarrow> b = a \<or> (\<exists>n. b = upd n a)"
  by (auto simp: into_uint64_def split: json.splits if_splits)

lemma into_strings_ok:
  assumes "into_strings upd v a = Some b" and "json_texts_ok v"
  shows "\<exists>xs. list_all utf8_ok (elems xs) \<and> b = upd xs a"
proof (cases v)
  case JNull
  then have "b = upd None a" using assms(1) by (simp add: into_strings_def)
  then show ?thesis by (intro exI [of _ None]) simp
next
  case (JArr vs)
  then obtain xs where "into_elems vs = Some xs" "b = upd (Some xs) a"
    using assms(1) by (auto simp: into_strings_def split: option.splits)
  then show ?thesis using assms(2) JArr into_elems_ok by (intro exI [of _ "Some xs"]) simp
qed (use assms in \<open>simp_all add: into_strings_def\<close>)

lemma into_bytes_ok: "into_bytes upd v a = Some b \<Longrightarrow> \<exists>bs. b = upd bs a"
  by (auto simp: into_bytes_def split: json.splits option.splits)

lemmas setters_ok = into_string_ok into_int64_ok into_uint64_ok into_strings_ok into_bytes_ok

section \<open>Resource claims\<close>

definition resource_ok :: "ResourceClaims \<Rightarrow> bool" where
  "resource_ok rc =
     (utf8_ok (rc_Iss rc) \<and> utf8_ok (rc_Jti rc) \<and> list_all utf8_ok (elems (rc_Scope rc))
      \<and> utf8_ok (rc_AmountWei rc) \<and> in_i64 (rc_Iat rc) \<and> in_i64 (rc_Exp rc))"

lemma ResourceClaims_of_json_ok:
  assumes "ResourceClaims_of_json v = Some rc" and "json_texts_ok v"
  shows "resource_ok rc"
proof (rule into_struct_inv [OF assms(1) [unfolded ResourceClaims_of_json_def] assms(2)])
  show "resource_ok ResourceClaims_zero"
    by (simp add: resource_ok_def ResourceClaims_zero_def in_i64_def)
qed (auto simp: ResourceClaims_fields_def resource_ok_def dest!: setters_ok)

section \<open>Attestations\<close>

definition Scope_text_ok :: "Scope \<Rightarrow> bool" where
  "Scope_text_ok s =
     (in_i64 (MaxTokenTTLSeconds s) \<and> list_all utf8_ok (elems (AllowedClaims s))
      \<and> utf8_ok (PaymentCapWei s) \<and> utf8_ok (StepUpAboveWei s))"

definition PSA_text_ok :: "PSA \<Rightarrow> bool" where
  "PSA_text_ok p =
     (utf8_ok (psa_Root p) \<and> utf8_ok (psa_Issuer p) \<and> list_all utf8_ok (elems (psa_KeyThumbprints p))
      \<and> Scope_text_ok (psa_Scope p) \<and> in_i64 (psa_NotBefore p) \<and> in_i64 (psa_NotAfter p)
      \<and> in_i64 (psa_RegistryChain p) \<and> utf8_ok (psa_Registry p))"

definition AgentGrant_text_ok :: "AgentGrant \<Rightarrow> bool" where
  "AgentGrant_text_ok g =
     (utf8_ok (ag_Root g) \<and> utf8_ok (ag_AgentIdentifier g) \<and> utf8_ok (ag_AgentThumbprint g)
      \<and> utf8_ok (ag_AgentPubKey g) \<and> utf8_ok (ag_MissionScopeS256 g) \<and> in_i64 (ag_NotBefore g)
      \<and> in_i64 (ag_NotAfter g) \<and> in_i64 (ag_RegistryChain g) \<and> utf8_ok (ag_Registry g))"

lemma into_Scope_ok:
  assumes "into_record Scope_fields upd get v a = Some b" and "json_texts_ok v" and "Scope_text_ok (get a)"
  shows "\<exists>s. Scope_text_ok s \<and> b = upd s a"
proof -
  obtain s where s: "into_struct Scope_fields (get a) v = Some s" "b = upd s a"
    using assms(1) by (auto simp: into_record_def split: option.splits)
  have "Scope_text_ok s"
    by (rule into_struct_inv [where P = Scope_text_ok, OF s(1) assms(2,3)])
      (auto simp: Scope_fields_def Scope_text_ok_def dest!: setters_ok)
  then show ?thesis using s(2) by blast
qed

lemma PSA_of_json_ok:
  assumes "PSA_of_json v = Some p" and "json_texts_ok v"
  shows "PSA_text_ok p"
proof (rule into_struct_inv [OF assms(1) [unfolded PSA_of_json_def] assms(2)])
  show "PSA_text_ok PSA_zero"
    by (simp add: PSA_text_ok_def PSA_zero_def Scope_text_ok_def Scope_zero_def in_i64_def)
next
  fix f w x y
  assume f: "f \<in> snd ` set PSA_fields" and ok: "json_texts_ok w" "PSA_text_ok x" and y: "f w x = Some y"
  show "PSA_text_ok y"
  proof (cases "f = into_record Scope_fields (\<lambda>x p. p\<lparr>psa_Scope := x\<rparr>) psa_Scope")
    case True
    have "Scope_text_ok (psa_Scope x)" using ok(2) by (simp add: PSA_text_ok_def)
    from into_Scope_ok [OF y [unfolded True] ok(1) this] show ?thesis
      using ok(2) by (auto simp: PSA_text_ok_def)
  next
    case False
    then show ?thesis
      using f ok y by (auto simp: PSA_fields_def PSA_text_ok_def dest!: setters_ok)
  qed
qed

lemma PSA_read_ok: "Option.bind (json_decode b) PSA_of_json = Some p \<Longrightarrow> PSA_text_ok p"
  using json_decode_ok PSA_of_json_ok by (cases "json_decode b") auto

lemma AgentGrant_of_json_ok:
  assumes "AgentGrant_of_json v = Some g" and "json_texts_ok v"
  shows "AgentGrant_text_ok g"
proof (rule into_struct_inv [OF assms(1) [unfolded AgentGrant_of_json_def] assms(2)])
  show "AgentGrant_text_ok AgentGrant_zero"
    by (simp add: AgentGrant_text_ok_def AgentGrant_zero_def in_i64_def)
qed (auto simp: AgentGrant_fields_def AgentGrant_text_ok_def dest!: setters_ok)

lemma AgentGrant_read_ok: "Option.bind (json_decode b) AgentGrant_of_json = Some g \<Longrightarrow> AgentGrant_text_ok g"
  using json_decode_ok AgentGrant_of_json_ok by (cases "json_decode b") auto

lemma PSA_text_json:
  assumes "PSA_text_ok p"
  shows "json_clean (PSA_json p)" "PSA_in_range p"
  using assms
  by (simp_all add: PSA_text_ok_def Scope_text_ok_def PSA_json_def Scope_json_def PSA_in_range_def
      json_clean_strings is_ascii_utf8_ok)

lemma AgentGrant_text_json:
  assumes "AgentGrant_text_ok g"
  shows "json_clean (AgentGrant_json g)" "AgentGrant_in_range g"
  using assms
  by (simp_all add: AgentGrant_text_ok_def AgentGrant_json_def AgentGrant_in_range_def omitempty_def
      is_ascii_utf8_ok)

end
