(* ===== verification/Server.thy ===== *)
theory Server
  imports Tenants Consent Resource Documents
begin

text \<open>
  The person server's HTTP surface (\<open>internal/server/*.go\<close>) and the parts of \<open>cmd/psd\<close> it runs
  with. A handler takes the state, the instant and the random bytes it reads, and the request; its
  result is the new state with the reply, or \<open>None\<close> when it panics. The error descriptions of the
  replies are left out, their codes are kept.
\<close>

section \<open>Requests, replies and state\<close>

text \<open>
  A request as a handler reads it: the headers of the development authentication, the path value,
  the query parameters of the revocation endpoint and the body. \<open>MuxReply\<close> is the answer of
  \<open>http.ServeMux\<close> to a request no pattern matches.
\<close>

record http =
  hdr_Agent :: string
  hdr_Thumb :: string
  hdr_Root :: string
  path_value :: string
  query_root :: string
  query_nonce :: string
  http_body :: bytes

datatype reply =
    Reply nat "(string \<times> string) list" json
  | ExportReply PSA "string \<rightharpoonup> Entry list"
  | ErrorReply nat string
  | MuxReply nat

text \<open>The two authentication interfaces: the agent's key thumbprint and identifier, and the root.\<close>

record Config =
  IssuerURL :: string
  IssuerKeys :: "IssuerKey list"
  ChainID :: int
  RegistryAddr :: string
  Sig :: "http \<Rightarrow> string + string \<times> string"
  RootAuth :: "http \<Rightarrow> string + string"

record ps =
  tenants :: Tenants
  pending :: Store
  registry :: MemoryRegistry

text \<open>What a handler reads from outside: the clock and three draws of random bytes.\<close>

record env =
  clock :: time
  rand_id :: bytes
  rand_code :: bytes
  rand_jti :: bytes

definition New_server :: ps where
  "New_server = \<lparr>tenants = NewTenants, pending = NewStore, registry = NewMemoryRegistry\<rparr>"

definition chain_verifier :: "ps \<Rightarrow> time \<Rightarrow> verifier" where
  "chain_verifier s now = \<lparr>Registry = IsRevoked (registry s), ERC1271 = None, Now = now\<rparr>"

type_synonym handler_result = "(ps \<times> reply) option"

section \<open>Helpers\<close>

definition server_bigOrZero :: "string \<Rightarrow> int" where
  "server_bigOrZero s =
     (if s = [] then 0 else case bigSetString s of Some n \<Rightarrow> n | None \<Rightarrow> 0)"

definition tierFor :: "Scope \<Rightarrow> ResourceClaims \<Rightarrow> Tier" where
  "tierFor sc res =
     (if rc_AmountWei res = [] then TierRoutine
      else let amt = server_bigOrZero (rc_AmountWei res); th = server_bigOrZero (StepUpAboveWei sc) in
           if th > 0 \<and> amt > th then TierElevated else TierRoutine)"

definition tierName :: "Tier \<Rightarrow> string" where
  "tierName t = (if t = TierElevated then ''elevated'' else ''routine'')"

definition parseResourceToken :: "string \<Rightarrow> ResourceClaims option" where
  "parseResourceToken raw =
     (let parts = split_on (CHR ''.'') raw in
      if length parts \<noteq> 3 then None
      else case b64_raw_decode True (parts ! 1) of
             None \<Rightarrow> None
           | Some payload \<Rightarrow>
               (case json_unmarshal payload of
                  None \<Rightarrow> None
                | Some v \<Rightarrow>
                    (case ResourceClaims_of_json v of
                       None \<Rightarrow> None
                     | Some rc \<Rightarrow> if rc_Iss rc = [] then None else Some rc)))"

definition marshalResource :: "ResourceClaims \<Rightarrow> bytes" where
  "marshalResource rc = json_print (ResourceClaims_json rc)"

text \<open>The stored text was written by \<open>marshalResource\<close>; an unreadable one would give the zero value.\<close>

definition resourceOf :: "Request \<Rightarrow> ResourceClaims" where
  "resourceOf req =
     (case json_unmarshal (rq_ResourceJSON req) of
        None \<Rightarrow> ResourceClaims_zero
      | Some v \<Rightarrow> (case ResourceClaims_of_json v of None \<Rightarrow> ResourceClaims_zero | Some rc \<Rightarrow> rc))"

definition agentKeyFromGrant :: "AgentGrant \<Rightarrow> JWK" where
  "agentKeyFromGrant g = \<lparr>Kty = ''OKP'', Crv = ''Ed25519'', X = ag_AgentPubKey g\<rparr>"

definition newID :: "bytes \<Rightarrow> string" where
  "newID random = hex_encode random"

definition newCode :: "bytes \<Rightarrow> string" where
  "newCode random = b64_raw True random"

definition hexStr :: "bytes \<Rightarrow> string" where
  "hexStr b = ''0x'' @ hex_encode b"

text \<open>\<open>hex.DecodeString\<close> returns the bytes before an error, and the error is dropped.\<close>

definition hexBytes :: "string \<Rightarrow> bytes" where
  "hexBytes s = fst (hex_decode (TrimPrefix s ''0x''))"

definition keyThumbs :: "ext \<Rightarrow> Config \<Rightarrow> string list" where
  "keyThumbs E cfg = map (\<lambda>k. Thumbprint E (Pub k)) (IssuerKeys cfg)"

definition DevSigVerifier :: "ext \<Rightarrow> http \<Rightarrow> string + string \<times> string" where
  "DevSigVerifier E r =
     (let agentID = TrimSpace (UnicodeTrim E) (hdr_Agent r);
          agentKeyThumb = TrimSpace (UnicodeTrim E) (hdr_Thumb r) in
      if agentID = [] \<or> agentKeyThumb = [] then Inl ''dev sig verifier''
      else Inr (agentKeyThumb, agentID))"

definition DevRootAuth :: "ext \<Rightarrow> http \<Rightarrow> string + string" where
  "DevRootAuth E r =
     (let root = TrimSpace (UnicodeTrim E) (hdr_Root r) in
      if root = [] then Inl ''dev root auth'' else Inr root)"

section \<open>Read-only handlers\<close>

text \<open>A JSON object built from a Go map has its keys in sorted order.\<close>

definition metadata :: "Config \<Rightarrow> reply" where
  "metadata cfg = Reply 200 [] (JObj
     [(''issuer'', JStr (IssuerURL cfg)),
      (''jwks_uri'', JStr (IssuerURL cfg @ ''/jwks.json'')),
      (''signet_non_custodial'', JObj
         [(''onboarding_endpoint'', JStr (IssuerURL cfg @ ''/psa'')),
          (''psa_endpoint_template'', JStr (IssuerURL cfg @ ''/psa/{root}'')),
          (''revocation_registry'', JObj
             [(''address'', JStr (RegistryAddr cfg)), (''chain'', JNum (ChainID cfg))]),
          (''root_signature_schemes'', JArr [JStr ''eoa-secp256k1'', JStr ''erc1271''])]),
      (''token_endpoint'', JStr (IssuerURL cfg @ ''/token''))])"

definition jwks :: "Config \<Rightarrow> reply" where
  "jwks cfg = Reply 200 [] (JObj [(''keys'', JArr (map (\<lambda>k. JWK_json (Pub k)) (IssuerKeys cfg)))])"

definition servePSA :: "ps \<Rightarrow> http \<Rightarrow> reply option" where
  "servePSA s r =
     (case ByRoot (tenants s) (path_value r) of
        None \<Rightarrow> Some (ErrorReply 404 ''unknown_root'')
      | Some t \<Rightarrow>
          (case theap (tenants s) t of
             None \<Rightarrow> None
           | Some ten \<Rightarrow> Some (Reply 200 [] (PSA_json (tPSA ten)))))"

definition serveGrant :: "ps \<Rightarrow> http \<Rightarrow> reply" where
  "serveGrant s r =
     (case GrantByS256 (tenants s) (path_value r) of
        None \<Rightarrow> ErrorReply 404 ''unknown_grant''
      | Some g \<Rightarrow> Reply 200 [] (AgentGrant_json g))"

definition export :: "Config \<Rightarrow> ps \<Rightarrow> http \<Rightarrow> reply option" where
  "export cfg s r =
     (case RootAuth cfg r of
        Inl _ \<Rightarrow> Some (ErrorReply 401 ''root_auth_failed'')
      | Inr root \<Rightarrow>
          (case ByRoot (tenants s) root of
             None \<Rightarrow> Some (ErrorReply 404 ''unknown_root'')
           | Some t \<Rightarrow>
               (case theap (tenants s) t of
                  None \<Rightarrow> None
                | Some ten \<Rightarrow> Some (ExportReply (tPSA ten) (Export (tlog ten))))))"

section \<open>Onboarding and enrollment\<close>

definition onboard :: "ext \<Rightarrow> Config \<Rightarrow> env \<Rightarrow> ps \<Rightarrow> http \<Rightarrow> handler_result" where
  "onboard E cfg e s r =
     (case Option.bind (json_decode (http_body r)) PSA_of_json of
        None \<Rightarrow> Some (s, ErrorReply 400 ''invalid_request'')
      | Some psa \<Rightarrow>
          (case VerifyAndOnboard E (tenants s) (chain_verifier s (clock e)) psa (IssuerURL cfg) (keyThumbs E cfg) of
             None \<Rightarrow> None
           | Some (ts, Inl _) \<Rightarrow> Some (s\<lparr>tenants := ts\<rparr>, ErrorReply 403 ''invalid_psa'')
           | Some (ts, Inr t) \<Rightarrow>
               (case theap ts t of
                  None \<Rightarrow> None
                | Some ten \<Rightarrow>
                    Some (s\<lparr>tenants := ts\<rparr>,
                      Reply 201 [] (JObj [(''psa_url'', JStr (IssuerURL cfg @ ''/psa/'' @ Root ten)),
                                          (''root'', JStr (Root ten))])))))"

definition enrollAgent :: "ext \<Rightarrow> Config \<Rightarrow> env \<Rightarrow> ps \<Rightarrow> http \<Rightarrow> handler_result" where
  "enrollAgent E cfg e s r =
     (case Sig cfg r of
        Inl _ \<Rightarrow> Some (s, ErrorReply 401 ''invalid_signature'')
      | Inr (agentKeyThumb, agentID) \<Rightarrow>
          (case Option.bind (json_decode (http_body r)) AgentGrant_of_json of
             None \<Rightarrow> Some (s, ErrorReply 400 ''invalid_request'')
           | Some g \<Rightarrow>
               (case ByRoot (tenants s) (ag_Root g) of
                  None \<Rightarrow> Some (s, ErrorReply 403 ''unknown_root'')
                | Some t \<Rightarrow>
                    (case theap (tenants s) t of
                       None \<Rightarrow> None
                     | Some ten \<Rightarrow>
                         (case VerifyAgentGrant E (chain_verifier s (clock e)) g (Root ten) agentID agentKeyThumb of
                            Inl _ \<Rightarrow> Some (s, ErrorReply 403 ''invalid_grant'')
                          | Inr _ \<Rightarrow>
                              (case Enroll E (tenants s) agentID t g of
                                 None \<Rightarrow> None
                               | Some (ts, Inl _) \<Rightarrow> Some (s\<lparr>tenants := ts\<rparr>, ErrorReply 409 ''conflict'')
                               | Some (ts, Inr _) \<Rightarrow>
                                   (case LogAppend E ts t agentID (new_entry ''agent_enrolled'' [] (clock e)) of
                                      None \<Rightarrow> None
                                    | Some ts2 \<Rightarrow>
                                        Some (s\<lparr>tenants := ts2\<rparr>,
                                          Reply 201 [] (JObj [(''root'', JStr (Root ten)),
                                                              (''status'', JStr ''enrolled'')])))))))))"

section \<open>Token requests\<close>

definition token_body_of_json :: "json \<Rightarrow> (string \<times> MissionRef option) option" where
  "token_body_of_json =
     into_struct
       [(''resource_token'', into_string (\<lambda>x p. (x, snd p))),
        (''mission'', into_pointer MissionRef_fields MissionRef_zero (\<lambda>x p. (fst p, x)) snd)]
       ([], None)"

definition step_up :: "ext \<Rightarrow> Config \<Rightarrow> Request \<Rightarrow> StepUp option" where
  "step_up E cfg req =
     (if length (case rq_StepUpSig req of None \<Rightarrow> [] | Some b \<Rightarrow> b) > 0
      then Some \<lparr>su_Digest = hexStr (case ApprovalDigest E req (ChainID cfg) (RegistryAddr cfg) of
                                  None \<Rightarrow> replicate 32 (CHR 0x00) | Some d \<Rightarrow> d),
                 su_Sig = hexStr (case rq_StepUpSig req of None \<Rightarrow> [] | Some b \<Rightarrow> b)\<rparr>
      else None)"

definition finish_input ::
  "Config \<Rightarrow> Tenant \<Rightarrow> AgentGrant \<Rightarrow> ResourceClaims \<Rightarrow> string \<Rightarrow> StepUp option \<Rightarrow> MintInput" where
  "finish_input cfg ten g res agentID su =
     \<lparr>mi_PSA = tPSA ten, mi_PSABlobURL = IssuerURL cfg @ ''/psa/'' @ Root ten, mi_Grant = g,
      mi_Resource = res, mi_AgentID = agentID, mi_AgentKey = agentKeyFromGrant g,
      mi_Mission = Some \<lparr>Approver = IssuerURL cfg, S256 = ag_MissionScopeS256 g\<rparr>,
      mi_StepUp = su, mi_Claims = [], mi_TTL = Hour\<rparr>"

definition finish ::
  "ext \<Rightarrow> Config \<Rightarrow> env \<Rightarrow> ps \<Rightarrow> Request \<Rightarrow> tptr \<Rightarrow> AgentGrant option \<Rightarrow> ResourceClaims \<Rightarrow> string
   \<Rightarrow> handler_result" where
  "finish E cfg e s req t grant res agentID =
     (let su = step_up E cfg req in
      case (IssuerKeys cfg, theap (tenants s) t, grant) of
        (k # _, Some ten, Some g) \<Rightarrow>
          (case Mint E (clock e) (rand_jti e) k (finish_input cfg ten g res agentID su) of
             Inl _ \<Rightarrow> Some (s, ErrorReply 403 ''outside_grant'')
           | Inr tok \<Rightarrow>
               (case LogAppend E (tenants s) t agentID (new_entry ''token_issued'' (rq_ID req) (clock e)) of
                  None \<Rightarrow> None
                | Some ts \<Rightarrow>
                    Some (s\<lparr>tenants := ts\<rparr>, Reply 200 [] (JObj [(''auth_token'', JStr tok)]))))
      | _ \<Rightarrow> None)"

definition new_request :: "env \<Rightarrow> string \<Rightarrow> ResourceClaims \<Rightarrow> AgentGrant \<Rightarrow> Tier \<Rightarrow> Request" where
  "new_request e agentID res g tier =
     \<lparr>rq_ID = newID (rand_id e), rq_Code = newCode (rand_code e), rq_AgentID = agentID,
      rq_Resource = rc_Iss res, rq_AmountWei = rc_AmountWei res, rq_ScopeReq = rc_Scope res,
      rq_MissionS256 = ag_MissionScopeS256 g, rq_Tier = tier, rq_State = StatePending,
      rq_CreatedAt = clock e, rq_ExpiresAt = clock e + 10 * Minute,
      rq_ResourceJSON = marshalResource res, rq_StepUpSig = None\<rparr>"

definition token :: "ext \<Rightarrow> Config \<Rightarrow> env \<Rightarrow> ps \<Rightarrow> http \<Rightarrow> handler_result" where
  "token E cfg e s r =
     (case Sig cfg r of
        Inl _ \<Rightarrow> Some (s, ErrorReply 401 ''invalid_signature'')
      | Inr (agentKeyThumb, agentID) \<Rightarrow>
          (case ByAgent (tenants s) agentID of
             None \<Rightarrow> Some (s, ErrorReply 403 ''no_agent_grant'')
           | Some t \<Rightarrow>
               (case theap (tenants s) t of
                  None \<Rightarrow> None
                | Some ten \<Rightarrow>
                    (case grants ten agentID of
                       None \<Rightarrow> Some (s, ErrorReply 403 ''no_agent_grant'')
                     | Some g \<Rightarrow>
                         if ag_AgentThumbprint g \<noteq> agentKeyThumb
                         then Some (s, ErrorReply 403 ''no_agent_grant'')
                         else
                           (case Option.bind (json_decode (http_body r)) token_body_of_json of
                              None \<Rightarrow> Some (s, ErrorReply 400 ''invalid_request'')
                            | Some (resource_token, mission) \<Rightarrow>
                                (case parseResourceToken resource_token of
                                   None \<Rightarrow> Some (s, ErrorReply 400 ''invalid_request'')
                                 | Some res \<Rightarrow>
                                     (case Consistent (tlog ten) agentID (ag_MissionScopeS256 g)
                                             (elems (rc_Scope res)) (rc_AmountWei res) of
                                        Inl _ \<Rightarrow> Some (s, ErrorReply 403 ''mission_inconsistent'')
                                      | Inr _ \<Rightarrow>
                                          (let tier = tierFor (psa_Scope (tPSA ten)) res;
                                               req = new_request e agentID res g tier
                                           in case Create (pending s) req of (store, p) \<Rightarrow>
                                                (case LogAppend E (tenants s) t agentID
                                                        (new_entry ''token_request'' (rq_ID req) (clock e)) of
                                                   None \<Rightarrow> None
                                                 | Some ts \<Rightarrow>
                                                     let s1 = s\<lparr>tenants := ts, pending := store\<rparr> in
                                                     if tier = TierRoutine
                                                        \<and> AutoApprovable (tlog ten) agentID (elems (rc_Scope res)) (rc_AmountWei res)
                                                     then (case ApproveRoutine store (clock e) (rq_Code req) of
                                                             None \<Rightarrow> None
                                                           | Some (store2, _) \<Rightarrow>
                                                               finish E cfg e (s1\<lparr>pending := store2\<rparr>) req t (Some g) res agentID)
                                                     else Some (s1, Reply 202
                                                            [(''Location'', IssuerURL cfg @ ''/pending/'' @ rq_ID req),
                                                             (''Retry-After'', ''5'')]
                                                            (JObj [(''interaction'', JObj
                                                               [(''approval_url'', JStr (IssuerURL cfg @ ''/approve/'' @ rq_Code req)),
                                                                (''code'', JStr (rq_Code req)),
                                                                (''tier'', JStr (tierName tier))])])))))))))))"

definition poll :: "ext \<Rightarrow> Config \<Rightarrow> env \<Rightarrow> ps \<Rightarrow> http \<Rightarrow> handler_result" where
  "poll E cfg e s r =
     (case Sig cfg r of
        Inl _ \<Rightarrow> Some (s, ErrorReply 401 ''invalid_signature'')
      | Inr (_, agentID) \<Rightarrow>
          (case Poll (pending s) (clock e) (path_value r) of
             None \<Rightarrow> None
           | Some (store, Inl _) \<Rightarrow> Some (s\<lparr>pending := store\<rparr>, ErrorReply 404 ''unknown_request'')
           | Some (store, Inr p) \<Rightarrow>
               (let s1 = s\<lparr>pending := store\<rparr> in
                case rheap store p of
                  None \<Rightarrow> None
                | Some req \<Rightarrow>
                    if rq_AgentID req \<noteq> agentID then Some (s1, ErrorReply 404 ''unknown_request'')
                    else (case rq_State req of
                            StatePending \<Rightarrow>
                              Some (s1, Reply 202 [(''Retry-After'', ''5'')] (JObj [(''status'', JStr ''pending'')]))
                          | StateApproved \<Rightarrow>
                              (case ByAgent (tenants s1) agentID of
                                 None \<Rightarrow> None
                               | Some t \<Rightarrow>
                                   (case Grant (tenants s1) t agentID of
                                      None \<Rightarrow> None
                                    | Some g \<Rightarrow> finish E cfg e s1 req t g (resourceOf req) agentID))
                          | StateDenied \<Rightarrow> Some (s1, ErrorReply 403 ''denied'')
                          | StateExpired \<Rightarrow> Some (s1, ErrorReply 410 ''expired'')))))"

section \<open>Approval\<close>

definition Tier_json :: "Tier \<Rightarrow> json" where
  "Tier_json t = JNum (case t of TierRoutine \<Rightarrow> 0 | TierElevated \<Rightarrow> 1)"

fun State_text :: "State \<Rightarrow> string" where
  "State_text StatePending = ''pending''"
| "State_text StateApproved = ''approved''"
| "State_text StateDenied = ''denied''"
| "State_text StateExpired = ''expired''"

text \<open>A request as \<open>approvePage\<close> shows it; the struct has no tags.\<close>

definition Request_json :: "ext \<Rightarrow> Request \<Rightarrow> json" where
  "Request_json E q = JObj
     [(''ID'', JStr (rq_ID q)), (''Code'', JStr (rq_Code q)), (''AgentID'', JStr (rq_AgentID q)),
      (''Resource'', JStr (rq_Resource q)), (''AmountWei'', JStr (rq_AmountWei q)),
      (''ScopeReq'', json_strings (rq_ScopeReq q)), (''MissionS256'', JStr (rq_MissionS256 q)),
      (''Tier'', Tier_json (rq_Tier q)), (''State'', JStr (State_text (rq_State q))),
      (''CreatedAt'', JStr (TimeText E (rq_CreatedAt q))), (''ExpiresAt'', JStr (TimeText E (rq_ExpiresAt q))),
      (''ResourceJSON'', json_bytes (Some (rq_ResourceJSON q))), (''StepUpSig'', json_bytes (rq_StepUpSig q))]"

definition approvePage :: "ext \<Rightarrow> Config \<Rightarrow> env \<Rightarrow> ps \<Rightarrow> http \<Rightarrow> handler_result" where
  "approvePage E cfg e s r =
     (let code = path_value r in
      case ByCode (pending s) code of
        Inl _ \<Rightarrow> Some (s, ErrorReply 404 ''unknown_code'')
      | Inr p \<Rightarrow>
          (case deref (pending s) p of
             None \<Rightarrow> None
           | Some (q, req) \<Rightarrow>
               if rq_Tier req = TierElevated
               then (case ApprovalDigest E req (ChainID cfg) (RegistryAddr cfg) of
                       None \<Rightarrow> Some (s, ErrorReply 500 ''digest_error'')
                     | Some digest \<Rightarrow>
                         Some (s, Reply 200 [] (JObj
                           [(''digest'', JStr (hexStr digest)),
                            (''message'', JStr ''this action exceeds the PSA step-up threshold; a root signature is required''),
                            (''request'', Request_json E req),
                            (''sign_url'', JStr (IssuerURL cfg @ ''/approve/'' @ code @ ''/signature'')),
                            (''tier'', JStr ''elevated'')])))
               else (case ApproveRoutine (pending s) (clock e) code of
                       None \<Rightarrow> None
                     | Some (store, Inl _) \<Rightarrow> Some (s\<lparr>pending := store\<rparr>, ErrorReply 409 ''cannot_approve'')
                     | Some (store, Inr _) \<Rightarrow>
                         Some (s\<lparr>pending := store\<rparr>, Reply 200 [] (JObj
                           [(''code'', JStr code), (''status'', JStr ''approved''),
                            (''tier'', JStr ''routine'')])))))"

definition signature_of_json :: "json \<Rightarrow> string option" where
  "signature_of_json = into_struct [(''signature'', into_string (\<lambda>x _. x))] []"

definition approveElevated :: "ext \<Rightarrow> Config \<Rightarrow> env \<Rightarrow> ps \<Rightarrow> http \<Rightarrow> handler_result" where
  "approveElevated E cfg e s r =
     (case Option.bind (json_decode (http_body r)) signature_of_json of
        None \<Rightarrow> Some (s, ErrorReply 400 ''invalid_request'')
      | Some signature \<Rightarrow>
          (let code = path_value r in
           case ByCode (pending s) code of
             Inl _ \<Rightarrow> Some (s, ErrorReply 404 ''unknown_code'')
           | Inr p \<Rightarrow>
               (case deref (pending s) p of
                  None \<Rightarrow> None
                | Some (q, req) \<Rightarrow>
                    (case ByAgent (tenants s) (rq_AgentID req) of
                       None \<Rightarrow> Some (s, ErrorReply 404 ''unknown_tenant'')
                     | Some t \<Rightarrow>
                         (case theap (tenants s) t of
                            None \<Rightarrow> None
                          | Some ten \<Rightarrow>
                              (case ApproveElevated E (pending s) (clock e) code (Root ten) (ChainID cfg)
                                      (RegistryAddr cfg) (hexBytes signature) of
                                 None \<Rightarrow> None
                               | Some (store, Inl _) \<Rightarrow> Some (s\<lparr>pending := store\<rparr>, ErrorReply 403 ''step_up_failed'')
                               | Some (store, Inr _) \<Rightarrow>
                                   Some (s\<lparr>pending := store\<rparr>,
                                     Reply 200 [] (JObj [(''status'', JStr ''approved'')]))))))))"

section \<open>Routing\<close>

text \<open>
  The patterns of \<open>Routes\<close>: the method (a \<open>GET\<close> pattern also takes \<open>HEAD\<close>) and the
  decoded segments of the path, none of them empty; a wildcard is one segment. A path that only
  other methods match gets 405, any other 404.
\<close>

definition for_method :: "bool \<Rightarrow> ps \<Rightarrow> handler_result \<Rightarrow> handler_result" where
  "for_method ok s res = (if ok then res else Some (s, MuxReply 405))"

definition reading :: "ps \<Rightarrow> reply option \<Rightarrow> handler_result" where
  "reading s rep = map_option (\<lambda>x. (s, x)) rep"

definition Routes ::
  "ext \<Rightarrow> Config \<Rightarrow> env \<Rightarrow> ps \<Rightarrow> string \<Rightarrow> string list \<Rightarrow> http \<Rightarrow> handler_result" where
  "Routes E cfg e s meth path r =
     (let get = for_method (meth = ''GET'' \<or> meth = ''HEAD'') s; post = for_method (meth = ''POST'') s in
      case path of
        [a] \<Rightarrow>
          if a = ''jwks.json'' then get (Some (s, jwks cfg))
          else if a = ''token'' then post (token E cfg e s r)
          else if a = ''psa'' then post (onboard E cfg e s r)
          else if a = ''agents'' then post (enrollAgent E cfg e s r)
          else if a = ''export'' then get (reading s (export cfg s r))
          else Some (s, MuxReply 404)
      | [a, b] \<Rightarrow>
          let rb = r\<lparr>path_value := b\<rparr> in
          if a = ''.well-known'' \<and> b = ''aauth-issuer.json'' then get (Some (s, metadata cfg))
          else if a = ''pending'' then get (poll E cfg e s rb)
          else if a = ''approve'' then get (approvePage E cfg e s rb)
          else if a = ''psa'' then get (reading s (servePSA s rb))
          else if a = ''grants'' then get (Some (s, serveGrant s rb))
          else Some (s, MuxReply 404)
      | [a, b, c] \<Rightarrow>
          if a = ''approve'' \<and> c = ''signature''
          then post (approveElevated E cfg e s (r\<lparr>path_value := b\<rparr>))
          else Some (s, MuxReply 404)
      | _ \<Rightarrow> Some (s, MuxReply 404))"

section \<open>Claims kept in a request\<close>

text \<open>The claims of a resource token survive being kept in the request.\<close>

lemma resource_kept:
  assumes "resource_ok rc"
  shows "json_unmarshal (marshalResource rc) = Some (ResourceClaims_json rc)"
    "ResourceClaims_of_json (ResourceClaims_json rc) = Some rc"
proof -
  have "json_clean (ResourceClaims_json rc)"
    using assms json_clean_strings [of "rc_Scope rc"]
    by (simp add: resource_ok_def ResourceClaims_json_def omitempty_def is_ascii_utf8_ok)
  moreover have "json_depth (ResourceClaims_json rc) \<le> max_depth"
    by (cases "rc_Scope rc")
      (auto simp: ResourceClaims_json_def omitempty_def json_strings_def max_depth_def fold_max_le)
  ultimately show "json_unmarshal (marshalResource rc) = Some (ResourceClaims_json rc)"
    unfolding marshalResource_def by (rule json_unmarshal_print)
  show "ResourceClaims_of_json (ResourceClaims_json rc) = Some rc"
    using assms by (intro ResourceClaims_of_json_json) (simp_all add: resource_ok_def)
qed

lemma parseResourceToken_ok: "parseResourceToken raw = Some rc \<Longrightarrow> resource_ok rc \<and> rc_Iss rc \<noteq> []"
  by (auto simp: parseResourceToken_def Let_def split: option.splits if_splits
      dest!: json_unmarshal_ok intro: ResourceClaims_of_json_ok)

lemma resourceOf_new:
  "resource_ok res \<Longrightarrow> resourceOf (new_request e a res g tier) = res"
  by (simp add: resourceOf_def new_request_def resource_kept)

section \<open>The invariant of the server\<close>

text \<open>
  Every registered authorization is for this issuer, signed by its root and covers one of its keys;
  every grant is signed by the root of the tenant that holds it, for that agent; every request in
  flight is from a bound agent and shows what it would mint, and the consent store is sound for the roots the agents are bound to.
  The server has no smart-account verifier, so signatures are those of plain keys.
\<close>

definition eoa_verifier :: verifier where
  "eoa_verifier = \<lparr>Registry = (\<lambda>_ _ _ _. Inr False), ERC1271 = None, Now = 0\<rparr>"

definition psa_ok :: "ext \<Rightarrow> Config \<Rightarrow> PSA \<Rightarrow> bool" where
  "psa_ok E cfg psa =
     (PSA_text_ok psa \<and> psa_Issuer psa = IssuerURL cfg \<and> PSA_signed E eoa_verifier psa
      \<and> (\<exists>k \<in> set (IssuerKeys cfg). Thumbprint E (Pub k) \<in> set (elems (psa_KeyThumbprints psa))))"

definition grant_ok :: "ext \<Rightarrow> string \<Rightarrow> string \<Rightarrow> AgentGrant \<Rightarrow> bool" where
  "grant_ok E root agentID g =
     (AgentGrant_text_ok g \<and> ag_Root g = root \<and> ag_AgentIdentifier g = agentID
      \<and> AgentGrant_signed E eoa_verifier g)"

definition docs_ok :: "ext \<Rightarrow> Config \<Rightarrow> Tenants \<Rightarrow> bool" where
  "docs_ok E cfg ts =
     (\<forall>root ten. registered ts root = Some ten \<longrightarrow>
        psa_ok E cfg (tPSA ten) \<and> (\<forall>a g. grants ten a = Some g \<longrightarrow> grant_ok E root a g))"

definition bound :: "Config \<Rightarrow> Tenants \<Rightarrow> approval_context" where
  "bound cfg ts agentID root chainID addr =
     (byAgent ts agentID = Some root \<and> chainID = ChainID cfg \<and> addr = RegistryAddr cfg)"

text \<open>The claims kept for the mint are those the request shows to the person and its digest covers.\<close>

definition request_faithful :: "Request \<Rightarrow> bool" where
  "request_faithful q =
     (resource_ok (resourceOf q)
      \<and> rc_Iss (resourceOf q) = rq_Resource q \<and> rc_AmountWei (resourceOf q) = rq_AmountWei q
      \<and> rc_Scope (resourceOf q) = rq_ScopeReq q)"

definition requests_ok :: "Tenants \<Rightarrow> Store \<Rightarrow> bool" where
  "requests_ok ts st =
     (\<forall>p q. rheap st p = Some q \<longrightarrow> byAgent ts (rq_AgentID q) \<noteq> None \<and> request_faithful q)"

definition ps_ok :: "ext \<Rightarrow> Config \<Rightarrow> ps \<Rightarrow> bool" where
  "ps_ok E cfg s =
     (tenants_ok E (tenants s) \<and> docs_ok E cfg (tenants s)
      \<and> consent_ok E (bound cfg (tenants s)) (pending s) \<and> requests_ok (tenants s) (pending s))"

lemma ps_okD:
  assumes "ps_ok E cfg s"
  shows "tenants_ok E (tenants s)" "docs_ok E cfg (tenants s)"
    "consent_ok E (bound cfg (tenants s)) (pending s)" "requests_ok (tenants s) (pending s)"
    "heap_ok (tenants s)"
  using assms tenants_okD(1) by (auto simp: ps_ok_def)

lemma signed_eoa:
  "ERC1271 v = None \<Longrightarrow> PSA_signed E v p = PSA_signed E eoa_verifier p"
  "ERC1271 v = None \<Longrightarrow> AgentGrant_signed E v g = AgentGrant_signed E eoa_verifier g"
  by (simp_all add: PSA_signed_def AgentGrant_signed_def rootSigned_def eoa_verifier_def split: option.split)

lemma ps_ok_New: "ps_ok E cfg New_server"
proof -
  have "registered NewTenants root = None" for root
    by (simp add: registered_def NewTenants_def)
  then show ?thesis
    by (simp add: ps_ok_def New_server_def docs_ok_def requests_ok_def NewStore_def
        consent_ok_New [unfolded NewStore_def])
qed

section \<open>Changes of one part\<close>

lemma consent_ok_mono:
  assumes "consent_ok E K st" and "\<And>a root c x. K a root c x \<Longrightarrow> K' a root c x"
  shows "consent_ok E K' st"
proof -
  have "request_ok E K q \<Longrightarrow> request_ok E K' q" for q
    using assms(2) unfolding request_ok_def root_approved_def by blast
  then show ?thesis using assms(1) unfolding consent_ok_def by blast
qed

lemma ps_ok_tenants:
  assumes "ps_ok E cfg s" and "tenant_change E (tenants s) ts" and "docs_ok E cfg ts"
  shows "ps_ok E cfg (s\<lparr>tenants := ts\<rparr>)"
proof -
  have keep: "byAgent (tenants s) a = Some root \<Longrightarrow> byAgent ts a = Some root" for a root
    using byAgent_kept [OF assms(2)] .
  have "consent_ok E (bound cfg ts) (pending s)"
    by (rule consent_ok_mono [OF ps_okD(3) [OF assms(1)]]) (simp add: bound_def keep)
  moreover have "requests_ok ts (pending s)"
    using ps_okD(4) [OF assms(1)] keep unfolding requests_ok_def by blast
  ultimately show ?thesis
    using assms tenants_ok_change [OF assms(2)] ps_okD(1) [OF assms(1)] by (simp add: ps_ok_def)
qed

text \<open>A change of the consent store that brings in no request: each is an old one but for its decision
  and signature.\<close>

definition frozen :: "Request \<Rightarrow> Request" where
  "frozen q = q\<lparr>rq_State := StatePending, rq_StepUpSig := None\<rparr>"

lemma frozenD:
  assumes "frozen q = frozen q'"
  shows "rq_AgentID q = rq_AgentID q'" "request_faithful q = request_faithful q'"
  using assms by (cases q; cases q'; simp add: frozen_def request_faithful_def resourceOf_def)+

lemma request_faithful_state [simp]: "request_faithful (q\<lparr>rq_State := st\<rparr>) = request_faithful q"
  by (simp add: request_faithful_def resourceOf_def)

lemma frozen_simps [simp]:
  "frozen (q\<lparr>rq_State := st\<rparr>) = frozen q" "frozen (q\<lparr>rq_StepUpSig := sg\<rparr>) = frozen q"
  by (simp_all add: frozen_def)

definition old_requests :: "Store \<Rightarrow> Store \<Rightarrow> bool" where
  "old_requests st st' =
     (\<forall>p q'. rheap st' p = Some q' \<longrightarrow> (\<exists>p q. rheap st p = Some q \<and> frozen q = frozen q'))"

lemma old_requests_refl [simp]: "old_requests st st"
  by (auto simp: old_requests_def)

lemma old_requests_set: "rheap st p = Some q \<Longrightarrow> frozen q' = frozen q \<Longrightarrow> old_requests st (set_request st p q')"
  unfolding old_requests_def by (auto split: if_splits; metis)

lemma old_requests_transition: "transition st now p to = Some (st', r) \<Longrightarrow> old_requests st st'"
  by (auto simp: transition_def split: option.splits if_splits intro!: old_requests_set)

lemma old_requests_trans: "old_requests a b \<Longrightarrow> old_requests b c \<Longrightarrow> old_requests a c"
  unfolding old_requests_def by metis

lemma old_requests_signed:
  assumes "rheap st q = Some r"
    and "transition (set_request st q (r\<lparr>rq_StepUpSig := Some sig\<rparr>)) now q to = Some (st', u)"
  shows "old_requests st st'"
  by (rule old_requests_trans [OF old_requests_set [OF assms(1)] old_requests_transition [OF assms(2)]]) simp

lemma old_requests_ops:
  "Poll st now rid = Some (st', r) \<Longrightarrow> old_requests st st'"
  "ApproveRoutine st now code = Some (st', u) \<Longrightarrow> old_requests st st'"
  "ApproveElevated E st now code root c a sig = Some (st', u) \<Longrightarrow> old_requests st st'"
proof -
  show "Poll st now rid = Some (st', r) \<Longrightarrow> old_requests st st'"
    by (auto simp: Poll_def split: option.splits if_splits intro!: old_requests_set)
  show "ApproveRoutine st now code = Some (st', u) \<Longrightarrow> old_requests st st'"
    by (auto simp: ApproveRoutine_def split: option.splits sum.splits prod.splits if_splits
        intro: old_requests_transition)
  show "old_requests st st'" if "ApproveElevated E st now code root c a sig = Some (st', u)"
    using that
    by (auto simp: ApproveElevated_def deref_Some split: option.splits sum.splits prod.splits if_splits
        intro: old_requests_signed)
qed

lemma ps_ok_pending:
  assumes "ps_ok E cfg s" and "(consent_step E (bound cfg (tenants s)))\<^sup>*\<^sup>* (pending s) st"
    and "old_requests (pending s) st"
  shows "ps_ok E cfg (s\<lparr>pending := st\<rparr>)"
proof -
  have "consent_ok E (bound cfg (tenants s)) st"
    using decisions.inv_reaches [OF assms(2)] ps_okD(3) [OF assms(1)] .
  moreover have "requests_ok (tenants s) st"
    using ps_okD(4) [OF assms(1)] assms(3) unfolding requests_ok_def old_requests_def by (metis frozenD)
  ultimately show ?thesis using assms(1) by (simp add: ps_ok_def)
qed

lemma ps_ok_create:
  assumes "ps_ok E cfg s" and "rq_StepUpSig q = None" and "byAgent (tenants s) (rq_AgentID q) \<noteq> None"
    and "request_faithful q"
  shows "ps_ok E cfg (s\<lparr>pending := fst (Create (pending s) q)\<rparr>)"
proof -
  have "consent_ok E (bound cfg (tenants s)) (fst (Create (pending s) q))"
    using consent_ok_step [OF consent_step.create [OF assms(2)]] ps_okD(3) [OF assms(1)] .
  moreover have "requests_ok (tenants s) (fst (Create (pending s) q))"
    using ps_okD(4) [OF assms(1)] assms(3,4) by (simp add: requests_ok_def Create_def)
  ultimately show ?thesis using assms(1) by (simp add: ps_ok_def)
qed

text \<open>The log of a registered tenant can be appended to.\<close>

lemma docs_ok_log:
  assumes "docs_ok E cfg ts" and "registered ts root = Some ten"
    and "registered ts' = (registered ts)(root \<mapsto> ten\<lparr>tlog := l\<rparr>)"
  shows "docs_ok E cfg ts'"
  using assms by (auto simp: docs_ok_def)

lemma Prev_new_entry [simp]: "Prev (new_entry kind rid t) = []"
  by (simp add: new_entry_def)

lemma log_step:
  assumes "ps_ok E cfg s" and "byRoot (tenants s) root = Some t" and "theap (tenants s) t = Some ten"
    and "Prev e = []"
  obtains ts where "LogAppend E (tenants s) t a e = Some ts" "ps_ok E cfg (s\<lparr>tenants := ts\<rparr>)"
    "byAgent ts = byAgent (tenants s)" "byRoot ts = byRoot (tenants s)"
proof -
  note ok = ps_okD [OF assms(1)]
  have reg: "registered (tenants s) root = Some ten"
    using assms(2,3) by (simp add: registered_def)
  from LogAppend_view [OF ok(5) assms(2) reg, of E a e] obtain ts where
    ts: "LogAppend E (tenants s) t a e = Some ts"
      "registered ts = (registered (tenants s))(root \<mapsto> ten\<lparr>tlog := Append E (tlog ten) a e\<rparr>)"
      "byAgent ts = byAgent (tenants s)" "byRoot ts = byRoot (tenants s)" by metis
  have "ps_ok E cfg (s\<lparr>tenants := ts\<rparr>)"
    using log_change [OF ok(5) assms(2,4) ts(1)] docs_ok_log [OF ok(2) reg ts(2)] ps_ok_tenants [OF assms(1)]
    by blast
  then show thesis using that ts by blast
qed

section \<open>Every handler returns and keeps the invariant\<close>

lemma rq_ID_new [simp]: "rq_ID (new_request e a res g tier) = newID (rand_id e)"
  by (simp add: new_request_def)

definition handled :: "ext \<Rightarrow> Config \<Rightarrow> handler_result \<Rightarrow> bool" where
  "handled E cfg res = (\<exists>s' rep. res = Some (s', rep) \<and> ps_ok E cfg s')"

lemma handledI [intro]: "ps_ok E cfg s' \<Longrightarrow> handled E cfg (Some (s', rep))"
  by (simp add: handled_def)

lemma byRoot_live:
  "ps_ok E cfg s \<Longrightarrow> byRoot (tenants s) root = Some t \<Longrightarrow>
   \<exists>ten. theap (tenants s) t = Some ten \<and> Root ten = root \<and> registered (tenants s) root = Some ten"
  using heap_okD(3) [OF ps_okD(5)] by (fastforce simp: registered_def)

lemma ByAgent_live:
  assumes "ps_ok E cfg s" and "ByAgent (tenants s) a = Some t"
  obtains root ten where "byAgent (tenants s) a = Some root" "byRoot (tenants s) root = Some t"
    "theap (tenants s) t = Some ten" "Root ten = root" "registered (tenants s) root = Some ten"
proof -
  obtain root where r: "byAgent (tenants s) a = Some root" "byRoot (tenants s) root = Some t"
    using assms(2) by (auto simp: ByAgent_def split: option.splits)
  show thesis using byRoot_live [OF assms(1) r(2)] that r by blast
qed

lemma bound_ByAgent:
  assumes "ps_ok E cfg s" and "byAgent (tenants s) a = Some root"
  obtains t ten g where "ByAgent (tenants s) a = Some t" "byRoot (tenants s) root = Some t"
    "theap (tenants s) t = Some ten" "registered (tenants s) root = Some ten" "grants ten a = Some g"
proof -
  obtain ten where ten: "registered (tenants s) root = Some ten" "grants ten a \<noteq> None"
    using tenants_okD(3) [OF ps_okD(1) [OF assms(1)] assms(2)] by blast
  then obtain t where "byRoot (tenants s) root = Some t" "theap (tenants s) t = Some ten"
    by (auto simp: registered_def split: option.splits)
  then show thesis using that ten assms(2) by (auto simp: ByAgent_def)
qed

lemma registered_docs:
  "ps_ok E cfg s \<Longrightarrow> registered (tenants s) root = Some ten \<Longrightarrow>
   psa_ok E cfg (tPSA ten) \<and> (\<forall>a g. grants ten a = Some g \<longrightarrow> grant_ok E root a g)"
  using ps_okD(2) by (simp add: docs_ok_def)

lemma issuer_has_key: "psa_ok E cfg psa \<Longrightarrow> IssuerKeys cfg \<noteq> []"
  by (auto simp: psa_ok_def)

text \<open>What the server admits is what its invariant asks for.\<close>

lemma accepted_psa_ok:
  assumes "onboard_verdict E v psa (IssuerURL cfg) (keyThumbs E cfg) = Inr ()" and "PSA_text_ok psa"
    and "ERC1271 v = None"
  shows "psa_ok E cfg psa"
  using assms coveredKey_cases [of "elems (psa_KeyThumbprints psa)" "keyThumbs E cfg"]
    signed_eoa(1) [OF assms(3), where p = psa and E = E]
  by (auto simp: onboard_verdict_def Let_def VerifyPSA_accepts psa_ok_def keyThumbs_def
      split: if_splits sum.splits)

lemma accepted_grant_ok:
  assumes "VerifyAgentGrant E v g root a thumb = Inr ()" and "AgentGrant_text_ok g" and "ERC1271 v = None"
  shows "grant_ok E root a g"
  using assms signed_eoa(2) [OF assms(3), where g = g and E = E]
  by (simp add: VerifyAgentGrant_accepts grant_ok_def)

lemma enroll_step:
  assumes "ps_ok E cfg s" and "byRoot (tenants s) root = Some t" and "grant_ok E root a g"
  obtains ts res where "Enroll E (tenants s) a t g = Some (ts, res)" "ps_ok E cfg (s\<lparr>tenants := ts\<rparr>)"
    "byRoot ts = byRoot (tenants s)" "\<And>x r. byAgent (tenants s) x = Some r \<Longrightarrow> byAgent ts x = Some r"
proof -
  note ok = ps_okD [OF assms(1)]
  obtain ten where ten: "registered (tenants s) root = Some ten" using byRoot_live [OF assms(1,2)] by blast
  show thesis
  proof (cases "byAgent (tenants s) a = None \<or> byAgent (tenants s) a = Some root")
    case False
    then obtain other where "byAgent (tenants s) a = Some other" "other \<noteq> root" by auto
    from Enroll_refuses [OF ok(5) assms(2) ten this, of E g] show thesis
      using that [of "tenants s"] assms(1) by simp
  next
    case True
    from Enroll_admits [OF ok(5) assms(2) ten True, of E g] obtain ts where
      ts: "Enroll E (tenants s) a t g = Some (ts, Inr ())"
        "registered ts = (registered (tenants s))(root \<mapsto> ten\<lparr>grants := (grants ten)(a \<mapsto> g)\<rparr>)"
        "byAgent ts = (byAgent (tenants s))(a \<mapsto> root)" "byRoot ts = byRoot (tenants s)"
      by metis
    have "docs_ok E cfg ts"
      using ok(2) ten assms(3) unfolding docs_ok_def ts(2) by auto
    then have "ps_ok E cfg (s\<lparr>tenants := ts\<rparr>)"
      using ps_ok_tenants [OF assms(1) enroll_change [OF ok(5) assms(2) ts(1)]] by blast
    moreover have "byAgent ts x = Some r" if "byAgent (tenants s) x = Some r" for x r
      using that True by (auto simp: ts(3))
    ultimately show thesis using that ts(1,4) by blast
  qed
qed

lemma onboard_handled:
  assumes "ps_ok E cfg s"
  shows "handled E cfg (onboard E cfg e s r)"
proof (cases "Option.bind (json_decode (http_body r)) PSA_of_json")
  case None
  then show ?thesis using assms by (auto simp: onboard_def)
next
  case (Some psa)
  let ?v = "chain_verifier s (clock e)"
  note ok = ps_okD [OF assms]
  show ?thesis
  proof (cases "onboard_verdict E ?v psa (IssuerURL cfg) (keyThumbs E cfg)")
    case (Inl err)
    then show ?thesis
      using assms Some onboard_refused [OF Inl, of "tenants s"] by (auto simp: onboard_def)
  next
    case (Inr u)
    then have verdict: "onboard_verdict E ?v psa (IssuerURL cfg) (keyThumbs E cfg) = Inr ()" by simp
    from onboard_admits [OF ok(5) verdict] obtain ts t where
      ts: "VerifyAndOnboard E (tenants s) ?v psa (IssuerURL cfg) (keyThumbs E cfg) = Some (ts, Inr t)"
        "heap_ok ts" "byRoot ts (psa_Root psa) = Some t"
        "registered ts = (registered (tenants s))(psa_Root psa \<mapsto>
            admitted (registered (tenants s) (psa_Root psa)) psa)"
      by metis
    have "psa_ok E cfg psa" using accepted_psa_ok [OF verdict PSA_read_ok [OF Some]] by (simp add: chain_verifier_def)
    then have "docs_ok E cfg ts"
      using ok(2) unfolding docs_ok_def ts(4)
      by (auto simp: admitted_def fresh_tenant_def split: option.splits)
    then have "ps_ok E cfg (s\<lparr>tenants := ts\<rparr>)"
      using ps_ok_tenants [OF assms onboard_change [OF ok(5) ts(1)]] by blast
    moreover obtain ten where "theap ts t = Some ten"
      using heap_okD(3) [OF ts(2,3)] by blast
    ultimately show ?thesis using Some ts(1) by (auto simp: onboard_def)
  qed
qed

lemma enrollAgent_handled:
  assumes "ps_ok E cfg s"
  shows "handled E cfg (enrollAgent E cfg e s r)"
proof (cases "Sig cfg r")
  case (Inl err)
  then show ?thesis using assms by (auto simp: enrollAgent_def)
next
  case (Inr ta)
  obtain thumb a where ta: "Sig cfg r = Inr (thumb, a)" using Inr by (cases ta) simp
  note ok = ps_okD [OF assms]
  show ?thesis
  proof (cases "Option.bind (json_decode (http_body r)) AgentGrant_of_json")
    case None
    then show ?thesis using assms ta by (auto simp: enrollAgent_def)
  next
    case (Some g)
    show ?thesis
    proof (cases "byRoot (tenants s) (ag_Root g)")
      case None
      then show ?thesis using assms ta Some by (auto simp: enrollAgent_def ByRoot_def)
    next
      case t: (Some t)
      obtain ten where ten: "theap (tenants s) t = Some ten" "Root ten = ag_Root g"
        "registered (tenants s) (ag_Root g) = Some ten"
        using byRoot_live [OF assms t] by blast
      note unf = enrollAgent_def ta Some ByRoot_def t ten(1,2)
      show ?thesis
      proof (cases "VerifyAgentGrant E (chain_verifier s (clock e)) g (ag_Root g) a thumb")
        case (Inl err)
        then show ?thesis using assms by (auto simp: unf)
      next
        case (Inr u)
        then have acc: "VerifyAgentGrant E (chain_verifier s (clock e)) g (ag_Root g) a thumb = Inr ()" by simp
        then have good: "grant_ok E (ag_Root g) a g"
          using accepted_grant_ok [OF acc AgentGrant_read_ok [OF Some]] by (simp add: chain_verifier_def)
        obtain ts res where ts: "Enroll E (tenants s) a t g = Some (ts, res)" "ps_ok E cfg (s\<lparr>tenants := ts\<rparr>)"
          "byRoot ts = byRoot (tenants s)"
          using enroll_step [OF assms t good] by metis
        show ?thesis
        proof (cases res)
          case (Inl err)
          then show ?thesis using acc ts(1,2) by (auto simp: unf)
        next
          case (Inr u)
          have t1: "byRoot (tenants (s\<lparr>tenants := ts\<rparr>)) (ag_Root g) = Some t" using ts(3) t by simp
          then obtain ten1 where ten1: "theap (tenants (s\<lparr>tenants := ts\<rparr>)) t = Some ten1"
            using byRoot_live [OF ts(2)] by blast
          from log_step [OF ts(2) t1 ten1, of "new_entry ''agent_enrolled'' [] (clock e)" a] obtain ts2 where
            "LogAppend E ts t a (new_entry ''agent_enrolled'' [] (clock e)) = Some ts2"
            "ps_ok E cfg (s\<lparr>tenants := ts2\<rparr>)"
            by (auto simp: new_entry_def)
          then show ?thesis using acc ts(1) Inr by (auto simp: unf)
        qed
      qed
    qed
  qed
qed

lemma finish_handled:
  assumes "ps_ok E cfg s" and "byRoot (tenants s) root = Some t" and "theap (tenants s) t = Some ten"
  shows "handled E cfg (finish E cfg e s req t (Some g) res agentID)"
proof -
  have "registered (tenants s) root = Some ten" using assms(2,3) by (simp add: registered_def)
  then have "IssuerKeys cfg \<noteq> []"
    using registered_docs [OF assms(1)] issuer_has_key by blast
  then obtain k ks where k: "IssuerKeys cfg = k # ks" by (cases "IssuerKeys cfg") auto
  from log_step [OF assms, of "new_entry ''token_issued'' (rq_ID req) (clock e)" agentID] obtain ts where
    "LogAppend E (tenants s) t agentID (new_entry ''token_issued'' (rq_ID req) (clock e)) = Some ts"
    "ps_ok E cfg (s\<lparr>tenants := ts\<rparr>)" by (auto simp: new_entry_def)
  then show ?thesis
    using assms(1,3) k by (auto simp: finish_def split: sum.split)
qed

lemma poll_handled:
  assumes "ps_ok E cfg s"
  shows "handled E cfg (poll E cfg e s r)"
proof (cases "Sig cfg r")
  case (Inl err)
  then show ?thesis using assms by (auto simp: poll_def)
next
  case (Inr ta)
  obtain thumb a where ta: "Sig cfg r = Inr (thumb, a)" using Inr by (cases ta) simp
  note ok = ps_okD [OF assms]
  obtain st res where st: "Poll (pending s) (clock e) (path_value r) = Some (st, res)"
    using consent_total(4) [OF ok(3)] by fastforce
  have ok1: "ps_ok E cfg (s\<lparr>pending := st\<rparr>)"
    using ps_ok_pending [OF assms r_into_rtranclp [where r = "consent_step E (bound cfg (tenants s))", OF consent_step.poll [OF st]] old_requests_ops(1) [OF st]] .
  show ?thesis
  proof (cases res)
    case (Inl err)
    then show ?thesis using ok1 ta st by (auto simp: poll_def)
  next
    case (Inr p)
    then obtain q where q: "rheap st p = Some q"
      using st by (auto simp: Poll_def split: option.splits if_splits)
    have "handled E cfg (poll E cfg e s r)" if approved: "rq_State q = StateApproved" "rq_AgentID q = a"
    proof -
      obtain root where "byAgent (tenants s) a = Some root"
        using ps_okD(4) [OF ok1] q approved(2) by (auto simp: requests_ok_def)
      then obtain t ten g where t: "ByAgent (tenants s) a = Some t" "byRoot (tenants s) root = Some t"
        "theap (tenants s) t = Some ten" "grants ten a = Some g"
        using bound_ByAgent [OF assms] by metis
      then show ?thesis
        using finish_handled [OF ok1, of root t ten e q g "resourceOf q" a] ta st Inr q approved
        by (simp add: poll_def Let_def Grant_def)
    qed
    then show ?thesis
      using ok1 ta st Inr q by (cases "rq_State q") (auto simp: poll_def Let_def)
  qed
qed

lemma code_live:
  assumes "ps_ok E cfg s" and "ByCode (pending s) code = Inr p"
  obtains q r where "p = Some q" "rheap (pending s) q = Some r" "deref (pending s) p = Some (q, r)"
  using coded_cases [OF ps_okD(3) [OF assms(1)], of code thesis] assms(2)
  by (auto simp: ByCode_def deref_def)

lemma approve_routine_ok:
  assumes "ps_ok E cfg s" and "ApproveRoutine (pending s) now code = Some (st, u)"
  shows "ps_ok E cfg (s\<lparr>pending := st\<rparr>)"
  using ps_ok_pending [OF assms(1) ApproveRoutine_steps [OF assms(2)] old_requests_ops(2) [OF assms(2)]] .

lemma approvePage_handled:
  assumes "ps_ok E cfg s"
  shows "handled E cfg (approvePage E cfg e s r)"
proof (cases "ByCode (pending s) (path_value r)")
  case (Inl err)
  then show ?thesis using assms by (auto simp: approvePage_def Let_def)
next
  case (Inr p)
  then obtain q req where req: "deref (pending s) p = Some (q, req)"
    using code_live [OF assms] by metis
  obtain st u where st: "ApproveRoutine (pending s) (clock e) (path_value r) = Some (st, u)"
    using consent_total(1) [OF ps_okD(3) [OF assms]] by fastforce
  then show ?thesis
    using assms Inr req approve_routine_ok [OF assms st]
    by (auto simp: approvePage_def Let_def split: sum.splits option.splits)
qed

lemma approveElevated_handled:
  assumes "ps_ok E cfg s"
  shows "handled E cfg (approveElevated E cfg e s r)"
proof (cases "Option.bind (json_decode (http_body r)) signature_of_json")
  case None
  then show ?thesis using assms by (auto simp: approveElevated_def)
next
  case sig: (Some signature)
  note ok = ps_okD [OF assms]
  show ?thesis
  proof (cases "ByCode (pending s) (path_value r)")
    case (Inl err)
    then show ?thesis using assms sig by (auto simp: approveElevated_def Let_def)
  next
    case (Inr p)
    then obtain q req where req: "p = Some q" "rheap (pending s) q = Some req" "deref (pending s) p = Some (q, req)"
      using code_live [OF assms] by metis
    then obtain root where root: "byAgent (tenants s) (rq_AgentID req) = Some root"
      using ok(4) by (auto simp: requests_ok_def)
    from bound_ByAgent [OF assms root] obtain t ten where
      t: "ByAgent (tenants s) (rq_AgentID req) = Some t" "byRoot (tenants s) root = Some t"
        "theap (tenants s) t = Some ten" by metis
    then have Root: "Root ten = root" using byRoot_live [OF assms t(2)] by auto
    obtain st u where st: "ApproveElevated E (pending s) (clock e) (path_value r) root (ChainID cfg)
        (RegistryAddr cfg) (hexBytes signature) = Some (st, u)"
      using consent_total(3) [OF ok(3)] by fastforce
    have "(consent_step E (bound cfg (tenants s)))\<^sup>*\<^sup>* (pending s) st"
      by (rule ApproveElevated_steps [OF st]) (use Inr req root in \<open>auto simp: ByCode_def bound_def\<close>)
    then have "ps_ok E cfg (s\<lparr>pending := st\<rparr>)"
      using ps_ok_pending [OF assms _ old_requests_ops(3) [OF st]] by blast
    then show ?thesis
      using sig Inr req t Root st by (auto simp: approveElevated_def Let_def split: sum.splits)
  qed
qed

text \<open>The part of \<open>token\<close> after its checks: the request is created, logged and, for a routine request
  the log approves by itself, minted at once.\<close>

lemma token_creates:
  assumes "ps_ok E cfg s" and "byAgent (tenants s) a = Some root" and "byRoot (tenants s) root = Some t"
    and "theap (tenants s) t = Some ten" and "resource_ok res"
  obtains ts ten2 where
    "LogAppend E (tenants s) t a (new_entry ''token_request'' (newID (rand_id e)) (clock e)) = Some ts"
    "ps_ok E cfg (s\<lparr>tenants := ts, pending := fst (Create (pending s) (new_request e a res g tier))\<rparr>)"
    "byRoot ts root = Some t" "theap ts t = Some ten2"
proof -
  from log_step [OF assms(1,3,4), of "new_entry ''token_request'' (newID (rand_id e)) (clock e)" a]
  obtain ts where ts:
      "LogAppend E (tenants s) t a (new_entry ''token_request'' (newID (rand_id e)) (clock e)) = Some ts"
      "ps_ok E cfg (s\<lparr>tenants := ts\<rparr>)" "byAgent ts = byAgent (tenants s)" "byRoot ts = byRoot (tenants s)"
    by auto
  then obtain ten2 where "theap ts t = Some ten2"
    using byRoot_live [OF ts(2), of root t] assms(3) by auto
  then show thesis
    using that [OF ts(1)] ts(4) assms(2,3,5) ts(3)
      ps_ok_create [OF ts(2), of "new_request e a res g tier"] resourceOf_new [OF assms(5)]
    by (simp add: new_request_def request_faithful_def)
qed

lemma token_handled:
  assumes "ps_ok E cfg s"
  shows "handled E cfg (token E cfg e s r)"
proof (cases "Sig cfg r")
  case (Inl err)
  then show ?thesis using assms by (auto simp: token_def)
next
  case (Inr ta)
  obtain thumb a where ta: "Sig cfg r = Inr (thumb, a)" using Inr by (cases ta) simp
  show ?thesis
  proof (cases "ByAgent (tenants s) a")
    case None
    then show ?thesis using assms ta by (auto simp: token_def)
  next
    case t: (Some t)
    from ByAgent_live [OF assms t] obtain root ten where live:
      "byAgent (tenants s) a = Some root" "byRoot (tenants s) root = Some t" "theap (tenants s) t = Some ten"
      by metis
    have "handled E cfg (token E cfg e s r)"
      if g: "grants ten a = Some g" "ag_AgentThumbprint g = thumb"
        and body: "Option.bind (json_decode (http_body r)) token_body_of_json = Some (rt, mission)"
        and res: "parseResourceToken rt = Some res"
        and ok: "Consistent (tlog ten) a (ag_MissionScopeS256 g) (elems (rc_Scope res)) (rc_AmountWei res) = Inr ()"
      for g rt mission res
    proof -
      let ?q = "new_request e a res g (tierFor (psa_Scope (tPSA ten)) res)"
      let ?st = "fst (Create (pending s) ?q)"
      from token_creates [OF assms live parseResourceToken_ok [OF res, THEN conjunct1]] obtain ts ten2 where ts:
        "LogAppend E (tenants s) t a (new_entry ''token_request'' (newID (rand_id e)) (clock e)) = Some ts"
        "ps_ok E cfg (s\<lparr>tenants := ts, pending := ?st\<rparr>)" "byRoot ts root = Some t" "theap ts t = Some ten2"
        by metis
      obtain st2 u where st2: "ApproveRoutine ?st (clock e) (rq_Code ?q) = Some (st2, u)"
        using consent_total(1) [OF ps_okD(3) [OF ts(2)]] by fastforce
      have ok2: "ps_ok E cfg (s\<lparr>tenants := ts, pending := st2\<rparr>)"
        using approve_routine_ok [OF ts(2)] st2 by simp
      have "handled E cfg (finish E cfg e (s\<lparr>tenants := ts, pending := st2\<rparr>) ?q t (Some g) res a)"
        using finish_handled [OF ok2] ts(3,4) by simp
      then show ?thesis
        using ta t live(3) g body res ok ts(1,2) st2
        by (auto simp: token_def Let_def split: prod.splits)
    qed
    then show ?thesis
      using assms ta t live(3)
      by (auto simp: token_def split: option.split sum.split)
  qed
qed

end
