(* ===== verification/Server_Steps.thy ===== *)
theory Server_Steps
  imports Server
begin

text \<open>
  The person server as a state machine, the invariant of its reachable states, and which replies
  carry tokens.
\<close>

section \<open>The state machine\<close>

text \<open>
  A step is one HTTP request, with any method, path, headers and body, at any time and with any
  random draws, or a revocation that reaches the registry. A handler runs as one step.
\<close>

inductive ps_step :: "ext \<Rightarrow> Config \<Rightarrow> ps \<Rightarrow> ps \<Rightarrow> bool" for E cfg where
  serve: "Routes E cfg e s meth path r = Some (s', rep) \<Longrightarrow> ps_step E cfg s s'"
| revoke: "ps_step E cfg s (s\<lparr>registry := Revoke (registry s) root nonce\<rparr>)"

inductive_cases ps_stepE: "ps_step E cfg s s'"

lemma reading_handled: "ps_ok E cfg s \<Longrightarrow> rep \<noteq> None \<Longrightarrow> handled E cfg (reading s rep)"
  by (auto simp: reading_def)

lemma for_method_handled: "ps_ok E cfg s \<Longrightarrow> handled E cfg res \<Longrightarrow> handled E cfg (for_method ok s res)"
  by (auto simp: for_method_def)

lemma export_total: "ps_ok E cfg s \<Longrightarrow> export cfg s r \<noteq> None"
  using byRoot_live by (fastforce simp: export_def ByRoot_def split: sum.split option.split)

lemma servePSA_total: "ps_ok E cfg s \<Longrightarrow> servePSA s r \<noteq> None"
  using byRoot_live by (fastforce simp: servePSA_def ByRoot_def split: option.split)

lemmas handler_rules = for_method_handled reading_handled handledI
  onboard_handled enrollAgent_handled token_handled poll_handled approvePage_handled
  approveElevated_handled

lemma handled_if: "handled E cfg x \<Longrightarrow> handled E cfg y \<Longrightarrow> handled E cfg (if b then x else y)"
  by simp

lemma Routes_handled:
  assumes "ps_ok E cfg s"
  shows "handled E cfg (Routes E cfg e s meth path r)"
proof -
  note rules = handled_if handler_rules export_total [OF assms] servePSA_total [OF assms] assms
  show ?thesis
    unfolding Routes_def Let_def by (simp only: split: list.split) (intro conjI allI impI rules)
qed

lemma ps_ok_step: "ps_step E cfg s s' \<Longrightarrow> ps_ok E cfg s \<Longrightarrow> ps_ok E cfg s'"
proof (erule ps_stepE)
  fix e meth path r rep
  assume "ps_ok E cfg s" and "Routes E cfg e s meth path r = Some (s', rep)"
  then show "ps_ok E cfg s'" using Routes_handled [of E cfg s e meth path r] by (simp add: handled_def)
qed (simp add: ps_ok_def)

interpretation serving: transition_invariant "ps_step E cfg" "ps_ok E cfg" for E cfg
  by unfold_locales (rule ps_ok_step)

lemma reachable_ok: "(ps_step E cfg)\<^sup>*\<^sup>* New_server s \<Longrightarrow> ps_ok E cfg s"
  using serving.inv_reaches ps_ok_New by blast

section \<open>Tokens\<close>

text \<open>A reply that carries an auth token, and the only handler that gives one.\<close>

definition token_reply :: "string \<Rightarrow> reply" where
  "token_reply tok = Reply 200 [] (JObj [(''auth_token'', JStr tok)])"

definition gives_token :: "handler_result \<Rightarrow> bool" where
  "gives_token res = (\<exists>s tok. res = Some (s, token_reply tok))"

lemma gives_token_simps [simp]:
  "gives_token None = False"
  "gives_token (Some (s, ErrorReply n c)) = False" "gives_token (Some (s, MuxReply n)) = False"
  "gives_token (Some (s, ExportReply p l)) = False"
  "gives_token (Some (s, Reply n h (JObj []))) = False"
  "gives_token (Some (s, Reply n h (JObj ((k, v) # ms)))) =
     (n = 200 \<and> h = [] \<and> k = ''auth_token'' \<and> ms = [] \<and> (\<exists>tok. v = JStr tok))"
  by (auto simp: gives_token_def token_reply_def)

lemma gives_token_if:
  "(b \<Longrightarrow> \<not> gives_token x) \<Longrightarrow> (\<not> b \<Longrightarrow> \<not> gives_token y) \<Longrightarrow> \<not> gives_token (if b then x else y)"
  by simp

lemma no_token_onboard: "\<not> gives_token (onboard E cfg e s r)"
  by (auto simp: onboard_def split: option.split prod.split sum.split)

lemma no_token_enroll: "\<not> gives_token (enrollAgent E cfg e s r)"
  by (auto simp: enrollAgent_def split: option.split prod.split sum.split)

lemma no_token_token: "\<not> gives_token (token E cfg e s r)"
  by (auto simp: token_def AutoApprovable_def Let_def split: option.split prod.split sum.split)

lemma no_token_approve: "\<not> gives_token (approvePage E cfg e s r)" "\<not> gives_token (approveElevated E cfg e s r)"
  by (auto simp: approvePage_def approveElevated_def Let_def split: option.split prod.split sum.split)

lemma no_token_reading:
  "\<not> gives_token (reading s (export cfg s r))" "\<not> gives_token (reading s (servePSA s r))"
  "\<not> gives_token (Some (s, serveGrant s r))" "\<not> gives_token (Some (s, metadata cfg))"
  "\<not> gives_token (Some (s, jwks cfg))"
  by (auto simp: reading_def export_def servePSA_def serveGrant_def metadata_def jwks_def PSA_json_def
      AgentGrant_json_def split: option.split sum.split)

lemma no_token_method: "\<not> gives_token res \<Longrightarrow> \<not> gives_token (for_method ok s res)"
  by (simp add: for_method_def)

lemmas no_token = gives_token_if no_token_method no_token_onboard no_token_enroll no_token_token
  no_token_approve no_token_reading

lemma only_poll_gives_tokens:
  assumes "gives_token (Routes E cfg e s meth path r)"
  obtains rid where "path = [''pending'', rid]"
    "Routes E cfg e s meth path r = poll E cfg e s (r\<lparr>path_value := rid\<rparr>)"
proof (cases "\<exists>rid. path = [''pending'', rid]")
  case True
  then obtain rid where "path = [''pending'', rid]" by blast
  then show thesis using assms that by (auto simp: Routes_def for_method_def split: if_splits)
next
  case False
  have "\<not> gives_token (Routes E cfg e s meth path r)"
    unfolding Routes_def Let_def using False
    by (simp only: split: list.split)
      (intro conjI allI impI no_token gives_token_if; simp)
  then show thesis using assms by blast
qed

text \<open>A poll that finds the request decided leaves the store as it was.\<close>

lemma Poll_decided:
  assumes "Poll st now rid = Some (st', Inr p)" and "rheap st' p = Some q" and "rq_State q = StateApproved"
  shows "st' = st" "byID st rid = Some p"
  using assms by (auto simp: Poll_def split: option.splits if_splits)

lemma finish_token:
  "finish E cfg e s q t (Some g) res a = Some (s', token_reply tok) \<longleftrightarrow>
     (\<exists>k ks ten ts. IssuerKeys cfg = k # ks \<and> theap (tenants s) t = Some ten
        \<and> Mint E (clock e) (rand_jti e) k (finish_input cfg ten g res a (step_up E cfg q)) = Inr tok
        \<and> LogAppend E (tenants s) t a (new_entry ''token_issued'' (rq_ID q) (clock e)) = Some ts
        \<and> s' = s\<lparr>tenants := ts\<rparr>)"
  by (auto simp: finish_def token_reply_def split: list.split option.split sum.split)

lemma poll_gives_token:
  assumes "poll E cfg e s r = Some (s', token_reply tok)"
  obtains thumb p q t g where
    "Sig cfg r = Inr (thumb, rq_AgentID q)" "byID (pending s) (path_value r) = Some p"
    "rheap (pending s) p = Some q" "rq_State q = StateApproved"
    "ByAgent (tenants s) (rq_AgentID q) = Some t" "Grant (tenants s) t (rq_AgentID q) = Some g"
    "finish E cfg e s q t g (resourceOf q) (rq_AgentID q) = Some (s', token_reply tok)"
proof -
  obtain thumb a where ta: "Sig cfg r = Inr (thumb, a)"
    using assms by (auto simp: poll_def token_reply_def split: sum.splits)
  obtain st p q where st: "Poll (pending s) (clock e) (path_value r) = Some (st, Inr p)" "rheap st p = Some q"
    using assms ta by (auto simp: poll_def token_reply_def Let_def split: option.splits prod.splits sum.splits)
  have q: "rq_State q = StateApproved" "rq_AgentID q = a"
    using assms ta st by (auto simp: poll_def token_reply_def Let_def split: if_splits State.splits)
  note same = Poll_decided [OF st q(1)]
  have "(s\<lparr>pending := st\<rparr>) = s" by (simp add: same)
  then show thesis
    using assms ta st q same
    by (auto simp: poll_def Let_def split: option.splits intro!: that)
qed

lemma signed_step_up:
  assumes "ps_ok E cfg s" and "rheap (pending s) p = Some q" and "step_up E cfg q \<noteq> None"
    and "byAgent (tenants s) (rq_AgentID q) = Some root"
  shows "\<exists>sig digest. rq_StepUpSig q = Some sig
           \<and> ApprovalDigest E q (ChainID cfg) (RegistryAddr cfg) = Some digest
           \<and> verifyEOASig E root digest sig = Inr ()"
proof -
  obtain sig where "rq_StepUpSig q = Some sig"
    using assms(3) by (auto simp: step_up_def split: if_splits option.splits)
  then show ?thesis
    using consent_okD(4) [OF ps_okD(3) [OF assms(1)] assms(2)] assms(4)
    by (auto simp: request_ok_def root_approved_def bound_def)
qed

lemma request_shows_mint:
  "ps_ok E cfg s \<Longrightarrow> rheap (pending s) p = Some q \<Longrightarrow> request_faithful q"
  using ps_okD(4) by (auto simp: requests_ok_def)

lemma agent_documents:
  assumes "ps_ok E cfg s" and "ByAgent (tenants s) a = Some t" and "theap (tenants s) t = Some ten"
    and "grants ten a = Some g"
  obtains root where "byAgent (tenants s) a = Some root" "byRoot (tenants s) root = Some t"
    "registered (tenants s) root = Some ten"
    "psa_ok E cfg (tPSA ten)" "grant_ok E root a g"
proof -
  from ByAgent_live [OF assms(1,2)] obtain root ten' where
    "byAgent (tenants s) a = Some root" "byRoot (tenants s) root = Some t" "theap (tenants s) t = Some ten'"
    "registered (tenants s) root = Some ten'" by metis
  then show thesis using that assms(3,4) registered_docs [OF assms(1)] by auto
qed

text \<open>The registry is no part of what a poll or a token request reads.\<close>

definition with_registry :: "MemoryRegistry \<Rightarrow> handler_result \<Rightarrow> handler_result" where
  "with_registry m res = map_option (\<lambda>(s', rep). (s'\<lparr>registry := m\<rparr>, rep)) res"

lemma with_registry_simps [simp]:
  "with_registry m None = None" "with_registry m (Some (s, rep)) = Some (s\<lparr>registry := m\<rparr>, rep)"
  by (simp_all add: with_registry_def)

lemma finish_registry:
  "finish E cfg e (s\<lparr>registry := m\<rparr>) q t g res a = with_registry m (finish E cfg e s q t g res a)"
  by (simp add: finish_def split: list.split option.split sum.split)

lemma registry_last:
  "s\<lparr>registry := m, pending := st\<rparr> = s\<lparr>pending := st, registry := m\<rparr>"
  "s\<lparr>registry := m, tenants := ts\<rparr> = s\<lparr>tenants := ts, registry := m\<rparr>"
  by (cases s; simp)+

lemma poll_registry: "poll E cfg e (s\<lparr>registry := m\<rparr>) r = with_registry m (poll E cfg e s r)"
  by (simp add: poll_def Let_def registry_last finish_registry [symmetric] split: list.split option.split sum.split prod.split State.split)

lemma token_registry: "token E cfg e (s\<lparr>registry := m\<rparr>) r = with_registry m (token E cfg e s r)"
  by (simp add: token_def Let_def registry_last finish_registry [symmetric] AutoApprovable_def split: list.split option.split sum.split prod.split)

end
