(* ===== verification/Server_Run.thy ===== *)
theory Server_Run
  imports Server_Steps
begin

text \<open>
  What the handlers do when their caller follows the protocol: onboarding, enrolling an agent,
  asking for a token, approving it with a click or a root signature, and polling. Each lemma gives
  the reply and the part of the next state the following steps need.
\<close>

section \<open>Accounts\<close>

text \<open>The account an agent acts for: a registered root with its authorization and the agent's grant.\<close>

definition account :: "Tenants \<Rightarrow> string \<Rightarrow> PSA \<Rightarrow> string \<Rightarrow> AgentGrant \<Rightarrow> bool" where
  "account ts root psa a g =
     (byAgent ts a = Some root
      \<and> (\<exists>ten. registered ts root = Some ten \<and> tPSA ten = psa \<and> grants ten a = Some g))"

lemma account_live:
  assumes "ps_ok E cfg s" and "account (tenants s) root psa a g"
  obtains t ten where "ByAgent (tenants s) a = Some t" "byRoot (tenants s) root = Some t"
    "theap (tenants s) t = Some ten" "registered (tenants s) root = Some ten" "Root ten = root"
    "tPSA ten = psa" "grants ten a = Some g" "byAgent (tenants s) a = Some root"
proof -
  obtain ten where ten: "registered (tenants s) root = Some ten" "tPSA ten = psa" "grants ten a = Some g"
    and a: "byAgent (tenants s) a = Some root" using assms(2) by (auto simp: account_def)
  from bound_ByAgent [OF assms(1) a] obtain t ten' g' where
    t: "ByAgent (tenants s) a = Some t" "byRoot (tenants s) root = Some t" "theap (tenants s) t = Some ten'"
      "registered (tenants s) root = Some ten'" .
  have "ten' = ten" using t(4) ten(1) by simp
  moreover have "Root ten = root" using registered_Root [OF ps_okD(5) [OF assms(1)] ten(1)] .
  ultimately show thesis using that t ten a by simp
qed

lemma log_keeps_account:
  assumes "heap_ok ts" and "byRoot ts root = Some t" and "registered ts root = Some ten"
    and "account ts root' psa a g"
  obtains ts2 where "LogAppend E ts t b e = Some ts2" "account ts2 root' psa a g" "byGrantS256 ts2 = byGrantS256 ts"
proof -
  obtain ts2 where ts2: "LogAppend E ts t b e = Some ts2" "byAgent ts2 = byAgent ts" "byGrantS256 ts2 = byGrantS256 ts"
    "registered ts2 = (registered ts)(root \<mapsto> ten\<lparr>tlog := Append E (tlog ten) b e\<rparr>)"
    using LogAppend_view [OF assms(1-3), of E b e] by metis
  have "account ts2 root' psa a g"
    using assms(3,4) ts2(2,4) by (cases "root' = root") (auto simp: account_def)
  then show thesis using that ts2(1,3) by blast
qed

section \<open>Onboarding and enrollment\<close>

lemma onboard_ok:
  assumes "ps_ok E cfg s" and "Option.bind (json_decode (http_body r)) PSA_of_json = Some psa"
    and "onboard_verdict E (chain_verifier s (clock e)) psa (IssuerURL cfg) (keyThumbs E cfg) = Inr ()"
  obtains ts ten where "onboard E cfg e s r = Some (s\<lparr>tenants := ts\<rparr>,
      Reply 201 [] (JObj [(''psa_url'', JStr (IssuerURL cfg @ ''/psa/'' @ psa_Root psa)),
                          (''root'', JStr (psa_Root psa))]))"
    "registered ts (psa_Root psa) = Some ten" "tPSA ten = psa" "byAgent ts = byAgent (tenants s)"
proof -
  from onboard_admits [OF ps_okD(5) [OF assms(1)] assms(3)] obtain ts t where ts:
    "VerifyAndOnboard E (tenants s) (chain_verifier s (clock e)) psa (IssuerURL cfg) (keyThumbs E cfg)
       = Some (ts, Inr t)" "heap_ok ts" "byRoot ts (psa_Root psa) = Some t"
    "registered ts = (registered (tenants s))(psa_Root psa \<mapsto>
       admitted (registered (tenants s) (psa_Root psa)) psa)" "byAgent ts = byAgent (tenants s)"
    by metis
  let ?ten = "admitted (registered (tenants s) (psa_Root psa)) psa"
  have reg: "registered ts (psa_Root psa) = Some ?ten" using ts(4) by simp
  then have "theap ts t = Some ?ten" using byRoot_registered [OF ts(2,3)] by simp
  moreover have "tPSA ?ten = psa" by (simp add: admitted_def fresh_tenant_def split: option.split)
  moreover have "Root ?ten = psa_Root psa" using registered_Root [OF ts(2) reg] .
  ultimately show thesis using that [OF _ reg _ ts(5)] assms(2) ts(1) by (simp add: onboard_def)
qed

lemma enroll_ok:
  assumes "ps_ok E cfg s" and "Sig cfg r = Inr (thumb, a)"
    and "Option.bind (json_decode (http_body r)) AgentGrant_of_json = Some g"
    and "registered (tenants s) (ag_Root g) = Some ten"
    and "byAgent (tenants s) a = None \<or> byAgent (tenants s) a = Some (ag_Root g)"
    and "VerifyAgentGrant E (chain_verifier s (clock e)) g (ag_Root g) a thumb = Inr ()"
  obtains ts where "enrollAgent E cfg e s r = Some (s\<lparr>tenants := ts\<rparr>,
      Reply 201 [] (JObj [(''root'', JStr (ag_Root g)), (''status'', JStr ''enrolled'')]))"
    "account ts (ag_Root g) (tPSA ten) a g" "GrantByS256 ts (ContentHash E (AgentGrant_json g)) = Some g"
proof -
  note ok = ps_okD [OF assms(1)]
  obtain t where t: "byRoot (tenants s) (ag_Root g) = Some t" "theap (tenants s) t = Some ten"
    using assms(4) by (auto simp: registered_def split: option.splits)
  from Enroll_admits [OF ok(5) t(1) assms(4,5), of E g] obtain ts where
    ts: "Enroll E (tenants s) a t g = Some (ts, Inr ())" "heap_ok ts"
      "registered ts = (registered (tenants s))(ag_Root g \<mapsto> ten\<lparr>grants := (grants ten)(a \<mapsto> g)\<rparr>)"
      "byAgent ts = (byAgent (tenants s))(a \<mapsto> ag_Root g)" "byRoot ts = byRoot (tenants s)"
      "byGrantS256 ts = (byGrantS256 (tenants s))(ContentHash E (AgentGrant_json g) \<mapsto> g)"
    by metis
  have reg: "registered ts (ag_Root g) = Some (ten\<lparr>grants := (grants ten)(a \<mapsto> g)\<rparr>)" using ts(3) by simp
  have "byRoot ts (ag_Root g) = Some t" "account ts (ag_Root g) (tPSA ten) a g"
    using t(1) ts(4,5) reg by (simp_all add: account_def)
  from log_keeps_account [OF ts(2) this(1) reg this(2)] obtain ts2 where
    ts2: "LogAppend E ts t a (new_entry ''agent_enrolled'' [] (clock e)) = Some ts2"
      "account ts2 (ag_Root g) (tPSA ten) a g" "byGrantS256 ts2 = byGrantS256 ts" by metis
  have "GrantByS256 ts2 (ContentHash E (AgentGrant_json g)) = Some g"
    using ts(6) ts2(3) by (simp add: GrantByS256_def)
  moreover have "Root ten = ag_Root g" using registered_Root [OF ok(5) assms(4)] .
  ultimately show thesis
    using that [OF _ ts2(2)] ts2(1) assms(2,3,6) t ts(1) by (simp add: enrollAgent_def ByRoot_def)
qed

section \<open>Asking for a token\<close>

lemma token_ok:
  assumes "ps_ok E cfg s" and "Sig cfg r = Inr (thumb, a)" and "account (tenants s) root psa a g"
    and "ag_AgentThumbprint g = thumb" and "ag_MissionScopeS256 g \<noteq> []"
    and "Option.bind (json_decode (http_body r)) token_body_of_json = Some (rt, mission)"
    and "parseResourceToken rt = Some res"
  obtains ts h b where
    "token E cfg e s r = Some (s\<lparr>tenants := ts,
       pending := fst (Create (pending s) (new_request e a res g (tierFor (psa_Scope psa) res)))\<rparr>, Reply 202 h b)"
    "account ts root psa a g" "byGrantS256 ts = byGrantS256 (tenants s)"
proof -
  from account_live [OF assms(1,3)] obtain t ten where
    t: "ByAgent (tenants s) a = Some t" "byRoot (tenants s) root = Some t" "theap (tenants s) t = Some ten"
      "registered (tenants s) root = Some ten" "tPSA ten = psa" "grants ten a = Some g" by metis
  from log_keeps_account [OF ps_okD(5) [OF assms(1)] t(2,4) assms(3)] obtain ts where
    ts: "LogAppend E (tenants s) t a (new_entry ''token_request'' (newID (rand_id e)) (clock e)) = Some ts"
      "account ts root psa a g" "byGrantS256 ts = byGrantS256 (tenants s)" by metis
  show thesis
    using that [OF _ ts(2,3)] ts(1) assms(2,4-7) t
    by (auto simp: token_def Consistent_def AutoApprovable_def Let_def split: prod.splits)
qed

text \<open>Where a request just created is found.\<close>

lemma created:
  assumes "consent_ok E K st"
  shows "byID (fst (Create st q)) (rq_ID q) = Some (rnext st)"
    "rheap (fst (Create st q)) (rnext st) = Some (q\<lparr>rq_State := StatePending\<rparr>)"
    "coded (fst (Create st q)) (rq_Code q) = Some (rnext st, q\<lparr>rq_State := StatePending\<rparr>)"
  by (simp_all add: Create_def coded_def deref_def)

section \<open>Approving it\<close>

lemma coded_ByCode:
  "coded st code = Some (p, q) \<Longrightarrow> ByCode st code = Inr (Some p) \<and> deref st (Some p) = Some (p, q)"
  by (auto simp: coded_def ByCode_def byCodeLocked_def deref_def split: option.splits)

lemma click_ok:
  assumes "ps_ok E cfg s" and "coded (pending s) (path_value r) = Some (p, q)"
    and "rq_Tier q = TierRoutine" and "open_at (clock e) q"
  shows "\<exists>rep. approvePage E cfg e s r
           = Some (s\<lparr>pending := set_request (pending s) p (q\<lparr>rq_State := StateApproved\<rparr>)\<rparr>, rep)"
proof -
  have "ApproveRoutine (pending s) (clock e) (path_value r)
      = Some (set_request (pending s) p (q\<lparr>rq_State := StateApproved\<rparr>), Inr ())"
    using assms by (simp add: ApproveRoutine_success [OF ps_okD(3) [OF assms(1)]])
  then show ?thesis
    using coded_ByCode [OF assms(2)] assms(3) by (simp add: approvePage_def Let_def)
qed

lemma sign_ok:
  assumes "ps_ok E cfg s" and "coded (pending s) (path_value r) = Some (p, q)"
    and "rq_Tier q = TierElevated" and "open_at (clock e) q"
    and "account (tenants s) root psa (rq_AgentID q) g"
    and "Option.bind (json_decode (http_body r)) signature_of_json = Some sg"
    and "ApprovalDigest E q (ChainID cfg) (RegistryAddr cfg) = Some digest"
    and "verifyEOASig E root digest (hexBytes sg) = Inr ()"
  shows "approveElevated E cfg e s r
           = Some (s\<lparr>pending := set_request (pending s) p
                 (q\<lparr>rq_StepUpSig := Some (hexBytes sg), rq_State := StateApproved\<rparr>)\<rparr>,
               Reply 200 [] (JObj [(''status'', JStr ''approved'')]))"
proof -
  from account_live [OF assms(1,5)] obtain t ten where
    t: "ByAgent (tenants s) (rq_AgentID q) = Some t" "theap (tenants s) t = Some ten" "Root ten = root" by metis
  have "ApproveElevated E (pending s) (clock e) (path_value r) root (ChainID cfg) (RegistryAddr cfg) (hexBytes sg)
      = Some (set_request (pending s) p (q\<lparr>rq_StepUpSig := Some (hexBytes sg), rq_State := StateApproved\<rparr>), Inr ())"
    using assms by (simp add: ApproveElevated_success [OF ps_okD(3) [OF assms(1)]])
  then show ?thesis
    using coded_ByCode [OF assms(2)] t assms(6) by (simp add: approveElevated_def Let_def)
qed

section \<open>Polling\<close>

text \<open>The token a poll of an approved request gives.\<close>

definition mint_for :: "Config \<Rightarrow> string \<Rightarrow> PSA \<Rightarrow> AgentGrant \<Rightarrow> ResourceClaims \<Rightarrow> string \<Rightarrow> StepUp option \<Rightarrow> MintInput" where
  "mint_for cfg root psa g res a su =
     finish_input cfg \<lparr>Root = root, tPSA = psa, grants = Map.empty, tlog = NewLog\<rparr> g res a su"

lemma finish_input_tenant:
  "Root ten = root \<Longrightarrow> tPSA ten = psa \<Longrightarrow> finish_input cfg ten g res a su = mint_for cfg root psa g res a su"
  by (simp add: mint_for_def finish_input_def)

lemma poll_ok:
  assumes "ps_ok E cfg s" and "Sig cfg r = Inr (thumb, rq_AgentID q)"
    and "byID (pending s) (path_value r) = Some p" and "rheap (pending s) p = Some q"
    and "rq_State q = StateApproved" and "account (tenants s) root psa (rq_AgentID q) g"
    and "Mint E (clock e) (rand_jti e) (hd (IssuerKeys cfg))
           (mint_for cfg root psa g (resourceOf q) (rq_AgentID q) (step_up E cfg q)) = Inr tok"
  shows "\<exists>ts. poll E cfg e s r = Some (s\<lparr>tenants := ts\<rparr>, token_reply tok)
           \<and> account ts root psa (rq_AgentID q) g \<and> byGrantS256 ts = byGrantS256 (tenants s)"
proof -
  from account_live [OF assms(1,6)] obtain t ten where
    t: "ByAgent (tenants s) (rq_AgentID q) = Some t" "byRoot (tenants s) root = Some t"
      "theap (tenants s) t = Some ten" "registered (tenants s) root = Some ten" "Root ten = root"
      "tPSA ten = psa" "grants ten (rq_AgentID q) = Some g" by metis
  obtain k ks where k: "IssuerKeys cfg = k # ks"
    using issuer_has_key registered_docs [OF assms(1) t(4)] by (cases "IssuerKeys cfg") auto
  from log_keeps_account [OF ps_okD(5) [OF assms(1)] t(2,4) assms(6)] obtain ts where
    ts: "LogAppend E (tenants s) t (rq_AgentID q) (new_entry ''token_issued'' (rq_ID q) (clock e)) = Some ts"
      "account ts root psa (rq_AgentID q) g" "byGrantS256 ts = byGrantS256 (tenants s)" by metis
  have "Poll (pending s) (clock e) (path_value r) = Some (pending s, Inr p)"
    using assms(3-5) by (simp add: Poll_def)
  then have "poll E cfg e s r = finish E cfg e s q t (Some g) (resourceOf q) (rq_AgentID q)"
    using assms(2,4,5) t(1,3,7) by (simp add: poll_def Grant_def)
  moreover have "finish E cfg e s q t (Some g) (resourceOf q) (rq_AgentID q) = Some (s\<lparr>tenants := ts\<rparr>, token_reply tok)"
    using k t(3) ts(1) assms(7) finish_input_tenant [OF t(5,6)] unfolding finish_token by auto
  ultimately show ?thesis using ts(2,3) by auto
qed

section \<open>A whole run\<close>

lemma Routes_ok: "ps_ok E cfg s \<Longrightarrow> Routes E cfg e s meth path r = Some (s', rep) \<Longrightarrow> ps_ok E cfg s'"
  using ps_ok_step ps_step.serve by blast

lemma step_up_signed:
  assumes "rq_StepUpSig q = Some sig" and "length sig = 65"
    and "ApprovalDigest E q (ChainID cfg) (RegistryAddr cfg) = Some digest"
  shows "step_up E cfg q = Some \<lparr>su_Digest = hexStr digest, su_Sig = hexStr sig\<rparr>"
  using assms by (simp add: step_up_def)

lemma ApprovalDigest_frame:
  "ApprovalDigest E (q\<lparr>rq_StepUpSig := sg\<rparr>) = ApprovalDigest E q"
  "ApprovalDigest E (q\<lparr>rq_State := st\<rparr>) = ApprovalDigest E q"
  by (simp_all add: fun_eq_iff ApprovalDigest_def Approval_typed_data_def)

lemma within_payment_any: "within_payment sc a (Some x) = within_payment sc a (Some y)"
  by (simp add: within_payment_def split: option.split)

text \<open>Onboarding and enrollment, one after the other.\<close>

lemma account_opens:
  assumes "ps_ok E cfg s0"
    and "Option.bind (json_decode (http_body r1)) PSA_of_json = Some psa"
    and "onboard_verdict E (chain_verifier s0 (clock e1)) psa (IssuerURL cfg) (keyThumbs E cfg) = Inr ()"
    and "Sig cfg r2 = Inr (ag_AgentThumbprint g, a)"
    and "byAgent (tenants s0) a = None \<or> byAgent (tenants s0) a = Some (psa_Root psa)"
    and "Option.bind (json_decode (http_body r2)) AgentGrant_of_json = Some g"
    and "VerifyAgentGrant E (chain_verifier s0 (clock e2)) g (psa_Root psa) a (ag_AgentThumbprint g) = Inr ()"
  obtains s1 s2 x1 x2 where "Routes E cfg e1 s0 ''POST'' [''psa''] r1 = Some (s1, x1)"
    "Routes E cfg e2 s1 ''POST'' [''agents''] r2 = Some (s2, x2)" "ps_ok E cfg s2"
    "account (tenants s2) (psa_Root psa) psa a g" "pending s2 = pending s0"
    "GrantByS256 (tenants s2) (ContentHash E (AgentGrant_json g)) = Some g"
proof -
  have root: "ag_Root g = psa_Root psa" using assms(7) by (simp add: VerifyAgentGrant_accepts)
  obtain ts1 ten x1 where on: "onboard E cfg e1 s0 r1 = Some (s0\<lparr>tenants := ts1\<rparr>, x1)"
    "registered ts1 (psa_Root psa) = Some ten" "tPSA ten = psa" "byAgent ts1 = byAgent (tenants s0)"
    using onboard_ok [OF assms(1-3)] by metis
  let ?s1 = "s0\<lparr>tenants := ts1\<rparr>"
  have r1: "Routes E cfg e1 s0 ''POST'' [''psa''] r1 = Some (?s1, x1)"
    using on(1) by (simp add: Routes_def for_method_def)
  have ok1: "ps_ok E cfg ?s1" using Routes_ok [OF assms(1) r1] .
  have v: "chain_verifier ?s1 (clock e2) = chain_verifier s0 (clock e2)" by (simp add: chain_verifier_def)
  have "registered (tenants ?s1) (ag_Root g) = Some ten"
    "byAgent (tenants ?s1) a = None \<or> byAgent (tenants ?s1) a = Some (ag_Root g)"
    "VerifyAgentGrant E (chain_verifier ?s1 (clock e2)) g (ag_Root g) a (ag_AgentThumbprint g) = Inr ()"
    using on(2,4) assms(5,7) v root by auto
  from enroll_ok [OF ok1 assms(4,6) this] obtain ts2 x2 where
    en: "enrollAgent E cfg e2 ?s1 r2 = Some (?s1\<lparr>tenants := ts2\<rparr>, x2)"
      "account ts2 (psa_Root psa) psa a g" "GrantByS256 ts2 (ContentHash E (AgentGrant_json g)) = Some g"
    unfolding root on(3) by metis
  have r2: "Routes E cfg e2 ?s1 ''POST'' [''agents''] r2 = Some (?s1\<lparr>tenants := ts2\<rparr>, x2)"
    using en(1) by (simp add: Routes_def for_method_def)
  show thesis
    using that [OF r1 r2 Routes_ok [OF ok1 r2]] en(2,3) by simp
qed

text \<open>From an account to a token above the step-up threshold: asking, signing, polling.\<close>

lemma step_up_run:
  assumes ok: "ps_ok E cfg s" and acc: "account (tenants s) root psa a g"
    and agent: "Sig cfg r3 = Inr (ag_AgentThumbprint g, a)"
      "Sig cfg (r5\<lparr>path_value := newID (rand_id e3)\<rparr>) = Inr (ag_AgentThumbprint g, a)"
    and mission: "ag_MissionScopeS256 g \<noteq> []"
    and request: "Option.bind (json_decode (http_body r3)) token_body_of_json = Some (rt, m)"
      "parseResourceToken rt = Some res" "tierFor (psa_Scope psa) res = TierElevated"
    and approval: "Option.bind (json_decode (http_body r4)) signature_of_json = Some sg"
      "ApprovalDigest E (new_request e3 a res g TierElevated) (ChainID cfg) (RegistryAddr cfg) = Some digest"
      "verifyEOASig E root digest (hexBytes sg) = Inr ()" "clock e4 \<le> clock e3 + 10 * Minute"
    and mint: "Mint E (clock e5) (rand_jti e5) (hd (IssuerKeys cfg))
      (mint_for cfg root psa g res a (Some \<lparr>su_Digest = hexStr digest, su_Sig = hexStr (hexBytes sg)\<rparr>)) = Inr tok"
  shows "\<exists>s3 s4 s5 x3 x4. Routes E cfg e3 s ''POST'' [''token''] r3 = Some (s3, x3)
   \<and> Routes E cfg e4 s3 ''POST'' [''approve'', newCode (rand_code e3), ''signature''] r4 = Some (s4, x4)
   \<and> Routes E cfg e5 s4 ''GET'' [''pending'', newID (rand_id e3)] r5 = Some (s5, token_reply tok)
   \<and> account (tenants s4) root psa a g \<and> byGrantS256 (tenants s4) = byGrantS256 (tenants s)
   \<and> byID (pending s4) (newID (rand_id e3)) = Some (rnext (pending s))
   \<and> rheap (pending s4) (rnext (pending s)) = Some ((new_request e3 a res g TierElevated)
        \<lparr>rq_StepUpSig := Some (hexBytes sg), rq_State := StateApproved\<rparr>)"
proof -
  let ?q = "new_request e3 a res g TierElevated"
  let ?st = "fst (Create (pending s) ?q)" and ?p = "rnext (pending s)"
  obtain ts h b where tok: "token E cfg e3 s r3 = Some (s\<lparr>tenants := ts, pending := ?st\<rparr>, Reply 202 h b)"
    "account ts root psa a g" "byGrantS256 ts = byGrantS256 (tenants s)"
    using token_ok [OF ok agent(1) acc refl mission request(1,2)] request(3) by metis
  let ?s3 = "s\<lparr>tenants := ts, pending := ?st\<rparr>"
  have r3: "Routes E cfg e3 s ''POST'' [''token''] r3 = Some (?s3, Reply 202 h b)"
    using tok(1) by (simp add: Routes_def for_method_def)
  have ok3: "ps_ok E cfg ?s3" using Routes_ok [OF ok r3] .
  have q: "?q\<lparr>rq_State := StatePending\<rparr> = ?q" "rq_ID ?q = newID (rand_id e3)" "rq_Code ?q = newCode (rand_code e3)"
    "rq_Tier ?q = TierElevated" "rq_AgentID ?q = a" "open_at (clock e4) ?q"
    using approval(4) by (simp_all add: new_request_def open_at_def)
  note new = created [OF ps_okD(3) [OF ok], of ?q, unfolded q(1-3)]
  let ?q2 = "?q\<lparr>rq_StepUpSig := Some (hexBytes sg), rq_State := StateApproved\<rparr>"
  let ?s4 = "?s3\<lparr>pending := set_request ?st ?p ?q2\<rparr>"
  have "coded (pending ?s3) (path_value (r4\<lparr>path_value := newCode (rand_code e3)\<rparr>)) = Some (?p, ?q)"
    "account (tenants ?s3) root psa (rq_AgentID ?q) g"
    "Option.bind (json_decode (http_body (r4\<lparr>path_value := newCode (rand_code e3)\<rparr>))) signature_of_json = Some sg"
    using new(3) q(5) tok(2) approval(1) by simp_all
  note approve = sign_ok [OF ok3 this(1) q(4,6) this(2,3) approval(2,3)]
  have "approveElevated E cfg e4 ?s3 (r4\<lparr>path_value := newCode (rand_code e3)\<rparr>)
      = Some (?s4, Reply 200 [] (JObj [(''status'', JStr ''approved'')]))"
    using approve by simp
  then have r4: "Routes E cfg e4 ?s3 ''POST'' [''approve'', newCode (rand_code e3), ''signature''] r4
      = Some (?s4, Reply 200 [] (JObj [(''status'', JStr ''approved'')]))"
    by (simp add: Routes_def for_method_def)
  have ok4: "ps_ok E cfg ?s4" using Routes_ok [OF ok3 r4] .
  have len: "length (hexBytes sg) = 65" using approval(3) by (simp add: verifyEOASig_def split: if_splits)
  have su: "step_up E cfg ?q2 = Some \<lparr>su_Digest = hexStr digest, su_Sig = hexStr (hexBytes sg)\<rparr>"
    using approval(2) len by (intro step_up_signed) (simp_all add: ApprovalDigest_frame)
  have res: "resourceOf ?q2 = res"
    using resourceOf_new [of res e3 a g TierElevated] parseResourceToken_ok [OF request(2)]
    by (simp add: resourceOf_def)
  obtain ts5 where poll: "poll E cfg e5 ?s4 (r5\<lparr>path_value := newID (rand_id e3)\<rparr>)
      = Some (?s4\<lparr>tenants := ts5\<rparr>, token_reply tok)"
    using poll_ok [OF ok4, of "r5\<lparr>path_value := newID (rand_id e3)\<rparr>" "ag_AgentThumbprint g" ?q2 ?p root psa g e5 tok]
      agent(2) new(1) q(5) tok(2) su res mint by auto
  have r5: "Routes E cfg e5 ?s4 ''GET'' [''pending'', newID (rand_id e3)] r5
      = Some (?s4\<lparr>tenants := ts5\<rparr>, token_reply tok)"
    using poll by (simp add: Routes_def for_method_def)
  have "account (tenants ?s4) root psa a g" "byGrantS256 (tenants ?s4) = byGrantS256 (tenants s)" "byID (pending ?s4) (newID (rand_id e3)) = Some ?p"
    "rheap (pending ?s4) ?p = Some ?q2"
    using tok(2,3) new(1) by (simp_all add: set_request_def)
  then show ?thesis using r3 r4 r5 by blast
qed

end
