(* ===== verification/Sample_Run.thy ===== *)
theory Sample_Run
  imports Server_Run
begin

text \<open>
  The whole step-up protocol as one theorem of the server, and a concrete run of it: a person
  onboards, enrolls an agent, the agent brings the challenge of a resource and asks for a token
  above the threshold, the person signs, and the agent polls the token.
\<close>

section \<open>The challenge of a resource\<close>

text \<open>The server reads back the claims a resource signed.\<close>

lemma parse_signed_resource:
  assumes "resource_ok rc" and "rc_Iss rc \<noteq> []"
  shows "parseResourceToken (signResourceToken E rs rc) = Some rc"
proof -
  have dot: "CHR ''.'' \<notin> set (b64_raw True bs)" for bs
    using set_b64_raw b64_class_not by fastforce
  have "split_on (CHR ''.'') (b64_raw True h @ ''.'' @ b64_raw True p @ ''.'' @ b64_raw True q)
      = [b64_raw True h, b64_raw True p, b64_raw True q]" for h p q
    using dot by (simp add: split_on_append split_on_none)
  then show ?thesis
    using assms resource_kept [OF assms(1), unfolded marshalResource_def]
    by (simp add: parseResourceToken_def signResourceToken_def Let_def)
qed

section \<open>The protocol\<close>

text \<open>From an account to a token within the envelope: the mint cannot fail any more.\<close>

lemma protocol_mints:
  assumes "Thumbprint E (Pub k) \<in> set (elems (psa_KeyThumbprints psa))"
    and "within_payment (psa_Scope psa) (rc_AmountWei res) (Some su)"
  shows "Mint E now rnd k (mint_for cfg root psa g res a (Some su))
     = Inr (signJWT E k ''auth+jwt'' (AuthClaims_json (mintClaims E now rnd (mint_for cfg root psa g res a (Some su)))))"
  using assms by (simp add: Mint_ok mint_for_def finish_input_def)

lemma protocol_run:
  assumes ok: "ps_ok E cfg s0"
    and person: "Option.bind (json_decode (http_body r1)) PSA_of_json = Some psa"
      "onboard_verdict E (chain_verifier s0 (clock e1)) psa (IssuerURL cfg) (keyThumbs E cfg) = Inr ()"
    and enroll: "Option.bind (json_decode (http_body r2)) AgentGrant_of_json = Some g"
      "byAgent (tenants s0) a = None \<or> byAgent (tenants s0) a = Some (psa_Root psa)"
      "VerifyAgentGrant E (chain_verifier s0 (clock e2)) g (psa_Root psa) a (ag_AgentThumbprint g) = Inr ()"
      "ag_MissionScopeS256 g \<noteq> []"
    and agent: "Sig cfg r2 = Inr (ag_AgentThumbprint g, a)" "Sig cfg r3 = Inr (ag_AgentThumbprint g, a)"
      "Sig cfg (r5\<lparr>path_value := newID (rand_id e3)\<rparr>) = Inr (ag_AgentThumbprint g, a)"
    and request: "Option.bind (json_decode (http_body r3)) token_body_of_json = Some (rt, m)"
      "parseResourceToken rt = Some res" "tierFor (psa_Scope psa) res = TierElevated"
    and approval: "Option.bind (json_decode (http_body r4)) signature_of_json = Some sg"
      "ApprovalDigest E (new_request e3 a res g TierElevated) (ChainID cfg) (RegistryAddr cfg) = Some digest"
      "verifyEOASig E (psa_Root psa) digest (hexBytes sg) = Inr ()" "clock e4 \<le> clock e3 + 10 * Minute"
    and mint: "Thumbprint E (Pub (hd (IssuerKeys cfg))) \<in> set (elems (psa_KeyThumbprints psa))"
      "within_payment (psa_Scope psa) (rc_AmountWei res) (Some \<lparr>su_Digest = hexStr digest, su_Sig = hexStr (hexBytes sg)\<rparr>)"
  obtains s1 s2 s3 s4 s5 x1 x2 x3 x4 where
    "Routes E cfg e1 s0 ''POST'' [''psa''] r1 = Some (s1, x1)"
    "Routes E cfg e2 s1 ''POST'' [''agents''] r2 = Some (s2, x2)"
    "Routes E cfg e3 s2 ''POST'' [''token''] r3 = Some (s3, x3)"
    "Routes E cfg e4 s3 ''POST'' [''approve'', newCode (rand_code e3), ''signature''] r4 = Some (s4, x4)"
    "Routes E cfg e5 s4 ''GET'' [''pending'', newID (rand_id e3)] r5 = Some (s5, token_reply
       (signJWT E (hd (IssuerKeys cfg)) ''auth+jwt'' (AuthClaims_json (mintClaims E (clock e5) (rand_jti e5)
          (mint_for cfg (psa_Root psa) psa g res a
             (Some \<lparr>su_Digest = hexStr digest, su_Sig = hexStr (hexBytes sg)\<rparr>))))))"
    "account (tenants s4) (psa_Root psa) psa a g" "GrantByS256 (tenants s4) (ContentHash E (AgentGrant_json g)) = Some g"
    "byID (pending s4) (newID (rand_id e3)) = Some (rnext (pending s0))"
    "rheap (pending s4) (rnext (pending s0)) = Some ((new_request e3 a res g TierElevated)
       \<lparr>rq_StepUpSig := Some (hexBytes sg), rq_State := StateApproved\<rparr>)"
proof -
  obtain s1 s2 x1 x2 where s2: "Routes E cfg e1 s0 ''POST'' [''psa''] r1 = Some (s1, x1)"
    "Routes E cfg e2 s1 ''POST'' [''agents''] r2 = Some (s2, x2)" "ps_ok E cfg s2"
    "account (tenants s2) (psa_Root psa) psa a g" "pending s2 = pending s0"
    "GrantByS256 (tenants s2) (ContentHash E (AgentGrant_json g)) = Some g"
    using account_opens [OF ok person agent(1) enroll(2,1,3)] by metis
  from step_up_run [OF s2(3,4) agent(2,3) enroll(4) request approval protocol_mints [OF mint]]
  show thesis using that s2 unfolding GrantByS256_def by metis
qed

section \<open>A concrete run\<close>

definition sample_cfg :: Config where
  "sample_cfg =
     \<lparr>IssuerURL = ''https://ps'', IssuerKeys = [sample_key], ChainID = 8453, RegistryAddr = ''0xa1'',
      Sig = DevSigVerifier sample_ext, RootAuth = DevRootAuth sample_ext\<rparr>"

definition sample_env :: "int \<Rightarrow> env" where
  "sample_env t = \<lparr>clock = t * Second, rand_id = ''i'', rand_code = ''c'', rand_jti = ''xy''\<rparr>"

definition sample_http :: "json \<Rightarrow> http" where
  "sample_http body =
     \<lparr>hdr_Agent = ''aauth:a@b'', hdr_Thumb = Thumbprint sample_ext sample_agent_jwk, hdr_Root = [],
      path_value = [], query_root = [], query_nonce = [], http_body = json_print body @ ''\<newline>''\<rparr>"

text \<open>The grant carries the key whose thumbprint it names.\<close>

definition run_grant :: AgentGrant where
  "run_grant = sample_sign_grant (sample_grant_unsigned
     \<lparr>ag_AgentThumbprint := Thumbprint sample_ext sample_agent_jwk, ag_AgentPubKey := X sample_agent_jwk\<rparr>)"

definition run_claims :: ResourceClaims where
  "run_claims = challenge_claims (sample_resource\<lparr>amount := ''150''\<rparr>) (1000 * Second) ''rr''"

definition run_request :: Request where
  "run_request = new_request (sample_env 1000) ''aauth:a@b'' run_claims run_grant TierElevated"

definition run_digest :: bytes where
  "run_digest = (case ApprovalDigest sample_ext run_request 8453 ''0xa1'' of None \<Rightarrow> [] | Some d \<Rightarrow> d)"

definition run_signature :: bytes where
  "run_signature = run_digest @ replicate 32 (CHR ''k'') @ [CHR 0x1B]"

definition run_step_up :: StepUp where
  "run_step_up = \<lparr>su_Digest = hexStr run_digest, su_Sig = hexStr run_signature\<rparr>"

definition run_token :: string where
  "run_token = signJWT sample_ext sample_key ''auth+jwt'' (AuthClaims_json (mintClaims sample_ext (1020 * Second) ''xy''
     (mint_for sample_cfg sample_root issued_psa run_grant run_claims ''aauth:a@b'' (Some run_step_up))))"

definition http_onboard where "http_onboard = sample_http (PSA_json issued_psa)"
definition http_enroll where "http_enroll = sample_http (AgentGrant_json run_grant)"
definition http_token where
  "http_token = sample_http (JObj [(''resource_token'', JStr (signResourceToken sample_ext sample_resource run_claims))])"
definition http_sign where "http_sign = sample_http (JObj [(''signature'', JStr (hexStr run_signature))])"
definition http_poll where "http_poll = sample_http (JObj [])"

lemma sample_cfg_simps [simp]:
  "IssuerURL sample_cfg = ''https://ps''" "IssuerKeys sample_cfg = [sample_key]" "ChainID sample_cfg = 8453"
  "RegistryAddr sample_cfg = ''0xa1''" "clock (sample_env t) = t * Second"
  "rand_id (sample_env t) = ''i''" "rand_code (sample_env t) = ''c''" "rand_jti (sample_env t) = ''xy''"
  by (simp_all add: sample_cfg_def sample_env_def)

lemma sample_sig:
  "Sig sample_cfg (sample_http b) = Inr (Thumbprint sample_ext sample_agent_jwk, ''aauth:a@b'')"
  "Sig sample_cfg ((sample_http b)\<lparr>path_value := x\<rparr>) = Inr (Thumbprint sample_ext sample_agent_jwk, ''aauth:a@b'')"
proof -
  have "TrimSpace u ''aauth:a@b'' = ''aauth:a@b''" for u
    by (intro TrimSpace_clean) (simp add: is_space_def)
  moreover have "Thumbprint sample_ext sample_agent_jwk \<noteq> []"
    by (simp add: Thumbprint_def sample_ext_def checksum_def)
  ultimately show "Sig sample_cfg (sample_http b) = Inr (Thumbprint sample_ext sample_agent_jwk, ''aauth:a@b'')"
    "Sig sample_cfg ((sample_http b)\<lparr>path_value := x\<rparr>) = Inr (Thumbprint sample_ext sample_agent_jwk, ''aauth:a@b'')"
    by (simp_all add: sample_cfg_def sample_http_def DevSigVerifier_def TrimSpace_Thumbprint)
qed

lemma sample_body:
  "json_clean v \<Longrightarrow> json_depth v \<le> max_depth \<Longrightarrow> json_decode (http_body (sample_http v)) = Some v"
  by (simp add: sample_http_def json_decode_print)

lemma hexBytes_hexStr [simp]: "hexBytes (hexStr b) = b"
  by (simp add: hexBytes_def hexStr_def TrimPrefix_def HasPrefix_def)

lemma run_grant_simps [simp]:
  "ag_Root run_grant = sample_root" "ag_AgentIdentifier run_grant = ''aauth:a@b''"
  "ag_AgentThumbprint run_grant = Thumbprint sample_ext sample_agent_jwk"
  "ag_AgentPubKey run_grant = X sample_agent_jwk" "ag_MissionScopeS256 run_grant = ''00''"
  "ag_NotBefore run_grant = 100" "ag_NotAfter run_grant = 5000" "agentKeyFromGrant run_grant = sample_agent_jwk"
  by (simp_all add: run_grant_def sample_grant_unsigned_def agentKeyFromGrant_def)
    (simp add: sample_agent_jwk_def)

lemma run_grant_texts:
  "json_clean (AgentGrant_json run_grant)" "AgentGrant_in_range run_grant"
  "AgentGrant_signed sample_ext v run_grant"
proof -
  show "json_clean (AgentGrant_json run_grant)" "AgentGrant_in_range run_grant"
    by (simp_all add: AgentGrant_json_def AgentGrant_in_range_def in_i64_def omitempty_def run_grant_def
        sample_grant_unsigned_def sample_root_def Thumbprint_def sample_agent_jwk_def)
  show "AgentGrant_signed sample_ext v run_grant"
    unfolding run_grant_def by (rule sample_grant_signed) (simp add: sample_grant_unsigned_def)
qed

lemma run_approval:
  "ApprovalDigest sample_ext run_request 8453 ''0xa1'' = Some run_digest"
  "verifyEOASig sample_ext sample_root run_digest run_signature = Inr ()"
proof -
  obtain d where d: "ApprovalDigest sample_ext run_request 8453 ''0xa1'' = Some d" "length d = 32"
    using sample_digest unfolding ApprovalDigest_typed by blast
  show "ApprovalDigest sample_ext run_request 8453 ''0xa1'' = Some run_digest"
    using d(1) by (simp add: run_digest_def)
  show "verifyEOASig sample_ext sample_root run_digest run_signature = Inr ()"
    using d sample_eoaSigned [OF d(2)] sample_addresses
    by (simp add: verifyEOASig_agree run_signature_def run_digest_def)
qed

lemma run_person:
  "onboard_verdict sample_ext (chain_verifier New_server (1000 * Second)) issued_psa ''https://ps''
     (keyThumbs sample_ext sample_cfg) = Inr ()"
  "VerifyAgentGrant sample_ext (chain_verifier New_server (1000 * Second)) run_grant sample_root ''aauth:a@b''
     (Thumbprint sample_ext sample_agent_jwk) = Inr ()"
proof -
  have live: "IsRevoked NewMemoryRegistry c addr root n = Inr False" for c addr root n
    by (simp add: IsRevoked_def NewMemoryRegistry_def)
  have thumb: "coveredKey [Thumbprint sample_ext sample_jwk] (keyThumbs sample_ext sample_cfg) = Thumbprint sample_ext sample_jwk"
    "Thumbprint sample_ext sample_jwk \<noteq> []"
    by (simp_all add: keyThumbs_def sample_key_def Thumbprint_def sample_ext_def checksum_def)
  have "psa_NotBefore issued_psa = 100" "psa_NotAfter issued_psa = 5000"
    by (simp_all add: issued_psa_def sample_psa_unsigned_def)
  then have "VerifyPSA sample_ext (chain_verifier New_server (1000 * Second)) issued_psa ''https://ps''
      (Thumbprint sample_ext sample_jwk) = Inr ()"
    using issued_signed(1) live by (simp add: VerifyPSA_accepts chain_verifier_def New_server_def Unix_def Second_def)
  then show "onboard_verdict sample_ext (chain_verifier New_server (1000 * Second)) issued_psa ''https://ps''
     (keyThumbs sample_ext sample_cfg) = Inr ()"
    using thumb by (simp add: onboard_verdict_def)
  show "VerifyAgentGrant sample_ext (chain_verifier New_server (1000 * Second)) run_grant sample_root ''aauth:a@b''
     (Thumbprint sample_ext sample_agent_jwk) = Inr ()"
    using run_grant_texts(3) live
    by (simp add: VerifyAgentGrant_accepts chain_verifier_def New_server_def Unix_def Second_def)
qed

lemma run_bodies:
  "Option.bind (json_decode (http_body http_onboard)) PSA_of_json = Some issued_psa"
  "Option.bind (json_decode (http_body http_enroll)) AgentGrant_of_json = Some run_grant"
  "Option.bind (json_decode (http_body http_token)) token_body_of_json
     = Some (signResourceToken sample_ext sample_resource run_claims, None)"
  "Option.bind (json_decode (http_body http_sign)) signature_of_json = Some (hexStr run_signature)"
proof -
  show "Option.bind (json_decode (http_body http_onboard)) PSA_of_json = Some issued_psa"
    using issued_clean PSA_json_depth by (simp add: http_onboard_def sample_body PSA_of_json_PSA_json)
  show "Option.bind (json_decode (http_body http_enroll)) AgentGrant_of_json = Some run_grant"
    using run_grant_texts AgentGrant_json_depth
    by (simp add: http_enroll_def sample_body AgentGrant_of_json_AgentGrant_json)
  have "utf8_ok (signResourceToken sample_ext sample_resource run_claims)" "utf8_ok (hexStr run_signature)"
    by (simp_all add: signResourceToken_def Let_def hexStr_def)
  then show "Option.bind (json_decode (http_body http_token)) token_body_of_json
     = Some (signResourceToken sample_ext sample_resource run_claims, None)"
    "Option.bind (json_decode (http_body http_sign)) signature_of_json = Some (hexStr run_signature)"
    by (simp_all add: http_token_def http_sign_def sample_body max_depth_def token_body_of_json_def
        signature_of_json_def find_field_def)
qed

lemma run_claims_ok:
  "resource_ok run_claims" "rc_Iss run_claims = ''https://res''" "rc_AmountWei run_claims = ''150''"
  by (simp_all add: resource_ok_def run_claims_def challenge_claims_def sample_resource_def in_i64_def Unix_def
      Second_def Minute_def del: hex_encode.simps)

lemma run_amount:
  "tierFor (psa_Scope issued_psa) run_claims = TierElevated"
  "within_payment (psa_Scope issued_psa) (rc_AmountWei run_claims) (Some su)"
  by (simp_all add: run_claims_ok tierFor_def within_payment_def sample_psa_unsigned_def bigOrZero_def
      server_bigOrZero_def bigSetString_def all_digits_def is_digit_def read_nat_def)

lemma run_sig:
  "Sig sample_cfg http_enroll = Inr (ag_AgentThumbprint run_grant, ''aauth:a@b'')"
  "Sig sample_cfg http_token = Inr (ag_AgentThumbprint run_grant, ''aauth:a@b'')"
  "Sig sample_cfg (http_poll\<lparr>path_value := newID (rand_id (sample_env t))\<rparr>) = Inr (ag_AgentThumbprint run_grant, ''aauth:a@b'')"
  by (simp_all add: http_enroll_def http_token_def http_poll_def sample_sig)

lemma run_challenge: "parseResourceToken (signResourceToken sample_ext sample_resource run_claims) = Some run_claims"
  using run_claims_ok by (intro parse_signed_resource) simp_all

lemma run_listed:
  "Thumbprint sample_ext (Pub (hd (IssuerKeys sample_cfg))) \<in> set (elems (psa_KeyThumbprints issued_psa))"
  by (simp add: sample_key_def)

text \<open>The states and replies of the run.\<close>

lemma sample_run:
  obtains s1 s2 s3 s4 s5 x1 x2 x3 x4 where
    "Routes sample_ext sample_cfg (sample_env 1000) New_server ''POST'' [''psa''] http_onboard = Some (s1, x1)"
    "Routes sample_ext sample_cfg (sample_env 1000) s1 ''POST'' [''agents''] http_enroll = Some (s2, x2)"
    "Routes sample_ext sample_cfg (sample_env 1000) s2 ''POST'' [''token''] http_token = Some (s3, x3)"
    "Routes sample_ext sample_cfg (sample_env 1010) s3 ''POST'' [''approve'', newCode ''c'', ''signature''] http_sign
       = Some (s4, x4)"
    "Routes sample_ext sample_cfg (sample_env 1020) s4 ''GET'' [''pending'', newID ''i''] http_poll
       = Some (s5, token_reply run_token)"
    "account (tenants s4) sample_root issued_psa ''aauth:a@b'' run_grant"
    "GrantByS256 (tenants s4) (ContentHash sample_ext (AgentGrant_json run_grant)) = Some run_grant"
    "byID (pending s4) (newID ''i'') = Some 0"
    "rheap (pending s4) 0 = Some (run_request\<lparr>rq_StepUpSig := Some run_signature, rq_State := StateApproved\<rparr>)"
proof -
  have new: "byAgent (tenants New_server) ''aauth:a@b'' = None" "rnext (pending New_server) = 0"
    by (simp_all add: New_server_def NewTenants_def NewStore_def)
  show thesis
    by (rule protocol_run [where E = sample_ext and cfg = sample_cfg and psa = issued_psa and g = run_grant
          and a = "''aauth:a@b''" and res = run_claims and sg = "hexStr run_signature" and digest = run_digest
          and ?e1.0 = "sample_env 1000" and ?e2.0 = "sample_env 1000" and ?e3.0 = "sample_env 1000"
          and ?e4.0 = "sample_env 1010" and ?e5.0 = "sample_env 1020" and ?r1.0 = http_onboard
          and ?r2.0 = http_enroll and ?r3.0 = http_token and ?r4.0 = http_sign and ?r5.0 = http_poll,
          OF ps_ok_New run_bodies(1) _ run_bodies(2) _ _ _ run_sig run_bodies(3) run_challenge run_amount(1) run_bodies(4)
            _ _ _ run_listed run_amount(2)])
      (use run_person run_approval new that in \<open>simp_all add: run_request_def run_step_up_def run_token_def Second_def Minute_def\<close>)
qed

lemma reaches_serve:
  "(ps_step E cfg)\<^sup>*\<^sup>* s0 s \<Longrightarrow> Routes E cfg e s meth path r = Some (s', rep) \<Longrightarrow> (ps_step E cfg)\<^sup>*\<^sup>* s0 s'"
  by (rule rtranclp.rtrancl_into_rtrancl, assumption, rule ps_step.serve)

lemma sample_approved_state:
  obtains s s' where "(ps_step sample_ext sample_cfg)\<^sup>*\<^sup>* New_server s"
    "Routes sample_ext sample_cfg (sample_env 1020) s ''GET'' [''pending'', newID ''i''] http_poll
       = Some (s', token_reply run_token)"
    "account (tenants s) sample_root issued_psa ''aauth:a@b'' run_grant"
    "GrantByS256 (tenants s) (ContentHash sample_ext (AgentGrant_json run_grant)) = Some run_grant"
    "byID (pending s) (newID ''i'') = Some 0"
    "rheap (pending s) 0 = Some (run_request\<lparr>rq_StepUpSig := Some run_signature, rq_State := StateApproved\<rparr>)"
proof -
  obtain s1 s2 s3 s4 s5 x1 x2 x3 x4 where run:
    "Routes sample_ext sample_cfg (sample_env 1000) New_server ''POST'' [''psa''] http_onboard = Some (s1, x1)"
    "Routes sample_ext sample_cfg (sample_env 1000) s1 ''POST'' [''agents''] http_enroll = Some (s2, x2)"
    "Routes sample_ext sample_cfg (sample_env 1000) s2 ''POST'' [''token''] http_token = Some (s3, x3)"
    "Routes sample_ext sample_cfg (sample_env 1010) s3 ''POST'' [''approve'', newCode ''c'', ''signature''] http_sign
       = Some (s4, x4)"
    "Routes sample_ext sample_cfg (sample_env 1020) s4 ''GET'' [''pending'', newID ''i''] http_poll
       = Some (s5, token_reply run_token)"
    "account (tenants s4) sample_root issued_psa ''aauth:a@b'' run_grant"
    "GrantByS256 (tenants s4) (ContentHash sample_ext (AgentGrant_json run_grant)) = Some run_grant"
    "byID (pending s4) (newID ''i'') = Some 0"
    "rheap (pending s4) 0 = Some (run_request\<lparr>rq_StepUpSig := Some run_signature, rq_State := StateApproved\<rparr>)"
    using sample_run .
  have "(ps_step sample_ext sample_cfg)\<^sup>*\<^sup>* New_server s4"
    by (rule reaches_serve [OF reaches_serve [OF reaches_serve [OF reaches_serve [OF rtranclp.rtrancl_refl run(1)] run(2)] run(3)] run(4)])
  then show thesis using that run(5-9) by metis
qed

section \<open>Properties\<close>

text \<open>The resource token a resource hands to an agent carries, through the
  agent, exactly the required claims to the person server: what \<open>parseResourceToken\<close> reads from it
  is what the resource required, amount, scope and audience included.\<close>

theorem challenge_read_back:
  assumes "resd_routes E fetch now random rs w ''GET'' path auth thumb = (w', ChallengeReply status v)"
    and "self rs \<noteq> []" and "utf8_ok (self rs)" and "utf8_ok (amount rs)" and "list_all utf8_ok (scope rs)"
    and "in_i64 (Unix now)" and "in_i64 (Unix (now + 5 * Minute))"
  shows "\<exists>tok. status = 200 \<and> w' = w
     \<and> v = JObj [(''required'', ResourceClaims_json (challenge_claims rs now random)), (''resource_token'', JStr tok)]
     \<and> parseResourceToken tok = Some (challenge_claims rs now random)"
proof -
  let ?c = "challenge_claims rs now random"
  have "resource_ok ?c" "rc_Iss ?c \<noteq> []"
    using assms(2-7) by (simp_all add: resource_ok_def challenge_claims_def)
  then have "parseResourceToken (signResourceToken E rs ?c) = Some ?c" by (rule parse_signed_resource)
  then show ?thesis
    using assms(1) by (auto simp: resd_routes_def challenge_def Let_def split: if_splits prod.splits)
qed

theorem challenge_read_back_witness:
  "\<exists>tok v. resd_routes sample_ext sample_fetch (1000 * Second) ''rr'' (sample_resource\<lparr>amount := ''150''\<rparr>)
       newReplayCache ''GET'' [] [] [] = (newReplayCache, ChallengeReply 200 v)
     \<and> v = JObj [(''required'', ResourceClaims_json run_claims), (''resource_token'', JStr tok)]
     \<and> parseResourceToken tok = Some run_claims"
proof -
  let ?rs = "sample_resource\<lparr>amount := ''150''\<rparr>"
  obtain st v where r: "resd_routes sample_ext sample_fetch (1000 * Second) ''rr'' ?rs newReplayCache ''GET'' [] [] []
     = (newReplayCache, ChallengeReply st v)"
    by (simp add: resd_routes_def challenge_def Let_def)
  have "\<exists>tok. st = 200 \<and> newReplayCache = newReplayCache
     \<and> v = JObj [(''required'', ResourceClaims_json (challenge_claims ?rs (1000 * Second) ''rr'')),
                 (''resource_token'', JStr tok)]
     \<and> parseResourceToken tok = Some (challenge_claims ?rs (1000 * Second) ''rr'')"
    by (rule challenge_read_back [OF r])
      (simp_all add: sample_resource_def in_i64_def Unix_def Second_def Minute_def)
  then show ?thesis using r unfolding run_claims_def by blast
qed

end
