(* ===== verification/Server_Safety.thy ===== *)
theory Server_Safety
  imports Sample_Run
begin

text \<open>
  What holds of the whole person server in every state it can be brought to: no handler panics,
  everything held was signed by a root, and the guarantees about the tokens it hands out.
\<close>

section \<open>Properties\<close>

text \<open>One request at a time: in every state the server can be brought to, by any sequence of
  requests and revocations, every request with any method, path, headers and body gets a reply: no
  handler dereferences nil (an agent without a tenant, a request without its record, an issuer
  without a key) or drops out without writing one.\<close>

theorem handlers_never_panic:
  assumes "(ps_step E cfg)\<^sup>*\<^sup>* New_server s"
  shows "\<exists>s' rep. Routes E cfg e s meth path r = Some (s', rep)"
  using Routes_handled [OF reachable_ok [OF assms], of e meth path r] by (auto simp: handled_def)

theorem handlers_never_panic_witness:
  "\<exists>s. account (tenants s) sample_root issued_psa ''aauth:a@b'' run_grant
     \<and> (\<exists>s' rep. Routes sample_ext sample_cfg (sample_env 1030) s ''POST'' [''token''] http_token = Some (s', rep))"
proof -
  obtain s where "(ps_step sample_ext sample_cfg)\<^sup>*\<^sup>* New_server s"
    "account (tenants s) sample_root issued_psa ''aauth:a@b'' run_grant"
    using sample_approved_state by metis
  then show ?thesis using handlers_never_panic by blast
qed

text \<open>C5: in every reachable state a root has an account only with an
  authorization for this issuer that names that root, is signed by it and covers a live issuer key,
  and an agent has a grant under a root only if the grant names that root and that agent and the
  root signed it. The server holds nothing a person did not sign.\<close>

theorem tenants_root_signed:
  assumes "(ps_step E cfg)\<^sup>*\<^sup>* New_server s" and "registered (tenants s) root = Some ten"
  shows "psa_Root (tPSA ten) = root \<and> psa_Issuer (tPSA ten) = IssuerURL cfg
         \<and> PSA_signed E eoa_verifier (tPSA ten)
         \<and> (\<exists>k \<in> set (IssuerKeys cfg). Thumbprint E (Pub k) \<in> set (elems (psa_KeyThumbprints (tPSA ten))))
         \<and> (\<forall>a g. grants ten a = Some g \<longrightarrow> ag_Root g = root \<and> ag_AgentIdentifier g = a
              \<and> AgentGrant_signed E eoa_verifier g \<and> byAgent (tenants s) a = Some root)"
proof -
  have ok: "ps_ok E cfg s" using reachable_ok [OF assms(1)] .
  then show ?thesis
    using registered_docs [OF ok assms(2)] tenants_okD(2) [OF ps_okD(1) [OF ok] assms(2)]
      registered_Root [OF ps_okD(5) [OF ok] assms(2)]
    by (auto simp: psa_ok_def grant_ok_def tenant_ok_def)
qed

theorem tenants_root_signed_witness:
  "\<exists>(s :: ps) ten. registered (tenants s) sample_root = Some ten \<and> psa_Root (tPSA ten) = sample_root
     \<and> PSA_signed sample_ext eoa_verifier (tPSA ten) \<and> grants ten ''aauth:a@b'' = Some run_grant
     \<and> AgentGrant_signed sample_ext eoa_verifier run_grant"
proof -
  obtain s where s: "(ps_step sample_ext sample_cfg)\<^sup>*\<^sup>* New_server s"
    "account (tenants s) sample_root issued_psa ''aauth:a@b'' run_grant"
    using sample_approved_state by metis
  then obtain ten where ten: "registered (tenants s) sample_root = Some ten"
    "grants ten ''aauth:a@b'' = Some run_grant"
    by (auto simp: account_def)
  from tenants_root_signed [OF s(1) ten(1)] show ?thesis
    using ten by (intro exI [of _ s] exI [of _ ten]) simp
qed

text \<open>C1: the only way to a token is to poll a request: whenever any endpoint
  replies with an auth token, the request polled is the caller's own and has been approved, the
  caller is bound to a root whose signed authorization covers this server and whose signed grant
  names the caller, the token is what \<open>Mint\<close> makes of those documents and of the claims the request
  showed the person (resource, amount, scope), and if the amount is above the step-up threshold of
  the authorization, the request carries that root's own signature over this very approval.\<close>

theorem issued_token_sound:
  assumes "(ps_step E cfg)\<^sup>*\<^sup>* New_server s"
    and "Routes E cfg e s meth path r = Some (s', token_reply tok)"
  shows "\<exists>rid thumb p q root ten g.
     path = [''pending'', rid] \<and> Sig cfg (r\<lparr>path_value := rid\<rparr>) = Inr (thumb, rq_AgentID q)
     \<and> byID (pending s) rid = Some p \<and> rheap (pending s) p = Some q \<and> rq_ID q = rid \<and> rq_State q = StateApproved
     \<and> byAgent (tenants s) (rq_AgentID q) = Some root \<and> registered (tenants s) root = Some ten
     \<and> grants ten (rq_AgentID q) = Some g
     \<and> psa_ok E cfg (tPSA ten) \<and> grant_ok E root (rq_AgentID q) g
     \<and> Mint E (clock e) (rand_jti e) (hd (IssuerKeys cfg))
         (finish_input cfg ten g (resourceOf q) (rq_AgentID q) (step_up E cfg q)) = Inr tok
     \<and> rc_Iss (resourceOf q) = rq_Resource q \<and> rc_AmountWei (resourceOf q) = rq_AmountWei q
     \<and> rc_Scope (resourceOf q) = rq_ScopeReq q
     \<and> (0 < bigOrZero (StepUpAboveWei (psa_Scope (tPSA ten)))
          \<and> bigOrZero (StepUpAboveWei (psa_Scope (tPSA ten))) < bigOrZero (rq_AmountWei q) \<longrightarrow>
        (\<exists>sig digest. rq_StepUpSig q = Some sig
           \<and> ApprovalDigest E q (ChainID cfg) (RegistryAddr cfg) = Some digest
           \<and> verifyEOASig E root digest sig = Inr ()))"
proof -
  have ok: "ps_ok E cfg s" using reachable_ok [OF assms(1)] .
  have "gives_token (Routes E cfg e s meth path r)" using assms(2) by (auto simp: gives_token_def)
  then obtain rid where rid: "path = [''pending'', rid]"
    "poll E cfg e s (r\<lparr>path_value := rid\<rparr>) = Some (s', token_reply tok)"
    using only_poll_gives_tokens assms(2) by metis
  obtain thumb p q t g0 where
    q: "Sig cfg (r\<lparr>path_value := rid\<rparr>) = Inr (thumb, rq_AgentID q)" "byID (pending s) rid = Some p"
      "rheap (pending s) p = Some q" "rq_State q = StateApproved"
      "ByAgent (tenants s) (rq_AgentID q) = Some t" "Grant (tenants s) t (rq_AgentID q) = Some g0"
      "finish E cfg e s q t g0 (resourceOf q) (rq_AgentID q) = Some (s', token_reply tok)"
    by (rule poll_gives_token [OF rid(2)]) simp
  from q(5) obtain root ten where ten: "byAgent (tenants s) (rq_AgentID q) = Some root"
      "theap (tenants s) t = Some ten"
    using ByAgent_live [OF ok] by metis
  obtain g where g: "g0 = Some g"
    using q(7) by (cases g0) (auto simp: finish_def split: list.splits option.splits)
  then have grant: "grants ten (rq_AgentID q) = Some g" using q(6) ten(2) by (simp add: Grant_def)
  have docs: "registered (tenants s) root = Some ten" "psa_ok E cfg (tPSA ten)"
      "grant_ok E root (rq_AgentID q) g"
    by (rule agent_documents [OF ok q(5) ten(2) grant], use ten(1) in simp)+
  have mint: "Mint E (clock e) (rand_jti e) (hd (IssuerKeys cfg))
      (finish_input cfg ten g (resourceOf q) (rq_AgentID q) (step_up E cfg q)) = Inr tok"
    using q(7) ten(2) unfolding g finish_token by auto
  have shown: "rc_Iss (resourceOf q) = rq_Resource q" "rc_AmountWei (resourceOf q) = rq_AmountWei q"
      "rc_Scope (resourceOf q) = rq_ScopeReq q"
    using request_shows_mint [OF ok q(3)] by (simp_all add: request_faithful_def)
  have "step_up E cfg q \<noteq> None"
    if "0 < bigOrZero (StepUpAboveWei (psa_Scope (tPSA ten)))"
      "bigOrZero (StepUpAboveWei (psa_Scope (tPSA ten))) < bigOrZero (rq_AmountWei q)"
    using mint that shown(2)
    by (auto simp: Mint_ok within_payment_def finish_input_def bigOrZero_def split: option.splits if_splits)
  note signed = signed_step_up [OF ok q(3) this ten(1)]
  have "rq_ID q = rid" using consent_okD(2) [OF ps_okD(3) [OF ok] q(2)] q(3) by auto
  then show ?thesis
    using rid(1) q(1-4) ten(1) docs grant mint shown signed by blast
qed

theorem issued_token_sound_witness:
  "\<exists>s s' digest. Routes sample_ext sample_cfg (sample_env 1020) s ''GET'' [''pending'', newID ''i''] http_poll
       = Some (s', token_reply run_token)
     \<and> byAgent (tenants s) ''aauth:a@b'' = Some sample_root
     \<and> ApprovalDigest sample_ext run_request 8453 ''0xa1'' = Some digest
     \<and> verifyEOASig sample_ext sample_root digest run_signature = Inr ()"
proof -
  let ?q = "run_request\<lparr>rq_StepUpSig := Some run_signature, rq_State := StateApproved\<rparr>"
  obtain s s' where s: "(ps_step sample_ext sample_cfg)\<^sup>*\<^sup>* New_server s"
    "Routes sample_ext sample_cfg (sample_env 1020) s ''GET'' [''pending'', newID ''i''] http_poll
       = Some (s', token_reply run_token)"
    "account (tenants s) sample_root issued_psa ''aauth:a@b'' run_grant"
    "GrantByS256 (tenants s) (ContentHash sample_ext (AgentGrant_json run_grant)) = Some run_grant"
    "byID (pending s) (newID ''i'') = Some 0"
    "rheap (pending s) 0 = Some ?q"
    using sample_approved_state .
  have q: "rq_AgentID ?q = ''aauth:a@b''" "rq_AmountWei ?q = ''150''"
    by (simp_all add: run_request_def new_request_def run_claims_ok)
  have above: "0 < bigOrZero (StepUpAboveWei (psa_Scope issued_psa))"
    "bigOrZero (StepUpAboveWei (psa_Scope issued_psa)) < bigOrZero ''150''"
    by (simp_all add: sample_psa_unsigned_def bigOrZero_def bigSetString_def all_digits_def is_digit_def read_nat_def)
  from issued_token_sound [OF s(1,2)] obtain p q root ten where
    t: "byID (pending s) (newID ''i'') = Some p" "rheap (pending s) p = Some q"
      "byAgent (tenants s) (rq_AgentID q) = Some root" "registered (tenants s) root = Some ten"
      "0 < bigOrZero (StepUpAboveWei (psa_Scope (tPSA ten)))
         \<and> bigOrZero (StepUpAboveWei (psa_Scope (tPSA ten))) < bigOrZero (rq_AmountWei q) \<longrightarrow>
       (\<exists>sig digest. rq_StepUpSig q = Some sig \<and> ApprovalDigest sample_ext q 8453 ''0xa1'' = Some digest
          \<and> verifyEOASig sample_ext root digest sig = Inr ())"
    by auto
  have "q = ?q" "byAgent (tenants s) ''aauth:a@b'' = Some root" "root = sample_root" "tPSA ten = issued_psa"
    using t(1-4) s(3,5,6) q(1) by (auto simp: account_def)
  then show ?thesis using t(5) s(2) above q(2) by (auto simp: ApprovalDigest_frame)
qed

text \<open>C21: approval is enough. When the agent a request belongs to polls
  it after it was approved, and the amount is still inside the authorization and the key covered,
  the reply is a token; and the request is as it was, so that polling again gives another.\<close>

theorem approved_request_is_served:
  assumes "(ps_step E cfg)\<^sup>*\<^sup>* New_server s"
    and "byID (pending s) rid = Some p" and "rheap (pending s) p = Some q" and "rq_State q = StateApproved"
    and "Sig cfg (r\<lparr>path_value := rid\<rparr>) = Inr (thumb, rq_AgentID q)"
    and "byAgent (tenants s) (rq_AgentID q) = Some root" and "registered (tenants s) root = Some ten"
    and "Thumbprint E (Pub (hd (IssuerKeys cfg))) \<in> set (elems (psa_KeyThumbprints (tPSA ten)))"
    and "within_payment (psa_Scope (tPSA ten)) (rq_AmountWei q) (step_up E cfg q)"
  shows "\<exists>s' tok. Routes E cfg e s ''GET'' [''pending'', rid] r = Some (s', token_reply tok)
           \<and> pending s' = pending s"
proof -
  have ok: "ps_ok E cfg s" using reachable_ok [OF assms(1)] .
  from bound_ByAgent [OF ok assms(6)] obtain t g where
    t: "ByAgent (tenants s) (rq_AgentID q) = Some t" "byRoot (tenants s) root = Some t"
      "theap (tenants s) t = Some ten" "grants ten (rq_AgentID q) = Some g"
    using assms(7) by (metis option.inject)
  obtain k ks where k: "IssuerKeys cfg = k # ks"
    using issuer_has_key registered_docs [OF ok assms(7)] by (cases "IssuerKeys cfg") auto
  let ?m = "finish_input cfg ten g (resourceOf q) (rq_AgentID q) (step_up E cfg q)"
  have mint: "Mint E (clock e) (rand_jti e) k ?m
      = Inr (signJWT E k ''auth+jwt'' (AuthClaims_json (mintClaims E (clock e) (rand_jti e) ?m)))"
    using assms(8,9) request_shows_mint [OF ok assms(3)]
    by (simp add: Mint_ok finish_input_def k request_faithful_def)
  from log_step [OF ok t(2,3), of "new_entry ''token_issued'' (rq_ID q) (clock e)" "rq_AgentID q"]
  obtain ts where ts:
    "LogAppend E (tenants s) t (rq_AgentID q) (new_entry ''token_issued'' (rq_ID q) (clock e)) = Some ts"
    by auto
  have "Poll (pending s) (clock e) rid = Some (pending s, Inr p)"
    using assms(2-4) by (simp add: Poll_def)
  then have "Routes E cfg e s ''GET'' [''pending'', rid] r
      = finish E cfg e s q t (Some g) (resourceOf q) (rq_AgentID q)"
    using assms(3-5) t by (simp add: Routes_def for_method_def poll_def Grant_def)
  also have "\<dots> = Some (s\<lparr>tenants := ts\<rparr>, token_reply (signJWT E k ''auth+jwt''
      (AuthClaims_json (mintClaims E (clock e) (rand_jti e) ?m))))"
    using k t(3) mint ts unfolding finish_token by blast
  finally show ?thesis by auto
qed

theorem approved_request_is_served_witness:
  "\<exists>s s' tok. Routes sample_ext sample_cfg (sample_env 1025) s ''GET'' [''pending'', newID ''i''] http_poll
       = Some (s', token_reply tok) \<and> pending s' = pending s"
proof -
  let ?q = "run_request\<lparr>rq_StepUpSig := Some run_signature, rq_State := StateApproved\<rparr>"
  obtain s s' where s: "(ps_step sample_ext sample_cfg)\<^sup>*\<^sup>* New_server s"
    "Routes sample_ext sample_cfg (sample_env 1020) s ''GET'' [''pending'', newID ''i''] http_poll
       = Some (s', token_reply run_token)"
    "account (tenants s) sample_root issued_psa ''aauth:a@b'' run_grant"
    "GrantByS256 (tenants s) (ContentHash sample_ext (AgentGrant_json run_grant)) = Some run_grant"
    "byID (pending s) (newID ''i'') = Some 0"
    "rheap (pending s) 0 = Some ?q"
    using sample_approved_state .
  obtain ten where ten: "byAgent (tenants s) ''aauth:a@b'' = Some sample_root"
    "registered (tenants s) sample_root = Some ten" "tPSA ten = issued_psa"
    using s(3) by (auto simp: account_def)
  have q: "rq_AgentID ?q = ''aauth:a@b''" "rq_State ?q = StateApproved" "rq_AmountWei ?q = rc_AmountWei run_claims"
    by (simp_all add: run_request_def new_request_def)
  have su: "step_up sample_ext sample_cfg ?q \<noteq> None" by (simp add: step_up_def run_signature_def)
  have "\<exists>s' tok. Routes sample_ext sample_cfg (sample_env 1025) s ''GET'' [''pending'', newID ''i''] http_poll
       = Some (s', token_reply tok) \<and> pending s' = pending s"
    by (rule approved_request_is_served [OF s(1,5,6) q(2)])
      (use q(1,3) ten su run_amount(2) in \<open>auto simp: http_poll_def sample_sig sample_key_def\<close>)
  then show ?thesis by blast
qed

text \<open>C24: whether a token request or a poll succeeds, and the token it
  gives, do not depend on the revocation registry: the server consults the registry when a document
  is presented to it and never again, and so keeps minting for an authorization or a grant revoked
  since. Only the resource's own check stops such a token.\<close>

theorem minting_ignores_revocation:
  "Routes E cfg e (s\<lparr>registry := m\<rparr>) meth [''pending'', rid] r
     = map_option (\<lambda>(s', rep). (s'\<lparr>registry := m\<rparr>, rep)) (Routes E cfg e s meth [''pending'', rid] r)
   \<and> Routes E cfg e (s\<lparr>registry := m\<rparr>) meth [''token''] r
     = map_option (\<lambda>(s', rep). (s'\<lparr>registry := m\<rparr>, rep)) (Routes E cfg e s meth [''token''] r)"
  using poll_registry token_registry by (simp add: Routes_def for_method_def with_registry_def)





end
