(* ===== verification/End_To_End.thy ===== *)
theory End_To_End
  imports Sample_Run
begin

text \<open>
  The person server and the resource server together: a resource that fetches keys, authorizations
  and grants from a running person server accepts the tokens this server hands out.
\<close>

section \<open>The network between them\<close>

text \<open>A path segment that a URL carries as it is.\<close>

definition plain_segment :: "string \<Rightarrow> bool" where
  "plain_segment x =
     (x \<noteq> [] \<and> (\<forall>c \<in> set x. is_digit c \<or> c \<in> set ''abcdefghijklmnopqrstuvwxyzABCDEFGHIJKLMNOPQRSTUVWXYZ''))"

text \<open>The resource's requests for keys and documents get what the server's handlers reply.\<close>

definition document_path :: "string list \<Rightarrow> bool" where
  "document_path path =
     (path = [''jwks.json''] \<or> (\<exists>x. plain_segment x \<and> path \<in> {[''psa'', x], [''grants'', x]}))"

definition serves :: "ext \<Rightarrow> Config \<Rightarrow> ps \<Rightarrow> network \<Rightarrow> bool" where
  "serves E cfg s fetch =
     (\<forall>n e r path s' h v. document_path path \<longrightarrow>
        Routes E cfg e s ''GET'' path r = Some (s', Reply 200 h v) \<longrightarrow>
        fetch n (IssuerURL cfg @ concat (map ((#) (CHR ''/'')) path)) = served v)"

text \<open>A network on which the server is reachable at its own URL, and its answers to GET requests.\<close>

definition ps_network :: "ext \<Rightarrow> Config \<Rightarrow> env \<Rightarrow> ps \<Rightarrow> http \<Rightarrow> network" where
  "ps_network E cfg e s r n url =
     (if HasPrefix url (IssuerURL cfg @ ''/'')
      then (case Routes E cfg e s ''GET'' (split_on (CHR ''/'') (drop (length (IssuerURL cfg) + 1) url)) r of
              Some (_, Reply status _ v) \<Rightarrow> Inr (status, json_print v @ ''\<newline>'')
            | _ \<Rightarrow> Inr (404, []))
      else Inl ''no such host'')"

lemma plain_segmentD:
  assumes "plain_segment x"
  shows "CHR ''/'' \<notin> set x" "CHR ''#'' \<notin> set x" "is_ascii x"
  using assms by (auto simp: plain_segment_def is_digit_def is_ascii_def list_all_iff)

lemma plain_hex: "bs \<noteq> [] \<Longrightarrow> plain_segment (hex_encode bs)"
proof -
  have "is_digit (hex_char n) \<or> hex_char n \<in> set ''abcdef''" if "n < 16" for n
  proof -
    have "n \<in> {0, 1, 2, 3, 4, 5, 6, 7, 8, 9, 10, 11, 12, 13, 14, 15}"
      using that unfolding insert_iff empty_iff by presburger
    then show ?thesis by (elim insertE) (simp_all add: hex_char_def is_digit_def char_of_eq_iff)
  qed
  then have "\<forall>c \<in> set (hex_encode bs). is_digit c \<or> c \<in> set ''abcdef''"
    by (induction bs) (simp_all add: hex_nibble)
  moreover assume "bs \<noteq> []"
  then have "hex_encode bs \<noteq> []" by (cases bs) simp_all
  moreover have "set ''abcdef'' \<subseteq> set ''abcdefghijklmnopqrstuvwxyzABCDEFGHIJKLMNOPQRSTUVWXYZ''" by simp
  ultimately show ?thesis unfolding plain_segment_def by blast
qed

lemma document_reply:
  assumes "document_path path" and "Routes E cfg e s ''GET'' path r = Some (s', Reply 200 h v)"
  shows "Routes E cfg e' s ''GET'' path r' = Some (s, Reply 200 h v)"
  using assms
  by (auto simp: document_path_def Routes_def for_method_def reading_def servePSA_def serveGrant_def jwks_def
      split: option.splits)

lemma ps_network_serves: "serves E cfg s (ps_network E cfg e s r)"
  unfolding serves_def
proof (intro allI impI)
  fix n e' r' path s' h v
  assume path: "document_path path" and "Routes E cfg e' s ''GET'' path r' = Some (s', Reply 200 h v)"
  from document_reply [OF this] have reply: "Routes E cfg e s ''GET'' path r = Some (s, Reply 200 h v)" .
  have "\<exists>p ps. path = p # ps \<and> split_on (CHR ''/'') (p @ concat (map ((#) (CHR ''/'')) ps)) = path"
    using path plain_segmentD(1) by (auto simp: document_path_def split_on_append split_on_none)
  then obtain p ps where "path = p # ps" "split_on (CHR ''/'') (p @ concat (map ((#) (CHR ''/'')) ps)) = path"
    by blast
  then show "ps_network E cfg e s r n (IssuerURL cfg @ concat (map ((#) (CHR ''/'')) path)) = served v"
    using reply by (simp add: ps_network_def HasPrefix_def served_def)
qed

lemma servesD:
  assumes "serves E cfg s fetch"
  shows "fetch n (IssuerURL cfg @ ''/jwks.json'') = served (JObj [(''keys'', JArr (map (\<lambda>k. JWK_json (Pub k)) (IssuerKeys cfg)))])"
    "byRoot (tenants s) root = Some t \<Longrightarrow> theap (tenants s) t = Some ten \<Longrightarrow> plain_segment root \<Longrightarrow>
     fetch n (IssuerURL cfg @ ''/psa/'' @ root) = served (PSA_json (tPSA ten))"
    "GrantByS256 (tenants s) x = Some g \<Longrightarrow> plain_segment x \<Longrightarrow>
     fetch n (IssuerURL cfg @ ''/grants/'' @ x) = served (AgentGrant_json g)"
proof -
  note get = assms [unfolded serves_def document_path_def, rule_format]
  fix r :: http and e :: env
  show "fetch n (IssuerURL cfg @ ''/jwks.json'') = served (JObj [(''keys'', JArr (map (\<lambda>k. JWK_json (Pub k)) (IssuerKeys cfg)))])"
    using get [of "[''jwks.json'']" e r s "[]"] by (simp add: Routes_def for_method_def jwks_def)
  show "fetch n (IssuerURL cfg @ ''/psa/'' @ root) = served (PSA_json (tPSA ten))"
    if "byRoot (tenants s) root = Some t" "theap (tenants s) t = Some ten" "plain_segment root"
    using that get [of "[''psa'', root]" e r s "[]"]
    by (simp add: Routes_def for_method_def reading_def servePSA_def ByRoot_def)
  show "fetch n (IssuerURL cfg @ ''/grants/'' @ x) = served (AgentGrant_json g)"
    if "GrantByS256 (tenants s) x = Some g" "plain_segment x"
    using that get [of "[''grants'', x]" e r s "[]"]
    by (simp add: Routes_def for_method_def serveGrant_def)
qed

section \<open>The resolvers\<close>

definition JWK_text_ok :: "JWK \<Rightarrow> bool" where
  "JWK_text_ok k = (utf8_ok (Kty k) \<and> utf8_ok (Crv k) \<and> utf8_ok (X k))"

lemma into_struct_JWK: "into_struct JWK_fields JWK_zero (JWK_json k) = Some k"
  by (cases k) (simp add: JWK_json_def JWK_fields_def find_field_def JWK_zero_def)

lemma into_structs_JWK: "into_structs JWK_fields JWK_zero (map JWK_json ks) = Some ks"
  by (induction ks) (simp_all add: into_struct_JWK)

lemma JWK_json_depth: "json_depth (JWK_json k) = 1"
  by (simp add: JWK_json_def)

lemma jwks_read:
  "jwks_of_json (JObj [(''keys'', JArr (map (\<lambda>k. JWK_json (Pub k)) keys))]) = Some (Some (map Pub keys))"
  using into_structs_JWK [of "map Pub keys"]
  by (simp add: jwks_of_json_def into_slice_def find_field_def comp_def)

lemma jwks_text:
  assumes "\<forall>k \<in> set keys. JWK_text_ok (Pub k)"
  shows "json_clean (JObj [(''keys'', JArr (map (\<lambda>k. JWK_json (Pub k)) keys))])"
    "json_depth (JObj [(''keys'', JArr (map (\<lambda>k. JWK_json (Pub k)) keys))]) \<le> max_depth"
proof -
  show "json_clean (JObj [(''keys'', JArr (map (\<lambda>k. JWK_json (Pub k)) keys))])"
    using assms by (auto simp: list_all_iff JWK_text_ok_def JWK_json_def)
  have "fold max (map (json_depth \<circ> (\<lambda>k. JWK_json (Pub k))) keys) 0 \<le> 1"
    by (simp add: fold_max_le JWK_json_depth)
  then show "json_depth (JObj [(''keys'', JArr (map (\<lambda>k. JWK_json (Pub k)) keys))]) \<le> max_depth"
    by (simp add: max_depth_def)
qed

lemma Key_served:
  assumes "serves E cfg s fetch" and "TrimRight (CHR ''/'') (IssuerURL cfg) = IssuerURL cfg"
    and "IssuerKeys cfg = k # ks" and "\<forall>k \<in> set (IssuerKeys cfg). JWK_text_ok (Pub k)"
  shows "snd (Key_resd fetch w (IssuerURL cfg) kid) = Inr (Pub k)"
proof -
  have "snd (getJSON fetch jwks_of_json w (IssuerURL cfg @ ''/jwks.json'')) = Inr (Some (map Pub (IssuerKeys cfg)))"
    using servesD(1) [OF assms(1)] jwks_text [OF assms(4)] jwks_read
    by (intro getJSON_served) auto
  then show ?thesis using assms(2,3) by (auto simp: Key_resd_def split: prod.splits sum.splits)
qed

lemma PSA_served:
  assumes "serves E cfg s fetch" and "byRoot (tenants s) root = Some t" and "theap (tenants s) t = Some ten"
    and "PSA_text_ok (tPSA ten)" and "CHR ''#'' \<notin> set (IssuerURL cfg)" and "plain_segment root"
  shows "snd (PSA_resd E fetch w (IssuerURL cfg @ ''/psa/'' @ root @ ''#s256='' @ ContentHash E (PSA_json (tPSA ten))))
    = Inr (tPSA ten)"
proof -
  have "snd (getJSON fetch PSA_of_json w (IssuerURL cfg @ ''/psa/'' @ root)) = Inr (tPSA ten)"
    using servesD(2) [OF assms(1-3,6)] PSA_text_json [OF assms(4)] PSA_json_depth PSA_of_json_PSA_json
    by (intro getJSON_served) auto
  moreover have "splitRef (IssuerURL cfg @ ''/psa/'' @ root @ ''#s256='' @ ContentHash E (PSA_json (tPSA ten)))
      = (IssuerURL cfg @ ''/psa/'' @ root, ContentHash E (PSA_json (tPSA ten)))"
    using splitRef_pinned [of "IssuerURL cfg @ ''/psa/'' @ root"] assms(5) plain_segmentD(2) [OF assms(6)] by simp
  ultimately show ?thesis by (auto simp: PSA_resd_def split: prod.splits sum.splits)
qed

lemma Grant_served:
  assumes "serves E cfg s fetch" and "TrimRight (CHR ''/'') (IssuerURL cfg) = IssuerURL cfg"
    and "tenants_ok E (tenants s)" and "registered (tenants s) root = Some ten" and "grants ten a = Some g"
    and "AgentGrant_text_ok g" and "SHA256 E (json_print (AgentGrant_json g)) \<noteq> []"
  shows "snd (AgentGrant_resd E fetch w (IssuerURL cfg) (ContentHash E (AgentGrant_json g))) = Inr g
    \<or> (\<exists>g'. GrantByS256 (tenants s) (ContentHash E (AgentGrant_json g)) = Some g'
         \<and> collision (SHA256 E) (json_print (AgentGrant_json g)) (json_print (AgentGrant_json g')))"
proof -
  let ?h = "ContentHash E (AgentGrant_json g)"
  obtain g' where g': "GrantByS256 (tenants s) ?h = Some g'" "ContentHash E (AgentGrant_json g') = ?h"
    using tenants_okD(2) [OF assms(3,4)] tenants_okD(4) [OF assms(3)] assms(5)
    by (fastforce simp: tenant_ok_def GrantByS256_def)
  show ?thesis
  proof (cases "json_print (AgentGrant_json g') = json_print (AgentGrant_json g)")
    case True
    then have "fetch n (IssuerURL cfg @ ''/grants/'' @ ?h) = served (AgentGrant_json g)" for n
      using servesD(3) [OF assms(1) g'(1)] plain_hex [OF assms(7)] by (simp add: served_def ContentHash_def)
    then have "snd (getJSON fetch AgentGrant_of_json w (IssuerURL cfg @ ''/grants/'' @ ?h)) = Inr g"
      using AgentGrant_text_json [OF assms(6)] AgentGrant_json_depth AgentGrant_of_json_AgentGrant_json
      by (intro getJSON_served) auto
    then show ?thesis
      using assms(2) by (auto simp: AgentGrant_resd_def split: prod.splits sum.splits)
  next
    case False
    then have "collision (SHA256 E) (json_print (AgentGrant_json g)) (json_print (AgentGrant_json g'))"
      using g'(2) by (auto simp: collision_def ContentHash_def)
    then show ?thesis using g'(1) by blast
  qed
qed

section \<open>The token at the resource\<close>

text \<open>The claims the server mints are clean JSON.\<close>

lemma minted_clean:
  assumes "PSA_text_ok psa" and "AgentGrant_text_ok g" and "ag_AgentIdentifier g = a" and "resource_ok res"
    and "psa_Issuer psa = IssuerURL cfg" and "psa_Root psa = root"
    and "\<forall>u. su = Some u \<longrightarrow> is_ascii (su_Digest u) \<and> is_ascii (su_Sig u)"
  shows "json_clean (AuthClaims_json (mintClaims E now r (mint_for cfg root psa g res a su)))"
  using assms
  by (cases su)
    (auto simp: AuthClaims_json_def CNF_json_def JWK_json_def omit_nil_def omitempty_def ContentHash_def newJTI_def
      mint_for_def finish_input_def agentKeyFromGrant_def mintClaims_def applyVouched_def PSA_text_ok_def
      AgentGrant_text_ok_def resource_ok_def utf8_ok_append utf8_ok_ascii_append is_ascii_utf8_ok
      MissionRef_json_def StepUp_json_def simp del: hex_encode.simps)

lemma step_up_ascii: "step_up E cfg q = Some u \<Longrightarrow> is_ascii (su_Digest u) \<and> is_ascii (su_Sig u)"
  by (auto simp: step_up_def hexStr_def split: option.splits if_splits)

text \<open>What a poll that gave a token minted, and the account it leaves.\<close>

lemma polled_token:
  assumes "ps_ok E cfg s" and "Routes E cfg e s ''GET'' [''pending'', rid] r = Some (s', token_reply tok)"
    and "byID (pending s) rid = Some p" and "rheap (pending s) p = Some q"
    and "account (tenants s) root psa (rq_AgentID q) g"
  shows "Mint E (clock e) (rand_jti e) (hd (IssuerKeys cfg))
      (mint_for cfg root psa g (resourceOf q) (rq_AgentID q) (step_up E cfg q)) = Inr tok"
    "account (tenants s') root psa (rq_AgentID q) g" "byGrantS256 (tenants s') = byGrantS256 (tenants s)"
    "pending s' = pending s"
proof -
  have "poll E cfg e s (r\<lparr>path_value := rid\<rparr>) = Some (s', token_reply tok)"
    using assms(2) by (simp add: Routes_def for_method_def)
  then obtain thumb p' q' t g' where
    p: "Sig cfg (r\<lparr>path_value := rid\<rparr>) = Inr (thumb, rq_AgentID q')" "byID (pending s) rid = Some p'"
      "rheap (pending s) p' = Some q'" "rq_State q' = StateApproved"
      "ByAgent (tenants s) (rq_AgentID q') = Some t" "Grant (tenants s) t (rq_AgentID q') = Some g'"
      "finish E cfg e s q' t g' (resourceOf q') (rq_AgentID q') = Some (s', token_reply tok)"
    by (rule poll_gives_token) simp
  have q': "q' = q" using assms(3,4) p(2,3) by simp
  from account_live [OF assms(1,5)] obtain t' ten where
    t': "ByAgent (tenants s) (rq_AgentID q) = Some t'" "theap (tenants s) t' = Some ten" "Root ten = root"
      "tPSA ten = psa" "grants ten (rq_AgentID q) = Some g" by metis
  have t: "t' = t" and g': "g' = Some g" using p(5,6) t' q' by (auto simp: Grant_def)
  show mint: "Mint E (clock e) (rand_jti e) (hd (IssuerKeys cfg))
      (mint_for cfg root psa g (resourceOf q) (rq_AgentID q) (step_up E cfg q)) = Inr tok"
    using p(7) t'(2) finish_input_tenant [OF t'(3,4)] unfolding t g' q' finish_token by auto
  from poll_ok [OF assms(1) p(1) [unfolded q'] _ _ p(4) [unfolded q'] assms(5) mint] p(2) assms(3,4)
  show "account (tenants s') root psa (rq_AgentID q) g" "byGrantS256 (tenants s') = byGrantS256 (tenants s)"
    "pending s' = pending s"
    using \<open>poll E cfg e s (r\<lparr>path_value := rid\<rparr>) = Some (s', token_reply tok)\<close> by auto
qed

text \<open>A token that verifies gets the 200 reply.\<close>

lemma whoami_verified:
  assumes "snd (Verify E (resd_verifier E fetch now) w tok (self rs) (Thumbprint E jwk)) = Inr c"
    and "tok = signJWT E k kind cj" and "PSARef c \<noteq> []"
  shows "\<exists>w'. whoami E fetch now rs w (''AAuth '' @ tok) (Thumbprint E jwk)
           = (w', Echo (Sub c) (Agent c) (Iss c) ''verified'' (requireKeyRooted rs))"
proof -
  let ?v = "resd_verifier E fetch now"
  obtain w1 where v: "Verify E ?v w tok (self rs) (Thumbprint E jwk) = (w1, Inr c)"
    using assms(1) by (metis prod.collapse)
  obtain w2 where v2: "VerifyVanilla E ?v w tok (self rs) (Thumbprint E jwk) = (w2, Inr c)"
    using Verify_vanilla [OF v] by blast
  have "tok \<noteq> []" using assms(2) by (simp add: signJWT_def Let_def)
  then show ?thesis
    using v v2 assms(3) bearer_signed [of E k] unfolding assms(2)
    by (cases "requireKeyRooted rs")
      (simp_all add: whoami_def whoami_verify_def Let_def TrimSpace_Thumbprint)
qed

text \<open>The documents of an account, and what the server minted from them at a resource that fetches them.\<close>

lemma account_documents:
  assumes "ps_ok E cfg s" and "account (tenants s) root psa a g"
  shows "psa_ok E cfg psa" "grant_ok E root a g" "psa_Issuer psa = IssuerURL cfg" "psa_Root psa = root"
    "AgentGrant_text_ok g" "PSA_text_ok psa" "ag_AgentIdentifier g = a"
proof -
  from account_live [OF assms] obtain ten where
    t: "registered (tenants s) root = Some ten" "Root ten = root" "tPSA ten = psa" "grants ten a = Some g" by metis
  show docs: "psa_ok E cfg psa" "grant_ok E root a g" using registered_docs [OF assms(1) t(1)] t(3,4) by auto
  show "psa_Issuer psa = IssuerURL cfg" "PSA_text_ok psa" "AgentGrant_text_ok g" "ag_AgentIdentifier g = a"
    using docs by (simp_all add: psa_ok_def grant_ok_def)
  show "psa_Root psa = root"
    using tenants_okD(2) [OF ps_okD(1) [OF assms(1)] t(1)] t(2,3) by (simp add: tenant_ok_def)
qed

lemma minted_at_resource:
  assumes "ps_ok E cfg s" and "serves E cfg s fetch" and "account (tenants s) root psa a g"
    and "TrimRight (CHR ''/'') (IssuerURL cfg) = IssuerURL cfg"
    and "CHR ''#'' \<notin> set (IssuerURL cfg)" and "plain_segment root"
    and "IssuerKeys cfg = k # ks" and "holds_key E k (Pub k)" and "utf8_ok (Kid k)"
    and "\<forall>k \<in> set (IssuerKeys cfg). JWK_text_ok (Pub k)"
    and "Thumbprint E (agentKeyFromGrant g) = ag_AgentThumbprint g"
    and "psa_NotBefore psa \<le> Unix now" and "Unix now \<le> psa_NotAfter psa"
    and "ag_NotBefore g \<le> Unix now" and "Unix now \<le> ag_NotAfter g"
    and "issued \<le> now" and "Unix now < Unix (issued + mintTTL (MaxTokenTTLSeconds (psa_Scope psa)) Hour)"
    and "0 \<le> Unix issued" and "in_i64 (Unix issued + 3600)"
    and "resource_ok res" and "\<forall>u. su = Some u \<longrightarrow> is_ascii (su_Digest u) \<and> is_ascii (su_Sig u)"
    and "Mint E issued rnd k (mint_for cfg root psa g res a su) = Inr tok"
    and "seen w (newJTI rnd) = None"
    and "\<nexists>g'. GrantByS256 (tenants s) (ContentHash E (AgentGrant_json g)) = Some g' \<and> collision (SHA256 E) (json_print (AgentGrant_json g)) (json_print (AgentGrant_json g'))"
    and "SHA256 E (json_print (AgentGrant_json g)) \<noteq> []"
  shows "snd (Verify E (resd_verifier E fetch now) w tok (rc_Iss res) (ag_AgentThumbprint g))
         = Inr (mintClaims E issued rnd (mint_for cfg root psa g res a su))"
proof -
  let ?m = "mint_for cfg root psa g res a su"
  let ?c = "mintClaims E issued rnd ?m" and ?v = "resd_verifier E fetch now"
  from account_live [OF assms(1,3)] obtain t ten where
    t: "byRoot (tenants s) root = Some t" "theap (tenants s) t = Some ten"
      "registered (tenants s) root = Some ten" "Root ten = root" "tPSA ten = psa" "grants ten a = Some g" by metis
  note docs = account_documents [OF assms(1,3)]
  have m: "mi_PSA ?m = psa" "mi_Grant ?m = g" "mi_AgentID ?m = a" "mi_AgentKey ?m = agentKeyFromGrant g"
    "mi_Resource ?m = res" "mi_TTL ?m = Hour" "mi_PSABlobURL ?m = IssuerURL cfg @ ''/psa/'' @ root"
    by (simp_all add: mint_for_def finish_input_def)
  have range: "Unix now < Exp ?c" "AuthClaims_in_range ?c"
    using assms(16-19) Unix_mono [OF assms(16)] mint_lifetime(1) [of E issued rnd ?m]
    by (simp_all add: m AuthClaims_in_range_def in_i64_def)
  have listed: "Thumbprint E (Pub k) \<in> set (elems (psa_KeyThumbprints psa))"
    using assms(22) by (simp add: Mint_ok m)
  have keyed: "snd (Keys ?v w (IssuerURL cfg) (Kid k)) = Inr (Pub k)" for w
    using Key_served [OF assms(2,4,7,10)] by (simp add: resd_verifier_def)
  have psa: "snd (ResolvePSA ?v w (PSARef ?c)) = Inr psa" for w
    using PSA_served [OF assms(2) t(1,2), unfolded t(5), OF docs(6) assms(5,6)] by (simp add: resd_verifier_def m)
  have grant: "snd (ResolveGrant ?v w (IssuerURL cfg) (AgS256 ?c)) = Inr g" for w
    using Grant_served [OF assms(2,4) ps_okD(1) [OF assms(1)] t(3,6) docs(5) assms(25)] assms(24)
    by (simp add: resd_verifier_def m)
  have chain: "VerifyPSA E (Chain ?v) psa (IssuerURL cfg) (Thumbprint E (Pub k)) = Inr ()"
    "VerifyAgentGrant E (Chain ?v) g root a (ag_AgentThumbprint g) = Inr ()"
    using docs(1,2) assms(12-15) listed signed_eoa [of "Chain ?v"]
    by (simp_all add: VerifyPSA_accepts VerifyAgentGrant_accepts psa_ok_def grant_ok_def resd_verifier_def alwaysLive_def)
  have "\<not> spent w (newJTI rnd)" using assms(23) by (simp add: spent_def)
  then have fresh: "\<not> snd (SeenJTI ?v (fst (Keys ?v w (IssuerURL cfg) (Kid k))) (newJTI rnd) (Exp ?c))"
    using resd_uses_cache [of E fetch now] resd_cache.seen_verdict by (simp add: uses_cache_def)
  have "snd (Verify E ?v w tok (rc_Iss (mi_Resource ?m)) (Thumbprint E (mi_AgentKey ?m))) = Inr ?c"
    by (rule minted_verifies [OF assms(22) minted_clean [OF docs(6,5,7) assms(20) docs(3,4) assms(21)]])
      (use assms(8,9,11,16) plain_segmentD(3) [OF assms(6)] range keyed psa grant chain fresh docs in \<open>simp_all add: m, simp_all add: resd_verifier_def\<close>)
  then show ?thesis by (simp add: m assms(11))
qed

text \<open>The sample issuer and the moments of the sample run.\<close>

lemma sample_issuer:
  "holds_key sample_ext sample_key (Pub sample_key)" "utf8_ok (Kid sample_key)" "JWK_text_ok (Pub sample_key)"
  "plain_segment sample_root" "TrimRight (CHR ''/'') ''https://ps'' = ''https://ps''"
  "psa_NotBefore issued_psa = 100" "psa_NotAfter issued_psa = 5000"
  using sample_holds_key
  by (simp_all add: sample_key_def JWK_text_ok_def sample_jwk_def issued_psa_def sample_psa_unsigned_def
      plain_segment_def sample_root_def is_digit_def TrimRight_def)

lemma sample_expiry: "Unix (1020 * Second + mintTTL (MaxTokenTTLSeconds (psa_Scope issued_psa)) Hour) = 1620"
proof -
  have "Exp (mintClaims sample_ext (1020 * Second) r (mint_for sample_cfg sample_root issued_psa run_grant run_claims a su)) = 1620" for r a su
    by (simp add: mint_for_def finish_input_def mintTTL_def sample_psa_unsigned_def i64_def Second_def Hour_def Unix_def)
  then show ?thesis by (simp add: mint_for_def finish_input_def)
qed

lemma sample_hashes: "SHA256 sample_ext text \<noteq> []"
  by (simp add: sample_ext_def checksum_def)

lemma sample_caip: "''eip155:'' @ show_int 8453 @ '':'' @ sample_root = ''eip155:8453:'' @ sample_root"
proof -
  have "show_int 8453 = ''8453''"
    by (simp add: show_int_def show_nat.simps digit_char_def char_of_eq_iff)
  then show ?thesis by simp
qed

section \<open>Properties\<close>

text \<open>One request at a time: whoever polls a token out of the server can use it. While the
  authorization and the grant are in their windows and the token has not expired, a resource server
  that fetches keys and documents from this person server answers the agent's request with 200 and
  the root, the agent and the issuer, in the enhanced mode as in the vanilla one, provided the
  grant names the thumbprint of the key it carries and the token id is fresh (or the server
  holds under the grant's hash another grant, whose text has the same SHA-256).\<close>

theorem issued_token_accepted:
  assumes "(ps_step E cfg)\<^sup>*\<^sup>* New_server s"
    and "Routes E cfg e s ''GET'' [''pending'', rid] r = Some (s', token_reply tok)"
    and "byID (pending s) rid = Some p" and "rheap (pending s) p = Some q"
    and "account (tenants s) root psa (rq_AgentID q) g"
    and "TrimRight (CHR ''/'') (IssuerURL cfg) = IssuerURL cfg"
    and "CHR ''#'' \<notin> set (IssuerURL cfg)" and "plain_segment root"
    and "IssuerKeys cfg = k # ks" and "holds_key E k (Pub k)" and "utf8_ok (Kid k)"
    and "\<forall>k \<in> set (IssuerKeys cfg). JWK_text_ok (Pub k)"
    and "Thumbprint E (agentKeyFromGrant g) = ag_AgentThumbprint g"
    and "psa_NotBefore psa \<le> Unix now" and "Unix now \<le> psa_NotAfter psa"
    and "ag_NotBefore g \<le> Unix now" and "Unix now \<le> ag_NotAfter g"
    and "clock e \<le> now" and "Unix now < Unix (clock e + mintTTL (MaxTokenTTLSeconds (psa_Scope psa)) Hour)"
    and "0 \<le> Unix (clock e)" and "in_i64 (Unix (clock e) + 3600)"
    and "serves E cfg s' fetch" and "self rs = rq_Resource q" and "seen w (newJTI (rand_jti e)) = None"
    and "\<forall>text. SHA256 E text \<noteq> []"
  shows "(\<exists>w'. whoami E fetch now rs w (''AAuth '' @ tok) (ag_AgentThumbprint g)
            = (w', Echo (''eip155:'' @ show_int (psa_RegistryChain psa) @ '':'' @ root) (rq_AgentID q)
                     (IssuerURL cfg) ''verified'' (requireKeyRooted rs)))
         \<or> (\<exists>g'. GrantByS256 (tenants s') (ContentHash E (AgentGrant_json g)) = Some g'
               \<and> collision (SHA256 E) (json_print (AgentGrant_json g)) (json_print (AgentGrant_json g')))"
proof (rule disjCI)
  assume no: "\<nexists>g'. GrantByS256 (tenants s') (ContentHash E (AgentGrant_json g)) = Some g'
      \<and> collision (SHA256 E) (json_print (AgentGrant_json g)) (json_print (AgentGrant_json g'))"
  let ?m = "mint_for cfg root psa g (resourceOf q) (rq_AgentID q) (step_up E cfg q)"
  have ok: "ps_ok E cfg s" using reachable_ok [OF assms(1)] .
  have ok': "ps_ok E cfg s'" using Routes_ok [OF ok assms(2)] .
  note polled = polled_token [OF ok assms(2-5)]
  have mint: "Mint E (clock e) (rand_jti e) k ?m = Inr tok" using polled(1) assms(9) by simp
  have m: "psa_Issuer psa = IssuerURL cfg" "psa_Root psa = root" "mi_PSA ?m = psa"
    "mi_AgentID ?m = rq_AgentID q" "mi_PSABlobURL ?m = IssuerURL cfg @ ''/psa/'' @ root"
    using account_documents [OF ok' polled(2)] by (simp_all add: mint_for_def finish_input_def)
  have shown: "resource_ok (resourceOf q)" "rc_Iss (resourceOf q) = rq_Resource q"
    using request_shows_mint [OF ok assms(4)] by (simp_all add: request_faithful_def)
  have su: "\<forall>u. step_up E cfg q = Some u \<longrightarrow> is_ascii (su_Digest u) \<and> is_ascii (su_Sig u)"
    using step_up_ascii by blast
  have "snd (Verify E (resd_verifier E fetch now) w tok (self rs) (Thumbprint E (agentKeyFromGrant g)))
      = Inr (mintClaims E (clock e) (rand_jti e) ?m)"
    using minted_at_resource [OF ok' assms(22) polled(2) assms(6-21) shown(1) su mint assms(24) no spec [OF assms(25)]]
    by (simp add: shown(2) assms(13,23))
  note reply = whoami_verified [OF this]
  have "tok = signJWT E k ''auth+jwt'' (AuthClaims_json (mintClaims E (clock e) (rand_jti e) ?m))"
    using mint by (simp add: Mint_ok)
  from reply [OF this]
  show "\<exists>w'. whoami E fetch now rs w (''AAuth '' @ tok) (ag_AgentThumbprint g)
      = (w', Echo (''eip155:'' @ show_int (psa_RegistryChain psa) @ '':'' @ root) (rq_AgentID q)
               (IssuerURL cfg) ''verified'' (requireKeyRooted rs))"
    by (simp add: m assms(13))
qed

theorem issued_token_accepted_witness:
  "\<exists>s s' w'. (ps_step sample_ext sample_cfg)\<^sup>*\<^sup>* New_server s
     \<and> Routes sample_ext sample_cfg (sample_env 1020) s ''GET'' [''pending'', newID ''i''] http_poll
         = Some (s', token_reply run_token)
     \<and> whoami sample_ext (ps_network sample_ext sample_cfg (sample_env 1030) s' http_poll) (1030 * Second)
           sample_resource newReplayCache (''AAuth '' @ run_token) (Thumbprint sample_ext sample_agent_jwk)
         = (w', Echo (''eip155:8453:'' @ sample_root) ''aauth:a@b'' ''https://ps'' ''verified'' True)"
proof -
  let ?q = "run_request\<lparr>rq_StepUpSig := Some run_signature, rq_State := StateApproved\<rparr>"
  obtain s s' where s: "(ps_step sample_ext sample_cfg)\<^sup>*\<^sup>* New_server s"
    "Routes sample_ext sample_cfg (sample_env 1020) s ''GET'' [''pending'', newID ''i''] http_poll
       = Some (s', token_reply run_token)"
    "account (tenants s) sample_root issued_psa ''aauth:a@b'' run_grant"
    "GrantByS256 (tenants s) (ContentHash sample_ext (AgentGrant_json run_grant)) = Some run_grant"
    "byID (pending s) (newID ''i'') = Some 0" "rheap (pending s) 0 = Some ?q"
    using sample_approved_state .
  have q: "rq_AgentID ?q = ''aauth:a@b''" "rq_Resource ?q = ''https://res''"
    by (simp_all add: run_request_def new_request_def run_claims_ok)
  have acc: "account (tenants s) sample_root issued_psa (rq_AgentID ?q) run_grant" using s(3) q(1) by simp
  have held: "GrantByS256 (tenants s') (ContentHash sample_ext (AgentGrant_json run_grant)) = Some run_grant"
    using polled_token(3) [OF reachable_ok [OF s(1)] s(2,5,6) acc] s(4) by (simp add: GrantByS256_def)
  let ?fetch = "ps_network sample_ext sample_cfg (sample_env 1030) s' http_poll"
  have "(\<exists>w'. whoami sample_ext ?fetch (1030 * Second) sample_resource newReplayCache (''AAuth '' @ run_token)
            (ag_AgentThumbprint run_grant)
          = (w', Echo (''eip155:'' @ show_int (psa_RegistryChain issued_psa) @ '':'' @ sample_root) (rq_AgentID ?q)
               (IssuerURL sample_cfg) ''verified'' (requireKeyRooted sample_resource)))
      \<or> (\<exists>g'. GrantByS256 (tenants s') (ContentHash sample_ext (AgentGrant_json run_grant)) = Some g'
          \<and> collision (SHA256 sample_ext) (json_print (AgentGrant_json run_grant)) (json_print (AgentGrant_json g')))"
    by (rule issued_token_accepted
        [where ks = "[]", OF s(1,2,5,6) acc _ _ sample_issuer(4) _ sample_issuer(1,2) _ _ _ _ _ _ _ _ _ _ ps_network_serves])
      (use sample_issuer sample_expiry sample_hashes q in \<open>simp_all add: sample_resource_def newReplayCache_def
          Thumbprint_def Unix_def Second_def in_i64_def\<close>)
  moreover note sample_caip
  moreover have "requireKeyRooted sample_resource" by (simp add: sample_resource_def)
  ultimately obtain w' where "whoami sample_ext ?fetch (1030 * Second) sample_resource newReplayCache
      (''AAuth '' @ run_token) (Thumbprint sample_ext sample_agent_jwk)
      = (w', Echo (''eip155:8453:'' @ sample_root) ''aauth:a@b'' ''https://ps'' ''verified'' True)"
    using held q(1) unfolding collision_def run_grant_simps sample_cfg_simps by fastforce
  then show ?thesis using s(1,2) by blast
qed

end
