(* ===== verification/Psd.thy ===== *)
theory Psd
  imports Sample_Run
begin

text \<open>
  The daemon \<open>cmd/psd\<close>: its start (\<open>main.go\<close>), the development build with header-trusting
  authentication and a revocation endpoint (\<open>auth_dev.go\<close>), and the production build, which has
  no authentication yet and refuses to start (\<open>auth_prod.go\<close>).
\<close>

section \<open>The two builds\<close>

text \<open>The build tag \<open>dev\<close> decides which of the two files is compiled in.\<close>

datatype build = Dev | Prod

definition newHTTPSigVerifier_dev :: "ext \<Rightarrow> http \<Rightarrow> string + string \<times> string" where
  "newHTTPSigVerifier_dev E = DevSigVerifier E"

definition newRootAuth_dev :: "ext \<Rightarrow> http \<Rightarrow> string + string" where
  "newRootAuth_dev E = DevRootAuth E"

text \<open>The production constructors panic.\<close>

definition newHTTPSigVerifier_prod :: "(http \<Rightarrow> string + string \<times> string) option" where
  "newHTTPSigVerifier_prod = None"

definition newRootAuth_prod :: "(http \<Rightarrow> string + string) option" where
  "newRootAuth_prod = None"

text \<open>
  \<open>strconv.ParseUint(s, 10, 64)\<close> with its error dropped: 0 for a syntax error, the largest value
  when the digits read so far are out of range.
\<close>

fun parse_digits :: "nat \<Rightarrow> string \<Rightarrow> nat" where
  "parse_digits acc [] = acc"
| "parse_digits acc (c # s) =
     (if \<not> is_digit c then 0
      else let n = 10 * acc + (char_val c - 48) in
           if n \<ge> 2 ^ 64 then 2 ^ 64 - 1 else parse_digits n s)"

definition parseUint :: "string \<Rightarrow> 64 word" where
  "parseUint s = (if s = [] then 0 else of_nat (parse_digits 0 s))"

definition devRevoke :: "ps \<Rightarrow> http \<Rightarrow> ps \<times> reply" where
  "devRevoke s r =
     (let root = query_root r; nonce = parseUint (query_nonce r) in
      if root = [] then (s, ErrorReply 400 ''missing root'')
      else (s\<lparr>registry := Revoke (registry s) root nonce\<rparr>,
            Reply 200 [] (JObj [(''status'', JStr ''revoked'')])))"

text \<open>The routes of the server, with the ones the development build adds.\<close>

definition installDevRoutes_dev :: "ps \<Rightarrow> string \<Rightarrow> string list \<Rightarrow> http \<Rightarrow> handler_result \<Rightarrow> handler_result" where
  "installDevRoutes_dev s meth path r rest =
     (if path = [''dev'', ''revoke''] then for_method (meth = ''POST'') s (Some (devRevoke s r)) else rest)"

definition installDevRoutes_prod :: "handler_result \<Rightarrow> handler_result" where
  "installDevRoutes_prod rest = rest"

definition psd_routes ::
  "build \<Rightarrow> ext \<Rightarrow> Config \<Rightarrow> env \<Rightarrow> ps \<Rightarrow> string \<Rightarrow> string list \<Rightarrow> http \<Rightarrow> handler_result" where
  "psd_routes b E cfg e s meth path r =
     (case b of
        Dev \<Rightarrow> installDevRoutes_dev s meth path r (Routes E cfg e s meth path r)
      | Prod \<Rightarrow> installDevRoutes_prod (Routes E cfg e s meth path r))"

section \<open>Start\<close>

definition envOr :: "(string \<Rightarrow> string) \<Rightarrow> string \<Rightarrow> string \<Rightarrow> string" where
  "envOr getenv k d = (if getenv k \<noteq> [] then getenv k else d)"

datatype startup = Fatal string | Panic | Serving Config

text \<open>
  \<open>main\<close> up to the moment it serves. \<open>generated\<close> is what \<open>ed25519.GenerateKey\<close> returned,
  \<open>month\<close> the current month as \<open>2006-01\<close>.
\<close>

definition psd_main ::
  "build \<Rightarrow> ext \<Rightarrow> (string \<Rightarrow> string) \<Rightarrow> string \<Rightarrow> string + bytes \<times> bytes \<Rightarrow> startup" where
  "psd_main b E getenv month generated =
     (let issuerURL = envOr getenv ''PS_ISSUER_URL'' ''http://localhost:8090'' in
      case generated of
        Inl e \<Rightarrow> Fatal e
      | Inr (pub, priv) \<Rightarrow>
          (let k = \<lparr>Kid = ''ps-'' @ month, Priv = priv,
                    Pub = \<lparr>Kty = ''OKP'', Crv = ''Ed25519'', X = b64_raw True pub\<rparr>\<rparr>;
               addr = envOr getenv ''PS_REGISTRY_ADDR'' ''0x0000000000000000000000000000000000000000'' in
           case (case b of Dev \<Rightarrow> Some (newHTTPSigVerifier_dev E) | Prod \<Rightarrow> newHTTPSigVerifier_prod) of
             None \<Rightarrow> Panic
           | Some sig \<Rightarrow>
               (case (case b of Dev \<Rightarrow> Some (newRootAuth_dev E) | Prod \<Rightarrow> newRootAuth_prod) of
                  None \<Rightarrow> Panic
                | Some ra \<Rightarrow>
                    Serving \<lparr>IssuerURL = issuerURL, IssuerKeys = [k], ChainID = 8453,
                             RegistryAddr = addr, Sig = sig, RootAuth = ra\<rparr>)))"

lemma psd_main_Prod: "psd_main Prod E getenv month generated \<noteq> Serving cfg"
  by (auto simp: psd_main_def newHTTPSigVerifier_prod_def Let_def split: sum.split)

lemma psd_main_Dev:
  "psd_main Dev E getenv month (Inr (pub, priv)) = Serving cfg \<Longrightarrow>
   IssuerKeys cfg = [\<lparr>Kid = ''ps-'' @ month, Priv = priv,
      Pub = \<lparr>Kty = ''OKP'', Crv = ''Ed25519'', X = b64_raw True pub\<rparr>\<rparr>]
   \<and> Sig cfg = DevSigVerifier E \<and> RootAuth cfg = DevRootAuth E"
  by (auto simp: psd_main_def newHTTPSigVerifier_dev_def newRootAuth_dev_def Let_def)

section \<open>The registry while the daemon runs\<close>

text \<open>No handler of the server writes to the registry; only the revocation endpoint does.\<close>

definition keeps_registry :: "ps \<Rightarrow> handler_result \<Rightarrow> bool" where
  "keeps_registry s res = (\<forall>s' rep. res = Some (s', rep) \<longrightarrow> registry s' = registry s)"

lemma keeps_registry_simps [simp]:
  "keeps_registry s None" "keeps_registry s (Some (s', rep)) = (registry s' = registry s)"
  by (auto simp: keeps_registry_def)

lemma keeps_finish: "keeps_registry s (finish E cfg e s q t g res a)"
  by (auto simp: finish_def split: list.split option.split sum.split)

lemma keeps_finish_later:
  "registry s' = registry s \<Longrightarrow> keeps_registry s (finish E cfg e s' q t g res a)"
  using keeps_finish [of s'] by (simp add: keeps_registry_def)

lemma keeps_onboard: "keeps_registry s (onboard E cfg e s r)"
  by (auto simp: onboard_def split: option.split prod.split sum.split)

lemma keeps_enroll: "keeps_registry s (enrollAgent E cfg e s r)"
  by (auto simp: enrollAgent_def split: option.split prod.split sum.split)

lemma keeps_token: "keeps_registry s (token E cfg e s r)"
  by (auto simp: token_def Let_def keeps_finish_later split: option.split prod.split sum.split)

lemma keeps_poll: "keeps_registry s (poll E cfg e s r)"
  by (auto simp: poll_def Let_def keeps_finish_later split: option.split prod.split sum.split State.split)

lemma keeps_approve: "keeps_registry s (approvePage E cfg e s r)" "keeps_registry s (approveElevated E cfg e s r)"
  by (auto simp: approvePage_def approveElevated_def Let_def split: option.split prod.split sum.split)

lemma keeps_reading: "keeps_registry s (reading s rep)"
  by (cases rep) (simp_all add: reading_def)

lemma keeps_method: "keeps_registry s res \<Longrightarrow> keeps_registry s (for_method ok s res)"
  by (simp add: for_method_def)

lemma keeps_if: "keeps_registry s x \<Longrightarrow> keeps_registry s y \<Longrightarrow> keeps_registry s (if b then x else y)"
  by simp

lemma keeps_reply: "keeps_registry s (Some (s, rep))"
  by simp

lemmas keeps_rules = keeps_if keeps_method keeps_reading keeps_onboard keeps_enroll keeps_token keeps_poll
  keeps_approve keeps_reply

lemma Routes_keeps_registry: "keeps_registry s (Routes E cfg e s meth path r)"
  unfolding Routes_def Let_def by (simp only: split: list.split) (intro conjI allI impI keeps_rules)

lemma Routes_registry: "Routes E cfg e s meth path r = Some (s', rep) \<Longrightarrow> registry s' = registry s"
  using Routes_keeps_registry [of s E cfg e meth path r] by (simp add: keeps_registry_def)

section \<open>The daemon as a state machine\<close>

inductive psd_step :: "build \<Rightarrow> ext \<Rightarrow> Config \<Rightarrow> ps \<Rightarrow> ps \<Rightarrow> bool" for b E cfg where
  request: "psd_routes b E cfg e s meth path r = Some (s', rep) \<Longrightarrow> psd_step b E cfg s s'"

inductive_cases psd_stepE: "psd_step b E cfg s s'"

lemma Routes_dev_path: "Routes E cfg e s meth [''dev'', ''revoke''] r = Some (s, MuxReply 404)"
  by (simp add: Routes_def)

lemma psd_routes_cases:
  "psd_routes b E cfg e s meth path r = Routes E cfg e s meth path r
   \<or> psd_routes b E cfg e s meth path r = Some (s, MuxReply 405)
   \<or> psd_routes b E cfg e s meth path r = Some (devRevoke s r)"
  by (simp add: psd_routes_def installDevRoutes_dev_def installDevRoutes_prod_def for_method_def split: build.split)

lemma devRevoke_cases:
  "fst (devRevoke s r) = s \<or> fst (devRevoke s r) = s\<lparr>registry := Revoke (registry s) (query_root r) (parseUint (query_nonce r))\<rparr>"
  by (simp add: devRevoke_def Let_def)

lemma psd_step_cases:
  assumes "psd_step b E cfg s s'"
  obtains "s' = s" | e meth path r rep where "Routes E cfg e s meth path r = Some (s', rep)"
  | root n where "s' = s\<lparr>registry := Revoke (registry s) root n\<rparr>"
proof -
  obtain e meth path r rep where r: "psd_routes b E cfg e s meth path r = Some (s', rep)"
    using assms by (rule psd_stepE)
  consider "Routes E cfg e s meth path r = Some (s', rep)" | "s' = s" | "devRevoke s r = (s', rep)"
    using psd_routes_cases [of b E cfg e s meth path r] r by auto
  then show thesis
  proof cases
    case 3
    then have "fst (devRevoke s r) = s'" by simp
    then show thesis using devRevoke_cases [of s r] that by metis
  qed (use that in auto)
qed

lemma psd_step_ps: "psd_step b E cfg s s' \<Longrightarrow> (ps_step E cfg)\<^sup>*\<^sup>* s s'"
  by (elim psd_step_cases) (auto intro: ps_step.intros)

lemma psd_reaches_ps: "(psd_step b E cfg)\<^sup>*\<^sup>* s s' \<Longrightarrow> (ps_step E cfg)\<^sup>*\<^sup>* s s'"
proof (induction rule: rtranclp_induct)
  case (step s' s'')
  then show ?case using psd_step_ps rtranclp_trans by metis
qed simp

text \<open>Once revoked at the daemon, revoked for good.\<close>

interpretation psd_revoked: transition_invariant "psd_step b E cfg"
  "\<lambda>s. IsRevoked (registry s) c addr root n = Inr True" for b E cfg c addr root n
proof unfold_locales
  fix s s'
  assume "psd_step b E cfg s s'" and "IsRevoked (registry s) c addr root n = Inr True"
  then show "IsRevoked (registry s') c addr root n = Inr True"
    by (elim psd_step_cases) (auto simp: IsRevoked_Revoke dest: Routes_registry)
qed

text \<open>A grant that does not verify is refused, and the refusal changes nothing.\<close>

lemma enroll_refused:
  assumes "ps_ok E cfg s" and "Option.bind (json_decode (http_body r)) AgentGrant_of_json = Some g"
    and "\<And>root a thumb. VerifyAgentGrant E (chain_verifier s (clock e)) g root a thumb \<noteq> Inr ()"
  shows "\<exists>status code. enrollAgent E cfg e s r = Some (s, ErrorReply status code)"
proof (cases "Sig cfg r")
  case (Inr p)
  obtain thumb a where p: "p = (thumb, a)" by fastforce
  show ?thesis
  proof (cases "ByRoot (tenants s) (ag_Root g)")
    case (Some t)
    then obtain ten where "theap (tenants s) t = Some ten"
      using byRoot_live [OF assms(1)] by (metis ByRoot_def)
    moreover obtain x where "VerifyAgentGrant E (chain_verifier s (clock e)) g (Root ten) a thumb = Inl x"
      using assms(3) [of "Root ten" a thumb]
      by (cases "VerifyAgentGrant E (chain_verifier s (clock e)) g (Root ten) a thumb") auto
    ultimately show ?thesis using Inr p Some assms(2) by (simp add: enrollAgent_def)
  qed (use Inr p assms(2) in \<open>simp add: enrollAgent_def\<close>)
qed (simp add: enrollAgent_def)

section \<open>The nonce of the query\<close>

lemma parse_digits_malformed:
  assumes "c \<in> set s" and "\<not> is_digit c" and "(acc + 1) * 10 ^ length s \<le> 2 ^ 64"
  shows "parse_digits acc s = 0"
  using assms
proof (induction s arbitrary: acc)
  case (Cons d s)
  show ?case
  proof (cases "is_digit d")
    case True
    let ?n = "10 * acc + (char_val d - 48)"
    have "?n + 1 \<le> (acc + 1) * 10" using True unfolding is_digit_def by arith
    then have "(?n + 1) * 10 ^ length s \<le> (acc + 1) * 10 * 10 ^ length s" by (rule mult_le_mono1)
    also have "\<dots> \<le> 2 ^ 64" using Cons.prems(3) by (simp add: algebra_simps)
    finally have b: "(?n + 1) * 10 ^ length s \<le> 2 ^ 64" .
    have "(?n + 1) * 1 \<le> (?n + 1) * 10 ^ length s" by (rule mult_le_mono2) simp
    from this b have "(?n + 1) * 1 \<le> 2 ^ 64" by (rule order_trans)
    then have "?n < 2 ^ 64" by simp
    moreover have "c \<in> set s" using True Cons.prems(1,2) by auto
    ultimately show ?thesis using Cons.IH [OF _ Cons.prems(2) b] True by (simp add: Let_def)
  qed simp
qed simp

lemma parseUint_malformed:
  assumes "c \<in> set s" and "\<not> is_digit c" and "length s \<le> 19"
  shows "parseUint s = 0"
proof -
  have "(10 :: nat) ^ length s \<le> 10 ^ 19" using assms(3) by (intro power_increasing) simp_all
  also have "\<dots> \<le> 2 ^ 64" by simp
  finally have "parse_digits 0 s = 0" using parse_digits_malformed [OF assms(1,2), of 0] by simp
  then show ?thesis by (simp add: parseUint_def)
qed

lemma foldl_digits_ge: "acc \<le> foldl (\<lambda>a c. 10 * a + (char_val c - 48)) acc s"
proof (induction s arbitrary: acc)
  case (Cons c s)
  have "acc \<le> 10 * acc + (char_val c - 48)" by simp
  also have "\<dots> \<le> foldl (\<lambda>a c. 10 * a + (char_val c - 48)) (10 * acc + (char_val c - 48)) s" by (rule Cons.IH)
  finally show ?case by simp
qed simp

lemma parse_digits_read:
  "list_all is_digit s \<Longrightarrow> foldl (\<lambda>a c. 10 * a + (char_val c - 48)) acc s < 2 ^ 64 \<Longrightarrow>
   parse_digits acc s = foldl (\<lambda>a c. 10 * a + (char_val c - 48)) acc s"
proof (induction s arbitrary: acc)
  case (Cons c s)
  let ?n = "10 * acc + (char_val c - 48)"
  have "?n < 2 ^ 64" using foldl_digits_ge [of ?n s] Cons.prems(2) by simp
  then show ?case using Cons by (simp add: Let_def)
qed simp

text \<open>The number the revoker printed is the number revoked.\<close>

lemma parseUint_show: "parseUint (show_nat (unat n)) = n"
proof -
  have "all_digits (show_nat (unat n))" by simp
  then have "show_nat (unat n) \<noteq> []" "list_all is_digit (show_nat (unat n))" by (simp_all add: all_digits_def)
  moreover have "foldl (\<lambda>a c. 10 * a + (char_val c - 48)) 0 (show_nat (unat n)) = unat n"
    using read_show_nat [of "unat n"] by (simp add: read_nat_def)
  moreover have "unat n < 2 ^ LENGTH(64)" by (rule unsigned_less)
  then have "unat n < 2 ^ 64" by simp
  ultimately show ?thesis using parse_digits_read [of "show_nat (unat n)" 0] by (simp add: parseUint_def)
qed

section \<open>Properties\<close>

text \<open>Whatever the daemon does in either build, in any sequence of requests
  to its routes and its revocation endpoint, is a run of the server, so every property of the
  server's reachable states holds of the daemon.\<close>

theorem psd_refines_server:
  assumes "(psd_step b E cfg)\<^sup>*\<^sup>* New_server s"
  shows "(ps_step E cfg)\<^sup>*\<^sup>* New_server s"
  using assms by (rule psd_reaches_ps)

theorem psd_refines_server_witness:
  "(ps_step sample_ext sample_cfg)\<^sup>*\<^sup>* New_server
     (New_server\<lparr>registry := Revoke NewMemoryRegistry sample_root 7\<rparr>)"
proof -
  let ?r = "http_poll\<lparr>query_root := sample_root, query_nonce := ''7''\<rparr>"
  have "parseUint ''7'' = 7" by (simp add: parseUint_def is_digit_def)
  then have "psd_routes Dev sample_ext sample_cfg (sample_env 1) New_server ''POST'' [''dev'', ''revoke''] ?r
      = Some (New_server\<lparr>registry := Revoke NewMemoryRegistry sample_root 7\<rparr>,
              Reply 200 [] (JObj [(''status'', JStr ''revoked'')]))"
    by (simp add: psd_routes_def installDevRoutes_dev_def for_method_def devRevoke_def sample_root_def New_server_def)
  then have "psd_step Dev sample_ext sample_cfg New_server (New_server\<lparr>registry := Revoke NewMemoryRegistry sample_root 7\<rparr>)"
    by (rule psd_step.request)
  then show ?thesis by (intro psd_refines_server) (rule r_into_rtranclp)
qed

text \<open>C23: once a root and nonce have been revoked at the daemon, in
  every later state the authorization with that nonce is refused at onboarding with 403, the
  grant with that nonce is refused at enrollment, and neither request changes anything.\<close>

theorem revoked_documents_are_refused:
  assumes "psd_routes Dev E cfg e s ''POST'' [''dev'', ''revoke''] r = Some (s1, Reply 200 h v)"
    and "(psd_step Dev E cfg)\<^sup>*\<^sup>* New_server s" and "(psd_step Dev E cfg)\<^sup>*\<^sup>* s1 s2"
    and "Option.bind (json_decode (http_body r1)) PSA_of_json = Some psa"
    and "psa_Root psa = query_root r" and "psa_Nonce psa = parseUint (query_nonce r)"
    and "Option.bind (json_decode (http_body r2)) AgentGrant_of_json = Some g"
    and "ag_Root g = query_root r" and "ag_Nonce g = parseUint (query_nonce r)"
  shows "psd_routes Dev E cfg e1 s2 ''POST'' [''psa''] r1 = Some (s2, ErrorReply 403 ''invalid_psa'')
    \<and> (\<exists>status code. psd_routes Dev E cfg e2 s2 ''POST'' [''agents''] r2 = Some (s2, ErrorReply status code))"
proof -
  have s1: "s1 = s\<lparr>registry := Revoke (registry s) (query_root r) (parseUint (query_nonce r))\<rparr>"
    using assms(1)
    by (auto simp: psd_routes_def installDevRoutes_dev_def for_method_def devRevoke_def Let_def split: if_splits)
  have revoked: "IsRevoked (registry s2) c addr (query_root r) (parseUint (query_nonce r)) = Inr True" for c addr
    by (rule psd_revoked.inv_reaches [OF assms(3)]) (simp add: s1 IsRevoked_Revoke)
  have "psd_step Dev E cfg s s1" using assms(1) by (rule psd_step.request)
  then have "(psd_step Dev E cfg)\<^sup>*\<^sup>* New_server s2" using assms(2,3) by (meson rtranclp.rtrancl_into_rtrancl rtranclp_trans)
  then have ok: "ps_ok E cfg s2" using psd_reaches_ps reachable_ok by blast
  have "onboard_verdict E (chain_verifier s2 (clock e1)) psa (IssuerURL cfg) (keyThumbs E cfg) \<noteq> Inr ()"
    using revoked assms(5,6) by (auto simp: onboard_verdict_def Let_def VerifyPSA_accepts chain_verifier_def split: sum.splits)
  then obtain err where "onboard_verdict E (chain_verifier s2 (clock e1)) psa (IssuerURL cfg) (keyThumbs E cfg) = Inl err"
    by (cases "onboard_verdict E (chain_verifier s2 (clock e1)) psa (IssuerURL cfg) (keyThumbs E cfg)") auto
  from onboard_refused [OF this, of "tenants s2"]
  have "onboard E cfg e1 s2 r1 = Some (s2, ErrorReply 403 ''invalid_psa'')"
    using assms(4) by (simp add: onboard_def)
  moreover have "VerifyAgentGrant E (chain_verifier s2 (clock e2)) g root a thumb \<noteq> Inr ()" for root a thumb
    using revoked assms(8,9) by (auto simp: VerifyAgentGrant_accepts chain_verifier_def)
  then have "\<exists>status code. enrollAgent E cfg e2 s2 r2 = Some (s2, ErrorReply status code)"
    by (rule enroll_refused [OF ok assms(7)])
  ultimately show ?thesis by (simp add: psd_routes_def installDevRoutes_dev_def Routes_def for_method_def)
qed

theorem revoked_documents_are_refused_witness:
  "\<exists>s status code. psd_routes Dev sample_ext sample_cfg (sample_env 1) New_server ''POST'' [''dev'', ''revoke'']
        (http_poll\<lparr>query_root := sample_root, query_nonce := ''7''\<rparr>)
      = Some (s, Reply 200 [] (JObj [(''status'', JStr ''revoked'')]))
     \<and> psd_routes Dev sample_ext sample_cfg (sample_env 1000) s ''POST'' [''psa''] http_onboard
        = Some (s, ErrorReply 403 ''invalid_psa'')
     \<and> psd_routes Dev sample_ext sample_cfg (sample_env 1000) s ''POST'' [''agents'']
          (sample_http (AgentGrant_json (run_grant\<lparr>ag_Nonce := 7\<rparr>))) = Some (s, ErrorReply status code)"
proof -
  let ?g = "run_grant\<lparr>ag_Nonce := 7\<rparr>" and ?r = "http_poll\<lparr>query_root := sample_root, query_nonce := ''7''\<rparr>"
  let ?s = "New_server\<lparr>registry := Revoke (registry New_server) sample_root 7\<rparr>"
  have nonce: "parseUint ''7'' = 7" by (simp add: parseUint_def is_digit_def)
  have psa: "psa_Nonce issued_psa = 7" by (simp add: issued_psa_def sample_psa_unsigned_def)
  have g: "json_clean (AgentGrant_json ?g)" "AgentGrant_in_range ?g"
    by (simp_all add: AgentGrant_json_def AgentGrant_in_range_def in_i64_def omitempty_def run_grant_def
        sample_grant_unsigned_def sample_root_def Thumbprint_def sample_agent_jwk_def)
  have body: "Option.bind (json_decode (http_body (sample_http (AgentGrant_json ?g)))) AgentGrant_of_json = Some ?g"
    using g AgentGrant_json_depth by (simp add: sample_body AgentGrant_of_json_AgentGrant_json)
  have revoke: "psd_routes Dev sample_ext sample_cfg (sample_env 1) New_server ''POST'' [''dev'', ''revoke''] ?r
      = Some (?s, Reply 200 [] (JObj [(''status'', JStr ''revoked'')]))"
    by (simp add: psd_routes_def installDevRoutes_dev_def for_method_def devRevoke_def nonce sample_root_def)
  have "psd_routes Dev sample_ext sample_cfg (sample_env 1000) ?s ''POST'' [''psa''] http_onboard
        = Some (?s, ErrorReply 403 ''invalid_psa'')
     \<and> (\<exists>status code. psd_routes Dev sample_ext sample_cfg (sample_env 1000) ?s ''POST'' [''agents'']
          (sample_http (AgentGrant_json ?g)) = Some (?s, ErrorReply status code))"
    by (rule revoked_documents_are_refused [OF revoke rtranclp.rtrancl_refl rtranclp.rtrancl_refl run_bodies(1) _ _ body])
      (simp_all add: nonce psa)
  then show ?thesis using revoke by blast
qed

text \<open>The revocation endpoint drops the error of its number parser,
  so a request whose nonce is not a number (of at most 19 characters) is answered 200 and revokes
  the root's handle 0: a document the request did not name.\<close>

theorem malformed_nonce_revokes_zero:
  assumes "query_root r \<noteq> []" and "c \<in> set (query_nonce r)" and "\<not> is_digit c" and "length (query_nonce r) \<le> 19"
  shows "psd_routes Dev E cfg e s ''POST'' [''dev'', ''revoke''] r
         = Some (s\<lparr>registry := Revoke (registry s) (query_root r) 0\<rparr>, Reply 200 [] (JObj [(''status'', JStr ''revoked'')]))"
  using assms parseUint_malformed
  by (simp add: psd_routes_def installDevRoutes_dev_def for_method_def devRevoke_def)

theorem malformed_nonce_revokes_zero_witness:
  "psd_routes Dev sample_ext sample_cfg (sample_env 1) New_server ''POST'' [''dev'', ''revoke'']
     (http_poll\<lparr>query_root := sample_root, query_nonce := ''7x''\<rparr>)
   = Some (New_server\<lparr>registry := Revoke (registry New_server) sample_root 0\<rparr>,
           Reply 200 [] (JObj [(''status'', JStr ''revoked'')]))"
  using malformed_nonce_revokes_zero [of "http_poll\<lparr>query_root := sample_root, query_nonce := ''7x''\<rparr>" "CHR ''x''"]
  by (simp add: sample_root_def is_digit_def)

end
