(* ===== verification/Processes.thy ===== *)
theory Processes
  imports Prelude
begin

text \<open>
  Goroutines. A handler of an HTTP server is a process that takes atomic actions on the state it
  shares with the others: one action for every critical section of a mutex, for every access to a
  shared field outside one, and for every question to the outside (the clock, random bytes, the
  network). Each action finds an environment of its own, so between two actions anything may have
  happened. A pool holds the processes of all requests in flight.
\<close>

section \<open>Processes\<close>

datatype ('e, 's, 'r) process =
    Done 'r
  | Crash
  | Act "'e \<times> 's \<Rightarrow> 's \<times> ('e, 's, 'r) process"

lemma process_induct [case_names Done Crash Act]:
  assumes "\<And>rep. P (Done rep)" and "P Crash" and "\<And>f. (\<And>e s. P (snd (f (e, s)))) \<Longrightarrow> P (Act f)"
  shows "P q"
  by (induction q) (use assms in \<open>auto simp: snds.simps\<close>)

text \<open>The process run without interruption, with one environment for all its actions.\<close>

primrec run :: "('e, 's, 'r) process \<Rightarrow> 'e \<Rightarrow> 's \<Rightarrow> ('s \<times> 'r) option" where
  "run (Done rep) = (\<lambda>e s. Some (s, rep))"
| "run Crash = (\<lambda>e s. None)"
| "run (Act f) = (\<lambda>e s. case map_prod id run (f (e, s)) of (s', g) \<Rightarrow> g e s')"

declare run.simps(3) [simp del]

lemma run_Act: "run (Act f) e s = (case f (e, s) of (s', q) \<Rightarrow> run q e s')"
  by (simp add: run.simps(3) split_beta)

lemma run_if: "run (if b then p else q) e s = (if b then run p e s else run q e s)"
  by simp

text \<open>The first actions of a process, run without interruption.\<close>

fun paused :: "nat \<Rightarrow> ('e, 's, 'r) process \<Rightarrow> 'e \<Rightarrow> 's \<Rightarrow> 's \<times> ('e, 's, 'r) process" where
  "paused (Suc n) (Act f) e s = (case f (e, s) of (s', q) \<Rightarrow> paused n q e s')"
| "paused n q e s = (s, q)"

text \<open>
  The actions: an operation on the shared state that is given the environment and returns a value;
  reading the environment; reading shared state; following a pointer, where a nil pointer panics.
\<close>

definition perform :: "('e \<Rightarrow> 's \<Rightarrow> 's \<times> 'a) \<Rightarrow> ('a \<Rightarrow> ('e, 's, 'r) process) \<Rightarrow> ('e, 's, 'r) process" where
  "perform f k = Act (\<lambda>(e, s). case f e s of (s', x) \<Rightarrow> (s', k x))"

definition draw :: "('e \<Rightarrow> ('e, 's, 'r) process) \<Rightarrow> ('e, 's, 'r) process" where
  "draw k = Act (\<lambda>(e, s). (s, k e))"

definition reads :: "('s \<Rightarrow> 'a) \<Rightarrow> ('a \<Rightarrow> ('e, 's, 'r) process) \<Rightarrow> ('e, 's, 'r) process" where
  "reads f k = Act (\<lambda>(e, s). (s, k (f s)))"

definition follow :: "('s \<Rightarrow> 'a option) \<Rightarrow> ('a \<Rightarrow> ('e, 's, 'r) process) \<Rightarrow> ('e, 's, 'r) process" where
  "follow f k = reads f (\<lambda>x. case x of None \<Rightarrow> Crash | Some y \<Rightarrow> k y)"

lemmas action_defs = perform_def draw_def reads_def follow_def

lemma run_actions [simp]:
  "run (perform f k0) e s = (case f e s of (s', x) \<Rightarrow> run (k0 x) e s')"
  "run (draw k1) e s = run (k1 e) e s"
  "run (reads g k2) e s = run (k2 (g s)) e s"
  "run (follow h k3) e s = (case h s of None \<Rightarrow> None | Some x \<Rightarrow> run (k3 x) e s)"
  by (simp_all add: action_defs run_Act split: option.split prod.split)

lemma paused_actions [simp]:
  "paused 0 q e s = (s, q)"
  "paused (Suc n) (reads g l) e s = paused n (l (g s)) e s"
  "h s = Some x \<Longrightarrow> paused (Suc n) (follow h m) e s = paused n (m x) e s"
  by (cases q; simp add: action_defs)+

section \<open>What every action keeps\<close>

text \<open>All actions of a process are related by \<open>K\<close>.\<close>

primrec calm :: "('e, 's, 'r) process \<Rightarrow> ('s \<Rightarrow> 's \<Rightarrow> bool) \<Rightarrow> bool" where
  "calm (Done rep) = (\<lambda>K. True)"
| "calm Crash = (\<lambda>K. True)"
| "calm (Act f) = (\<lambda>K. \<forall>e s. case map_prod id calm (f (e, s)) of (s', g) \<Rightarrow> K s s' \<and> g K)"

lemma calm_Act: "calm (Act f) K \<longleftrightarrow> (\<forall>e s. K s (fst (f (e, s))) \<and> calm (snd (f (e, s))) K)"
  by (simp add: split_beta)

declare calm.simps(3) [simp del]

lemma calm_perform:
  assumes "\<And>e s. K s (fst (f e s))" and "\<And>x. calm (k x) K"
  shows "calm (perform f k) K"
  using assms by (auto simp: perform_def calm_Act split: prod.split) (metis fst_conv)

lemma calm_if: "calm q K \<Longrightarrow> calm q' K \<Longrightarrow> calm (if b then q else q') K"
  by simp

section \<open>How many actions are left\<close>

text \<open>A process that takes at most \<open>n\<close> more actions, whatever it finds.\<close>

primrec within :: "('e, 's, 'r) process \<Rightarrow> nat \<Rightarrow> bool" where
  "within (Done rep) = (\<lambda>n. True)"
| "within Crash = (\<lambda>n. True)"
| "within (Act f) = (\<lambda>n. n \<noteq> 0 \<and> (\<forall>e s. snd (map_prod id within (f (e, s))) (n - 1)))"

lemma within_Act: "within (Act f) n \<longleftrightarrow> n \<noteq> 0 \<and> (\<forall>e s. within (snd (f (e, s))) (n - 1))"
  by (simp add: snd_map_prod)

declare within.simps(3) [simp del]

lemma within_more: "within q n \<Longrightarrow> n \<le> m \<Longrightarrow> within q m"
proof (induction q arbitrary: n m rule: process_induct)
  case (Act f)
  then show ?case by (metis within_Act diff_le_mono le_zero_eq)
qed simp_all

lemma within_add: "within q n \<Longrightarrow> within q (n + m)"
  by (erule within_more) simp

lemma within_reading:
  "n \<noteq> 0 \<Longrightarrow> (\<And>x. within (j x) (n - 1)) \<Longrightarrow> within (perform f j) n"
  "n \<noteq> 0 \<Longrightarrow> (\<And>e. within (k e) (n - 1)) \<Longrightarrow> within (draw k) n"
  "n \<noteq> 0 \<Longrightarrow> (\<And>x. within (l x) (n - 1)) \<Longrightarrow> within (reads g l) n"
  "n \<noteq> 0 \<Longrightarrow> (\<And>x. within (m x) (n - 1)) \<Longrightarrow> within (follow h m) n"
  by (auto simp: action_defs within_Act split: option.split prod.split)

lemma within_if: "within q n \<Longrightarrow> within q' n \<Longrightarrow> within (if b then q else q') n"
  by simp

section \<open>Requests in flight\<close>

text \<open>
  The shared state and, for every connection, the request and what is left of its handler. One of the
  processes acts, in an environment of the kind \<open>A\<close>; a request that has been answered leaves.
\<close>

record ('q, 'e, 's, 'r) thread =
  th_request :: 'q
  th_proc :: "('e, 's, 'r) process"

record ('q, 'e, 's, 'r) pool =
  shared :: 's
  threads :: "nat \<rightharpoonup> ('q, 'e, 's, 'r) thread"

definition resting :: "'s \<Rightarrow> ('q, 'e, 's, 'r) pool" where
  "resting s = \<lparr>shared = s, threads = Map.empty\<rparr>"

definition moved ::
  "('q, 'e, 's, 'r) pool \<Rightarrow> nat \<Rightarrow> ('q, 'e, 's, 'r) thread \<Rightarrow> 's \<Rightarrow> ('e, 's, 'r) process
   \<Rightarrow> ('q, 'e, 's, 'r) pool" where
  "moved p i th s q = p\<lparr>shared := s, threads := (threads p)(i \<mapsto> th\<lparr>th_proc := q\<rparr>)\<rparr>"

lemma resting_simps [simp]: "shared (resting s) = s" "threads (resting s) = Map.empty"
  by (simp_all add: resting_def)

lemma moved_simps [simp]:
  "shared (moved p i th s q) = s"
  "threads (moved p i th s q) = (threads p)(i \<mapsto> th\<lparr>th_proc := q\<rparr>)"
  "moved (moved p i th s q) i (th\<lparr>th_proc := q\<rparr>) s' q' = moved p i th s' q'"
  by (simp_all add: moved_def)

lemma moved_same: "threads p i = Some th \<Longrightarrow> moved p i th (shared p) (th_proc th) = p"
  by (cases p; cases th) (auto simp: moved_def)

inductive act_step :: "('e \<Rightarrow> bool) \<Rightarrow> ('q, 'e, 's, 'r) pool \<Rightarrow> ('q, 'e, 's, 'r) pool \<Rightarrow> bool" for A where
  act: "A e \<Longrightarrow> threads p i = Some th \<Longrightarrow> th_proc th = Act f \<Longrightarrow> f (e, shared p) = (s, q) \<Longrightarrow>
     act_step A p (moved p i th s q)"

inductive settle_step :: "('q, 'e, 's, 'r) pool \<Rightarrow> ('q, 'e, 's, 'r) pool \<Rightarrow> bool" where
  act: "act_step (\<lambda>_. True) p p' \<Longrightarrow> settle_step p p'"
| leave: "threads p i = Some th \<Longrightarrow> th_proc th = Done rep \<Longrightarrow>
     settle_step p (p\<lparr>threads := (threads p)(i := None)\<rparr>)"

inductive_cases act_stepE: "act_step A p p'"
inductive_cases settle_stepE: "settle_step p p'"

lemma act_settles: "act_step A p p' \<Longrightarrow> settle_step p p'"
  by (elim act_stepE) (auto intro!: settle_step.act act_step.intros)

lemma settle_cases [consumes 1, case_names act leave]:
  assumes "settle_step p p'"
  obtains (act) i th f e s q where "p' = moved p i th s q" "threads p i = Some th" "th_proc th = Act f"
    "f (e, shared p) = (s, q)"
  | (leave) i th rep where "p' = p\<lparr>threads := (threads p)(i := None)\<rparr>" "threads p i = Some th"
    "th_proc th = Done rep"
  using assms by (elim settle_stepE act_stepE) (blast intro: that)+

lemma settle_act:
  "threads p i = Some th \<Longrightarrow> th_proc th = Act f \<Longrightarrow> f (e, shared p) = (s, q) \<Longrightarrow> settle_step p (moved p i th s q)"
  using settle_step.act [OF act_step.act [of "\<lambda>_. True" e p i th f s q]] by simp

text \<open>A handler can always run to its end without interruption, whatever else is in flight.\<close>

lemma run_interleaves:
  assumes "run q e s = Some (s', rep)" and "calm q K" and "A e"
    and "threads p i = Some th" and "th_proc th = q" and "shared p = s"
  shows "(\<lambda>p p'. act_step A p p' \<and> K (shared p) (shared p'))\<^sup>*\<^sup>* p (moved p i th s' (Done rep))"
  using assms
proof (induction q arbitrary: s p th rule: process_induct)
  case (Done x)
  then show ?case using moved_same [of p i th] by auto
next
  case (Act f)
  obtain s1 q1 where f: "f (e, s) = (s1, q1)" by force
  have step: "act_step A p (moved p i th s1 q1) \<and> K (shared p) (shared (moved p i th s1 q1))"
    using Act.prems f by (auto simp: calm_Act intro!: act_step.act) (metis fst_conv)
  have "run q1 e s1 = Some (s', rep)" "calm q1 K"
    using Act.prems(1,2) f by (simp_all add: run_Act calm_Act) (metis snd_conv)
  from Act.IH [of e s s1 "moved p i th s1 q1" "th\<lparr>th_proc := q1\<rparr>"] this f Act.prems(3)
  have "(\<lambda>p p'. act_step A p p' \<and> K (shared p) (shared p'))\<^sup>*\<^sup>* (moved p i th s1 q1)
      (moved p i th s' (Done rep))" by simp
  with step show ?case by (rule converse_rtranclp_into_rtranclp)
qed simp

section \<open>Settling\<close>

text \<open>The actions the requests in flight have left, and their leaving.\<close>

definition funded :: "('q, 'e, 's, 'r) pool \<Rightarrow> nat \<Rightarrow> bool" where
  "funded p m =
     (finite (dom (threads p)) \<and> (\<exists>B. (\<forall>i th. threads p i = Some th \<longrightarrow> within (th_proc th) (B i))
        \<and> (\<Sum>i \<in> dom (threads p). Suc (B i)) \<le> m))"

lemma funded_settle:
  assumes "settle_step p p'" and "funded p m"
  shows "m \<noteq> 0 \<and> funded p' (m - 1)"
proof -
  obtain B where fin: "finite (dom (threads p))" and B: "\<And>i th. threads p i = Some th \<Longrightarrow> within (th_proc th) (B i)"
    and m: "(\<Sum>i \<in> dom (threads p). Suc (B i)) \<le> m"
    using assms(2) unfolding funded_def by blast
  have split: "(\<Sum>j \<in> dom (threads p). Suc (B j)) = Suc (B i) + (\<Sum>j \<in> dom (threads p) - {i}. Suc (B j))"
    if "threads p i = Some th" for i th
    by (rule sum.remove [OF fin]) (use that in blast)
  from assms(1) show ?thesis
  proof (cases rule: settle_cases)
    case (act i th f e s q)
    note left = B [OF act(2), unfolded act(3) within_Act]
    let ?B = "B(i := B i - 1)"
    have "within (th_proc x) (?B j)" if "((threads p)(i \<mapsto> th\<lparr>th_proc := q\<rparr>)) j = Some x" for j x
      using that B left act(4) by (auto split: if_splits) (metis snd_conv)
    moreover have "(\<Sum>j \<in> dom (threads p) - {i}. Suc (?B j)) = (\<Sum>j \<in> dom (threads p) - {i}. Suc (B j))"
      by (rule sum.cong) auto
    then have "(\<Sum>j \<in> insert i (dom (threads p)). Suc (?B j)) = Suc (B i - 1) + (\<Sum>j \<in> dom (threads p) - {i}. Suc (B j))"
      using sum.insert_remove [OF fin, of "\<lambda>j. Suc (?B j)" i] by simp
    ultimately show ?thesis
      using m split [OF act(2)] fin left unfolding act(1) funded_def by (intro conjI exI [of _ ?B]) auto
  next
    case (leave i th rep)
    have "within (th_proc x) (B j)" if "((threads p)(i := None)) j = Some x" for j x
      using that B by (auto split: if_splits)
    then show ?thesis
      using m split [OF leave(2)] fin unfolding leave(1) funded_def by (intro conjI exI [of _ B]) auto
  qed
qed

lemma funded_settles: "(settle_step ^^ n) p p' \<Longrightarrow> funded p m \<Longrightarrow> n \<le> m"
proof (induction n arbitrary: p m)
  case (Suc n)
  then obtain p1 where "settle_step p p1" "(settle_step ^^ n) p1 p'" by (meson relpowp_Suc_E2)
  then show ?case using funded_settle [OF _ Suc.prems(2)] Suc.IH [of p1 "m - 1"] by fastforce
qed simp

text \<open>Every request in flight has at most \<open>n\<close> actions left.\<close>

definition timely :: "nat \<Rightarrow> ('q, 'e, 's, 'r) pool \<Rightarrow> bool" where
  "timely n p = (finite (dom (threads p)) \<and> (\<forall>i th. threads p i = Some th \<longrightarrow> within (th_proc th) n))"

lemma timely_resting [simp]: "timely n (resting s)"
  by (simp add: timely_def)

lemma timely_settle:
  assumes "settle_step p p'" and "timely n p"
  shows "timely n p'"
  using assms(1)
proof (cases rule: settle_cases)
  case (act i th f e s q)
  have "within (Act f) n" using assms(2) act(2,3) unfolding timely_def by metis
  then have "within (snd (f (e, shared p))) (n - 1)" by (simp add: within_Act)
  then have "within q n" using act(4) within_more by (metis snd_conv diff_le_self)
  then show ?thesis using act assms(2) by (auto simp: timely_def)
next
  case (leave i th rep)
  then show ?thesis using assms(2) by (auto simp: timely_def)
qed

lemma timely_funded: "timely n p \<Longrightarrow> funded p (Suc n * card (dom (threads p)))"
  unfolding timely_def funded_def by (intro conjI exI [of _ "\<lambda>_. n"]) auto

end
