(* ===== verification/Handlers.thy ===== *)
theory Handlers
  imports Psd Processes
begin

text \<open>
  The handlers as the Go program runs them: one goroutine per request, as a process of \<open>Processes\<close>
  whose environment is the clock and the random bytes and whose shared state is the server's. Run
  without interruption, a handler is the handler of \<open>Server\<close>.
\<close>

section \<open>The two stores\<close>

type_synonym proc = "(env, ps, reply) process"

text \<open>The two stores under their locks. A panic crashes the handler.\<close>

definition on_tenants :: "(Tenants \<Rightarrow> (Tenants \<times> 'a) option) \<Rightarrow> ('a \<Rightarrow> proc) \<Rightarrow> proc" where
  "on_tenants f k = Act (\<lambda>(e, s).
     case f (tenants s) of None \<Rightarrow> (s, Crash) | Some (ts, x) \<Rightarrow> (s\<lparr>tenants := ts\<rparr>, k x))"

definition on_pending :: "(env \<Rightarrow> Store \<Rightarrow> (Store \<times> 'a) option) \<Rightarrow> ('a \<Rightarrow> proc) \<Rightarrow> proc" where
  "on_pending f k = Act (\<lambda>(e, s).
     case f e (pending s) of None \<Rightarrow> (s, Crash) | Some (st, x) \<Rightarrow> (s\<lparr>pending := st\<rparr>, k x))"

lemma run_stores [simp]:
  "run (on_tenants h l) e s =
     (case h (tenants s) of None \<Rightarrow> None | Some (ts, x) \<Rightarrow> run (l x) e (s\<lparr>tenants := ts\<rparr>))"
  "run (on_pending j l') e s =
     (case j e (pending s) of None \<Rightarrow> None | Some (st, x) \<Rightarrow> run (l' x) e (s\<lparr>pending := st\<rparr>))"
  by (simp_all add: on_tenants_def on_pending_def run_Act split: option.split prod.split)

section \<open>Operations of the stores\<close>

definition the_tenant :: "tptr \<Rightarrow> ps \<Rightarrow> Tenant option" where
  "the_tenant t s = theap (tenants s) t"

definition the_request :: "rptr \<Rightarrow> ps \<Rightarrow> Request option" where
  "the_request p s = rheap (pending s) p"

definition log_p :: "ext \<Rightarrow> tptr \<Rightarrow> string \<Rightarrow> string \<Rightarrow> string \<Rightarrow> proc \<Rightarrow> proc" where
  "log_p E t agentID kind rid k =
     draw (\<lambda>e. on_tenants
       (\<lambda>ts. map_option (\<lambda>ts'. (ts', ())) (LogAppend E ts t agentID (new_entry kind rid (clock e)))) (\<lambda>_. k))"

text \<open>The last check of the verifier asks the registry, under its lock.\<close>

definition VerifyAndOnboard_p ::
  "ext \<Rightarrow> PSA \<Rightarrow> string \<Rightarrow> string list \<Rightarrow> (tenant_err + tptr \<Rightarrow> proc) \<Rightarrow> proc" where
  "VerifyAndOnboard_p E psa issuerURL thumbs k =
     (let covered = coveredKey (elems (psa_KeyThumbprints psa)) thumbs in
      if covered = [] then k (Inl CoversNone)
      else draw (\<lambda>e. reads (\<lambda>s. chain_verifier s (clock e)) (\<lambda>v.
        case VerifyPSA E v psa issuerURL covered of
          Inl x \<Rightarrow> k (Inl (PsaRejected x))
        | Inr _ \<Rightarrow>
            on_tenants (\<lambda>ts. case NewTenant ts psa of (ts1, t) \<Rightarrow> Onboard ts1 t) (\<lambda>res.
              case res of
                Inl x \<Rightarrow> k (Inl x)
              | Inr _ \<Rightarrow>
                  reads (\<lambda>s. ByRoot (tenants s) (psa_Root psa)) (\<lambda>live.
                    case live of None \<Rightarrow> k (Inl NotRegistered) | Some t \<Rightarrow> k (Inr t))))))"

definition transition_p :: "rptr \<Rightarrow> State \<Rightarrow> (consent_err + unit \<Rightarrow> proc) \<Rightarrow> proc" where
  "transition_p p to k = on_pending (\<lambda>e st. transition st (clock e) p to) k"

definition ApproveRoutine_p :: "string \<Rightarrow> (consent_err + unit \<Rightarrow> proc) \<Rightarrow> proc" where
  "ApproveRoutine_p code k =
     reads (\<lambda>s. byCodeLocked (pending s) code) (\<lambda>res.
       case res of
         Inl x \<Rightarrow> k (Inl x)
       | Inr None \<Rightarrow> Crash
       | Inr (Some p) \<Rightarrow>
           follow (the_request p) (\<lambda>r.
             if rq_Tier r \<noteq> TierRoutine then k (Inl NeedsRootSignature)
             else transition_p p StateApproved k))"

text \<open>The signature is stored in a critical section of its own, before the decision.\<close>

definition ApproveElevated_p ::
  "ext \<Rightarrow> string \<Rightarrow> string \<Rightarrow> int \<Rightarrow> string \<Rightarrow> bytes \<Rightarrow> (consent_err + unit \<Rightarrow> proc) \<Rightarrow> proc" where
  "ApproveElevated_p E code root chainID addr sig k =
     reads (\<lambda>s. byCodeLocked (pending s) code) (\<lambda>res.
       case res of
         Inl x \<Rightarrow> k (Inl x)
       | Inr None \<Rightarrow> Crash
       | Inr (Some p) \<Rightarrow>
           follow (the_request p) (\<lambda>r.
             if rq_Tier r \<noteq> TierElevated then k (Inl NotElevated)
             else (case ApprovalDigest E r chainID addr of
                     None \<Rightarrow> k (Inl ApprovalDigestErr)
                   | Some digest \<Rightarrow>
                       (case verifyEOASig E root digest sig of
                          Inl x \<Rightarrow> k (Inl x)
                        | Inr _ \<Rightarrow>
                            on_pending (\<lambda>_ st. case rheap st p of
                                None \<Rightarrow> None
                              | Some r' \<Rightarrow> Some (set_request st p (r'\<lparr>rq_StepUpSig := Some sig\<rparr>), ()))
                              (\<lambda>_. transition_p p StateApproved k)))))"

section \<open>The handlers\<close>

definition onboard_p :: "ext \<Rightarrow> Config \<Rightarrow> http \<Rightarrow> proc" where
  "onboard_p E cfg r =
     (case Option.bind (json_decode (http_body r)) PSA_of_json of
        None \<Rightarrow> Done (ErrorReply 400 ''invalid_request'')
      | Some psa \<Rightarrow>
          VerifyAndOnboard_p E psa (IssuerURL cfg) (keyThumbs E cfg) (\<lambda>res.
            case res of
              Inl _ \<Rightarrow> Done (ErrorReply 403 ''invalid_psa'')
            | Inr t \<Rightarrow>
                follow (the_tenant t) (\<lambda>ten.
                  Done (Reply 201 [] (JObj [(''psa_url'', JStr (IssuerURL cfg @ ''/psa/'' @ Root ten)),
                                            (''root'', JStr (Root ten))])))))"

text \<open>\<open>enrollAgent\<close> from the tenant found: verify the grant, enroll, log.\<close>

definition enroll_p :: "ext \<Rightarrow> tptr \<Rightarrow> AgentGrant \<Rightarrow> string \<Rightarrow> string \<Rightarrow> proc" where
  "enroll_p E t g agentID root =
     on_tenants (\<lambda>ts. Enroll E ts agentID t g) (\<lambda>res.
       case res of
         Inl _ \<Rightarrow> Done (ErrorReply 409 ''conflict'')
       | Inr _ \<Rightarrow>
           log_p E t agentID ''agent_enrolled'' []
             (Done (Reply 201 [] (JObj [(''root'', JStr root), (''status'', JStr ''enrolled'')]))))"

definition admit_p :: "ext \<Rightarrow> tptr \<Rightarrow> AgentGrant \<Rightarrow> string \<Rightarrow> string \<Rightarrow> proc" where
  "admit_p E t g agentID agentKeyThumb =
     follow (the_tenant t) (\<lambda>ten.
     draw (\<lambda>e.
     reads (\<lambda>s. chain_verifier s (clock e)) (\<lambda>v.
       case VerifyAgentGrant E v g (Root ten) agentID agentKeyThumb of
         Inl _ \<Rightarrow> Done (ErrorReply 403 ''invalid_grant'')
       | Inr _ \<Rightarrow> enroll_p E t g agentID (Root ten))))"

definition enrollAgent_p :: "ext \<Rightarrow> Config \<Rightarrow> http \<Rightarrow> proc" where
  "enrollAgent_p E cfg r =
     (case Sig cfg r of
        Inl _ \<Rightarrow> Done (ErrorReply 401 ''invalid_signature'')
      | Inr (agentKeyThumb, agentID) \<Rightarrow>
          (case Option.bind (json_decode (http_body r)) AgentGrant_of_json of
             None \<Rightarrow> Done (ErrorReply 400 ''invalid_request'')
           | Some g \<Rightarrow>
               reads (\<lambda>s. ByRoot (tenants s) (ag_Root g)) (\<lambda>found.
                 case found of
                   None \<Rightarrow> Done (ErrorReply 403 ''unknown_root'')
                 | Some t \<Rightarrow> admit_p E t g agentID agentKeyThumb)))"

text \<open>\<open>finish\<close>: the request and the tenant are read, then the token is minted and logged.\<close>

definition issue_p ::
  "ext \<Rightarrow> Config \<Rightarrow> Request \<Rightarrow> Tenant \<Rightarrow> tptr \<Rightarrow> AgentGrant option \<Rightarrow> ResourceClaims \<Rightarrow> string \<Rightarrow> proc" where
  "issue_p E cfg req ten t grant res agentID =
     (case (IssuerKeys cfg, grant) of
        (k # _, Some g) \<Rightarrow>
          draw (\<lambda>e.
            case Mint E (clock e) (rand_jti e) k (finish_input cfg ten g res agentID (step_up E cfg req)) of
              Inl _ \<Rightarrow> Done (ErrorReply 403 ''outside_grant'')
            | Inr tok \<Rightarrow>
                log_p E t agentID ''token_issued'' (rq_ID req)
                  (Done (Reply 200 [] (JObj [(''auth_token'', JStr tok)]))))
      | _ \<Rightarrow> Crash)"

definition finish_p ::
  "ext \<Rightarrow> Config \<Rightarrow> rptr \<Rightarrow> tptr \<Rightarrow> AgentGrant option \<Rightarrow> ResourceClaims \<Rightarrow> string \<Rightarrow> proc" where
  "finish_p E cfg p t grant res agentID =
     follow (the_request p) (\<lambda>req.
     follow (the_tenant t) (\<lambda>ten.
       issue_p E cfg req ten t grant res agentID))"

text \<open>The second half of \<open>token\<close>: create the request, log it and answer.\<close>

definition accepted_reply :: "Config \<Rightarrow> Request \<Rightarrow> reply" where
  "accepted_reply cfg req =
     Reply 202 [(''Location'', IssuerURL cfg @ ''/pending/'' @ rq_ID req), (''Retry-After'', ''5'')]
       (JObj [(''interaction'', JObj
          [(''approval_url'', JStr (IssuerURL cfg @ ''/approve/'' @ rq_Code req)),
           (''code'', JStr (rq_Code req)),
           (''tier'', JStr (tierName (rq_Tier req)))])])"

definition answer_p ::
  "ext \<Rightarrow> Config \<Rightarrow> tptr \<Rightarrow> AgentGrant \<Rightarrow> ResourceClaims \<Rightarrow> string \<Rightarrow> Request \<Rightarrow> rptr \<Rightarrow> proc" where
  "answer_p E cfg t g res agentID req p =
     (if rq_Tier req = TierRoutine
      then follow (the_tenant t) (\<lambda>judged.
             if AutoApprovable (tlog judged) agentID (elems (rc_Scope res)) (rc_AmountWei res)
             then ApproveRoutine_p (rq_Code req) (\<lambda>_. finish_p E cfg p t (Some g) res agentID)
             else Done (accepted_reply cfg req))
      else Done (accepted_reply cfg req))"

definition create_p ::
  "ext \<Rightarrow> Config \<Rightarrow> tptr \<Rightarrow> AgentGrant \<Rightarrow> ResourceClaims \<Rightarrow> string \<Rightarrow> Request \<Rightarrow> proc" where
  "create_p E cfg t g res agentID req =
     on_pending (\<lambda>_ st. Some (Create st req)) (\<lambda>p.
       log_p E t agentID ''token_request'' (rq_ID req) (answer_p E cfg t g res agentID req p))"

definition request_p ::
  "ext \<Rightarrow> Config \<Rightarrow> tptr \<Rightarrow> AgentGrant \<Rightarrow> ResourceClaims \<Rightarrow> string \<Rightarrow> proc" where
  "request_p E cfg t g res agentID =
     follow (the_tenant t) (\<lambda>ten.
     draw (\<lambda>e.
       create_p E cfg t g res agentID (new_request e agentID res g (tierFor (psa_Scope (tPSA ten)) res))))"

definition ask_p :: "ext \<Rightarrow> Config \<Rightarrow> http \<Rightarrow> tptr \<Rightarrow> AgentGrant \<Rightarrow> string \<Rightarrow> proc" where
  "ask_p E cfg r t g agentID =
     (case Option.bind (json_decode (http_body r)) token_body_of_json of
        None \<Rightarrow> Done (ErrorReply 400 ''invalid_request'')
      | Some (resource_token, mission) \<Rightarrow>
          (case parseResourceToken resource_token of
             None \<Rightarrow> Done (ErrorReply 400 ''invalid_request'')
           | Some res \<Rightarrow>
               follow (the_tenant t) (\<lambda>judged.
                 case Consistent (tlog judged) agentID (ag_MissionScopeS256 g)
                        (elems (rc_Scope res)) (rc_AmountWei res) of
                   Inl _ \<Rightarrow> Done (ErrorReply 403 ''mission_inconsistent'')
                 | Inr _ \<Rightarrow> request_p E cfg t g res agentID)))"

definition token_p :: "ext \<Rightarrow> Config \<Rightarrow> http \<Rightarrow> proc" where
  "token_p E cfg r =
     (case Sig cfg r of
        Inl _ \<Rightarrow> Done (ErrorReply 401 ''invalid_signature'')
      | Inr (agentKeyThumb, agentID) \<Rightarrow>
          reads (\<lambda>s. ByAgent (tenants s) agentID) (\<lambda>found.
            case found of
              None \<Rightarrow> Done (ErrorReply 403 ''no_agent_grant'')
            | Some t \<Rightarrow>
                follow (\<lambda>s. Grant (tenants s) t agentID) (\<lambda>grant.
                  case grant of
                    None \<Rightarrow> Done (ErrorReply 403 ''no_agent_grant'')
                  | Some g \<Rightarrow>
                      if ag_AgentThumbprint g \<noteq> agentKeyThumb then Done (ErrorReply 403 ''no_agent_grant'')
                      else ask_p E cfg r t g agentID)))"

definition approved_p :: "ext \<Rightarrow> Config \<Rightarrow> rptr \<Rightarrow> ResourceClaims \<Rightarrow> string \<Rightarrow> proc" where
  "approved_p E cfg p res agentID =
     follow (\<lambda>s. ByAgent (tenants s) agentID) (\<lambda>t.
     follow (\<lambda>s. Grant (tenants s) t agentID) (\<lambda>g.
       finish_p E cfg p t g res agentID))"

definition state_p :: "ext \<Rightarrow> Config \<Rightarrow> string \<Rightarrow> rptr \<Rightarrow> Request \<Rightarrow> proc" where
  "state_p E cfg agentID p req =
     (if rq_AgentID req \<noteq> agentID then Done (ErrorReply 404 ''unknown_request'')
      else (case rq_State req of
              StatePending \<Rightarrow> Done (Reply 202 [(''Retry-After'', ''5'')] (JObj [(''status'', JStr ''pending'')]))
            | StateApproved \<Rightarrow> approved_p E cfg p (resourceOf req) agentID
            | StateDenied \<Rightarrow> Done (ErrorReply 403 ''denied'')
            | StateExpired \<Rightarrow> Done (ErrorReply 410 ''expired'')))"

definition poll_p :: "ext \<Rightarrow> Config \<Rightarrow> http \<Rightarrow> proc" where
  "poll_p E cfg r =
     (case Sig cfg r of
        Inl _ \<Rightarrow> Done (ErrorReply 401 ''invalid_signature'')
      | Inr (_, agentID) \<Rightarrow>
          on_pending (\<lambda>e st. Poll st (clock e) (path_value r)) (\<lambda>res.
            case res of
              Inl _ \<Rightarrow> Done (ErrorReply 404 ''unknown_request'')
            | Inr p \<Rightarrow> follow (the_request p) (state_p E cfg agentID p)))"

text \<open>The page of an elevated request shows what to sign; a routine one is approved by opening it.\<close>

definition challenge_p :: "ext \<Rightarrow> Config \<Rightarrow> string \<Rightarrow> rptr \<Rightarrow> Request \<Rightarrow> proc" where
  "challenge_p E cfg code p req =
     (case ApprovalDigest E req (ChainID cfg) (RegistryAddr cfg) of
        None \<Rightarrow> Done (ErrorReply 500 ''digest_error'')
      | Some digest \<Rightarrow>
          follow (the_request p) (\<lambda>shown.
            Done (Reply 200 [] (JObj
              [(''digest'', JStr (hexStr digest)),
               (''message'', JStr ''this action exceeds the PSA step-up threshold; a root signature is required''),
               (''request'', Request_json E shown),
               (''sign_url'', JStr (IssuerURL cfg @ ''/approve/'' @ code @ ''/signature'')),
               (''tier'', JStr ''elevated'')]))))"

definition page_p :: "ext \<Rightarrow> Config \<Rightarrow> string \<Rightarrow> rptr \<Rightarrow> Request \<Rightarrow> proc" where
  "page_p E cfg code p req =
     (if rq_Tier req = TierElevated then challenge_p E cfg code p req
      else ApproveRoutine_p code (\<lambda>res.
             case res of
               Inl _ \<Rightarrow> Done (ErrorReply 409 ''cannot_approve'')
             | Inr _ \<Rightarrow> Done (Reply 200 [] (JObj
                 [(''code'', JStr code), (''status'', JStr ''approved''),
                  (''tier'', JStr ''routine'')]))))"

definition approvePage_p :: "ext \<Rightarrow> Config \<Rightarrow> http \<Rightarrow> proc" where
  "approvePage_p E cfg r =
     (let code = path_value r in
      reads (\<lambda>s. ByCode (pending s) code) (\<lambda>res.
        case res of
          Inl _ \<Rightarrow> Done (ErrorReply 404 ''unknown_code'')
        | Inr None \<Rightarrow> Crash
        | Inr (Some p) \<Rightarrow> follow (the_request p) (page_p E cfg code p)))"

text \<open>The root is looked up from the request the code led to; \<open>ApproveElevated\<close> then follows the
  code again.\<close>

definition confirm_p :: "ext \<Rightarrow> Config \<Rightarrow> string \<Rightarrow> string \<Rightarrow> Request \<Rightarrow> proc" where
  "confirm_p E cfg code signature req =
     reads (\<lambda>s. ByAgent (tenants s) (rq_AgentID req)) (\<lambda>found.
       case found of
         None \<Rightarrow> Done (ErrorReply 404 ''unknown_tenant'')
       | Some t \<Rightarrow>
           follow (the_tenant t) (\<lambda>ten.
             ApproveElevated_p E code (Root ten) (ChainID cfg) (RegistryAddr cfg) (hexBytes signature)
               (\<lambda>res.
                  case res of
                    Inl _ \<Rightarrow> Done (ErrorReply 403 ''step_up_failed'')
                  | Inr _ \<Rightarrow> Done (Reply 200 [] (JObj [(''status'', JStr ''approved'')])))))"

definition approveElevated_p :: "ext \<Rightarrow> Config \<Rightarrow> http \<Rightarrow> proc" where
  "approveElevated_p E cfg r =
     (case Option.bind (json_decode (http_body r)) signature_of_json of
        None \<Rightarrow> Done (ErrorReply 400 ''invalid_request'')
      | Some signature \<Rightarrow>
          (let code = path_value r in
           reads (\<lambda>s. ByCode (pending s) code) (\<lambda>res.
             case res of
               Inl _ \<Rightarrow> Done (ErrorReply 404 ''unknown_code'')
             | Inr None \<Rightarrow> Crash
             | Inr (Some p) \<Rightarrow> follow (the_request p) (confirm_p E cfg code signature))))"

definition servePSA_p :: "http \<Rightarrow> proc" where
  "servePSA_p r =
     reads (\<lambda>s. ByRoot (tenants s) (path_value r)) (\<lambda>found.
       case found of
         None \<Rightarrow> Done (ErrorReply 404 ''unknown_root'')
       | Some t \<Rightarrow> follow (the_tenant t) (\<lambda>ten. Done (Reply 200 [] (PSA_json (tPSA ten)))))"

definition serveGrant_p :: "http \<Rightarrow> proc" where
  "serveGrant_p r =
     reads (\<lambda>s. GrantByS256 (tenants s) (path_value r)) (\<lambda>found.
       case found of
         None \<Rightarrow> Done (ErrorReply 404 ''unknown_grant'')
       | Some g \<Rightarrow> Done (Reply 200 [] (AgentGrant_json g)))"

definition export_p :: "Config \<Rightarrow> http \<Rightarrow> proc" where
  "export_p cfg r =
     (case RootAuth cfg r of
        Inl _ \<Rightarrow> Done (ErrorReply 401 ''root_auth_failed'')
      | Inr root \<Rightarrow>
          reads (\<lambda>s. ByRoot (tenants s) root) (\<lambda>found.
            case found of
              None \<Rightarrow> Done (ErrorReply 404 ''unknown_root'')
            | Some t \<Rightarrow>
                follow (the_tenant t) (\<lambda>ten.
                follow (the_tenant t) (\<lambda>ten'.
                  Done (ExportReply (tPSA ten) (Export (tlog ten')))))))"

section \<open>Routing\<close>

definition for_method_p :: "bool \<Rightarrow> proc \<Rightarrow> proc" where
  "for_method_p ok p = (if ok then p else Done (MuxReply 405))"

definition Routes_p :: "ext \<Rightarrow> Config \<Rightarrow> string \<Rightarrow> string list \<Rightarrow> http \<Rightarrow> proc" where
  "Routes_p E cfg meth path r =
     (let get = for_method_p (meth = ''GET'' \<or> meth = ''HEAD''); post = for_method_p (meth = ''POST'') in
      case path of
        [a] \<Rightarrow>
          if a = ''jwks.json'' then get (Done (jwks cfg))
          else if a = ''token'' then post (token_p E cfg r)
          else if a = ''psa'' then post (onboard_p E cfg r)
          else if a = ''agents'' then post (enrollAgent_p E cfg r)
          else if a = ''export'' then get (export_p cfg r)
          else Done (MuxReply 404)
      | [a, b] \<Rightarrow>
          let rb = r\<lparr>path_value := b\<rparr> in
          if a = ''.well-known'' \<and> b = ''aauth-issuer.json'' then get (Done (metadata cfg))
          else if a = ''pending'' then get (poll_p E cfg rb)
          else if a = ''approve'' then get (approvePage_p E cfg rb)
          else if a = ''psa'' then get (servePSA_p rb)
          else if a = ''grants'' then get (serveGrant_p rb)
          else Done (MuxReply 404)
      | [a, b, c] \<Rightarrow>
          if a = ''approve'' \<and> c = ''signature''
          then post (approveElevated_p E cfg (r\<lparr>path_value := b\<rparr>))
          else Done (MuxReply 404)
      | _ \<Rightarrow> Done (MuxReply 404))"

definition devRevoke_p :: "http \<Rightarrow> proc" where
  "devRevoke_p r =
     (let root = query_root r; nonce = parseUint (query_nonce r) in
      if root = [] then Done (ErrorReply 400 ''missing root'')
      else Act (\<lambda>(e, s). (s\<lparr>registry := Revoke (registry s) root nonce\<rparr>,
             Done (Reply 200 [] (JObj [(''status'', JStr ''revoked'')])))))"

definition psd_routes_p :: "build \<Rightarrow> ext \<Rightarrow> Config \<Rightarrow> string \<Rightarrow> string list \<Rightarrow> http \<Rightarrow> proc" where
  "psd_routes_p b E cfg meth path r =
     (if b = Dev \<and> path = [''dev'', ''revoke''] then for_method_p (meth = ''POST'') (devRevoke_p r)
      else Routes_p E cfg meth path r)"

section \<open>A handler alone\<close>

text \<open>Without interruption, and with one reading of the clock, the actions make up the handler.\<close>

lemma ps_updates [simp]:
  "s\<lparr>pending := st, tenants := ts\<rparr> = s\<lparr>tenants := ts, pending := st\<rparr>"
  by (cases s) simp

lemmas handler_run = the_tenant_def the_request_def log_p_def transition_p_def

lemma run_VerifyAndOnboard:
  "run (VerifyAndOnboard_p E psa issuer thumbs k) e s =
     (case VerifyAndOnboard E (tenants s) (chain_verifier s (clock e)) psa issuer thumbs of
        None \<Rightarrow> None | Some (ts, res) \<Rightarrow> run (k res) e (s\<lparr>tenants := ts\<rparr>))"
  by (simp add: VerifyAndOnboard_p_def VerifyAndOnboard_def Let_def split: option.split sum.split prod.split)

text \<open>What a code leads to: an error, the nil pointer, or a request.\<close>

lemma code_cases:
  obtains (none) x where "ByCode st code = Inl x"
  | (nil) p where "ByCode st code = Inr p" "deref st p = None" "\<And>q. p = Some q \<Longrightarrow> rheap st q = None"
  | (some) q req where "ByCode st code = Inr (Some q)" "rheap st q = Some req" "deref st (Some q) = Some (q, req)"
proof (cases "ByCode st code")
  case (Inr p)
  then show thesis
    using nil some by (cases p; cases "rheap st (the p)") (auto simp: deref_def split: option.splits)
qed (rule none)

lemma run_ApproveRoutine:
  "run (ApproveRoutine_p code k) e s =
     (case ApproveRoutine (pending s) (clock e) code of
        None \<Rightarrow> None | Some (st, res) \<Rightarrow> run (k res) e (s\<lparr>pending := st\<rparr>))"
proof (cases rule: code_cases [of "pending s" code])
  case (nil p)
  then show ?thesis by (cases p) (simp_all add: ApproveRoutine_p_def ApproveRoutine_def ByCode_def handler_run)
next
  case (some q req)
  then show ?thesis
    by (simp add: ApproveRoutine_p_def ApproveRoutine_def ByCode_def handler_run split: option.split sum.split)
qed (simp add: ApproveRoutine_p_def ApproveRoutine_def ByCode_def)

lemma run_ApproveElevated:
  "run (ApproveElevated_p E code root chainID addr sig k) e s =
     (case ApproveElevated E (pending s) (clock e) code root chainID addr sig of
        None \<Rightarrow> None | Some (st, res) \<Rightarrow> run (k res) e (s\<lparr>pending := st\<rparr>))"
proof (cases rule: code_cases [of "pending s" code])
  case (nil p)
  then show ?thesis by (cases p) (simp_all add: ApproveElevated_p_def ApproveElevated_def ByCode_def handler_run)
next
  case (some q req)
  then show ?thesis
    by (simp add: ApproveElevated_p_def ApproveElevated_def ByCode_def handler_run split: option.split sum.split)
qed (simp add: ApproveElevated_p_def ApproveElevated_def ByCode_def)

lemma run_finish:
  "rheap (pending s) p = Some req \<Longrightarrow> run (finish_p E cfg p t g res a) e s = finish E cfg e s req t g res a"
  by (simp add: finish_p_def issue_p_def finish_def handler_run Let_def split: list.split option.split sum.split)

lemma run_onboard: "run (onboard_p E cfg r) e s = onboard E cfg e s r"
  by (simp add: onboard_p_def onboard_def run_VerifyAndOnboard handler_run split: option.split sum.split prod.split)

lemma run_enrollAgent: "run (enrollAgent_p E cfg r) e s = enrollAgent E cfg e s r"
  by (simp add: enrollAgent_p_def admit_p_def enroll_p_def enrollAgent_def handler_run split: option.split sum.split prod.split)

lemma LogAppend_live: "LogAppend E ts t a x = Some ts' \<Longrightarrow> theap ts' t \<noteq> None"
  by (auto simp: LogAppend_def split: option.splits)

lemma run_token: "run (token_p E cfg r) e s = token E cfg e s r"
  by (simp add: token_p_def ask_p_def request_p_def create_p_def answer_p_def accepted_reply_def token_def new_request_def handler_run Let_def AutoApprovable_def Grant_def
      split: option.split sum.split prod.split) (auto dest: LogAppend_live)

lemma run_poll: "run (poll_p E cfg r) e s = poll E cfg e s r"
  by (simp add: poll_p_def state_p_def approved_p_def poll_def handler_run Let_def run_finish
      split: option.split sum.split prod.split State.split)

lemma run_approvePage: "run (approvePage_p E cfg r) e s = approvePage E cfg e s r"
proof (cases rule: code_cases [of "pending s" "path_value r"])
  case (nil p)
  then show ?thesis by (cases p) (simp_all add: approvePage_p_def approvePage_def Let_def handler_run)
next
  case (some q req)
  then show ?thesis
    by (simp add: approvePage_p_def page_p_def challenge_p_def approvePage_def Let_def handler_run run_ApproveRoutine
        split: option.split sum.split prod.split)
qed (simp add: approvePage_p_def approvePage_def Let_def)

lemma run_approveElevated: "run (approveElevated_p E cfg r) e s = approveElevated E cfg e s r"
proof (cases rule: code_cases [of "pending s" "path_value r"])
  case (nil p)
  then show ?thesis
    by (cases p) (simp_all add: approveElevated_p_def approveElevated_def Let_def handler_run split: option.split)
next
  case (some q req)
  then show ?thesis
    by (simp add: approveElevated_p_def confirm_p_def approveElevated_def Let_def handler_run run_ApproveElevated
        split: option.split sum.split prod.split)
qed (simp add: approveElevated_p_def approveElevated_def Let_def split: option.split)

lemma run_reading:
  "run (servePSA_p r) e s = reading s (servePSA s r)" "run (export_p cfg r) e s = reading s (export cfg s r)"
  "run (serveGrant_p r) e s = Some (s, serveGrant s r)"
  by (simp_all add: servePSA_p_def servePSA_def export_p_def export_def serveGrant_p_def serveGrant_def
      handler_run reading_def split: option.split sum.split)

lemma run_for_method: "run (for_method_p ok p) e s = for_method ok s (run p e s)"
  by (simp add: for_method_p_def for_method_def)

lemmas run_handlers = run_onboard run_enrollAgent run_token run_poll run_approvePage run_approveElevated
  run_reading run_for_method run.simps(1)

lemma run_Routes: "run (Routes_p E cfg meth path r) e s = Routes E cfg e s meth path r"
  unfolding Routes_p_def Routes_def Let_def
  by (simp only: run_handlers run_if split: list.split) simp

lemma run_psd_routes: "run (psd_routes_p b E cfg meth path r) e s = psd_routes b E cfg e s meth path r"
  by (cases b) (simp_all add: psd_routes_p_def psd_routes_def installDevRoutes_dev_def installDevRoutes_prod_def
      run_for_method run_Routes devRevoke_p_def devRevoke_def run_Act Let_def)

end
