(* ===== verification/Concurrent.thy ===== *)
theory Concurrent
  imports Handlers Server_Steps
begin

text \<open>
  The server with any number of requests in flight. The goroutines of the HTTP server take their
  actions in any order; whatever a handler has read may be out of date when it acts on it. What it
  may rely on is what no action takes back: pointers stay registered, agents stay bound, requests
  keep their content and their decision.
\<close>

section \<open>What stays true\<close>

text \<open>A signature, once stored, may be replaced by another but not taken away.\<close>

definition signed :: "Store \<Rightarrow> rptr \<Rightarrow> unit option" where
  "signed st p =
     (case rheap st p of
        None \<Rightarrow> None | Some q \<Rightarrow> if rq_StepUpSig q = None then None else Some ())"

lemma signed_kept:
  assumes "consent_step E K st st'" and "consent_ok E K st" and "signed st p = Some u"
  shows "signed st' p = Some u"
proof -
  have new: "p \<noteq> rnext st"
    using assms(2,3) consent_okD(1) [OF assms(2), of p] by (auto simp: signed_def split: option.splits)
  have decided: "signed st'' p = Some u" if "transition st now x to = Some (st'', res)" for now x to st'' res
    using that assms(3) by (auto simp: transition_def signed_def split: option.splits if_splits)
  from assms(1) show ?thesis
    by cases (use new assms(3) decided in \<open>auto simp: signed_def Create_def Poll_def split: option.splits if_splits\<close>)
qed

interpretation signatures: permanent_facts "consent_step E K" "consent_ok E K" signed for E K
  by unfold_locales (auto intro: signed_kept)

text \<open>
  Identifiers and approval codes are random draws. A draw that repeats one in use would take the
  place of the older request; the runs considered are those without such a collision.
\<close>

definition fresh :: "ps \<Rightarrow> ps \<Rightarrow> bool" where
  "fresh s s' =
     (map_le (byID (pending s)) (byID (pending s')) \<and> map_le (byCode (pending s)) (byCode (pending s')))"

definition steady :: "ps \<Rightarrow> ps \<Rightarrow> bool" where
  "steady s s' =
     (map_le (byRoot (tenants s)) (byRoot (tenants s')) \<and> map_le (byAgent (tenants s)) (byAgent (tenants s'))
      \<and> map_le (content (pending s)) (content (pending s'))
      \<and> map_le (decision (pending s)) (decision (pending s'))
      \<and> map_le (signed (pending s)) (signed (pending s')) \<and> fresh s s')"

lemma map_leD: "map_le m m' \<Longrightarrow> m k = Some v \<Longrightarrow> m' k = Some v"
  by (force simp: map_le_def)

lemma map_leI: "(\<And>k v. m k = Some v \<Longrightarrow> m' k = Some v) \<Longrightarrow> map_le m m'"
  by (auto simp: map_le_def dom_def)

lemma steadyD:
  assumes "steady s s'"
  shows "byRoot (tenants s) root = Some t \<Longrightarrow> byRoot (tenants s') root = Some t"
    "byAgent (tenants s) a = Some root \<Longrightarrow> byAgent (tenants s') a = Some root"
    "content (pending s) p = Some q \<Longrightarrow> content (pending s') p = Some q"
    "decision (pending s) p = Some st \<Longrightarrow> decision (pending s') p = Some st"
    "signed (pending s) p = Some u \<Longrightarrow> signed (pending s') p = Some u"
    "byID (pending s) i = Some p \<Longrightarrow> byID (pending s') i = Some p"
    "byCode (pending s) c = Some i \<Longrightarrow> byCode (pending s') c = Some i"
  using assms by (auto simp: steady_def fresh_def dest: map_leD)

lemma steady_refl [simp]: "steady s s"
  by (simp add: steady_def fresh_def)

lemma steady_trans: "steady s s' \<Longrightarrow> steady s' s'' \<Longrightarrow> steady s s''"
  unfolding steady_def fresh_def by (blast intro: map_le_trans)

lemma steady_registry [simp]: "steady s (s\<lparr>registry := m\<rparr>)"
  by (simp add: steady_def fresh_def)

lemma ps_ok_registry [simp]: "ps_ok E cfg (s\<lparr>registry := m\<rparr>) = ps_ok E cfg s"
  by (simp add: ps_ok_def)

lemma steady_tenants:
  assumes "map_le (byRoot (tenants s)) (byRoot ts)" and "map_le (byAgent (tenants s)) (byAgent ts)"
  shows "steady s (s\<lparr>tenants := ts\<rparr>)"
  using assms by (simp add: steady_def fresh_def)

lemma steady_pending:
  assumes "ps_ok E cfg s" and "(consent_step E (bound cfg (tenants s)))\<^sup>*\<^sup>* (pending s) st"
    and "fresh s (s\<lparr>pending := st\<rparr>)"
  shows "steady s (s\<lparr>pending := st\<rparr>)"
  using decisions.known_reaches [OF assms(2)] contents.known_reaches [OF assms(2)]
    signatures.known_reaches [OF assms(2)] ps_okD(3) [OF assms(1)] assms(3)
  by (auto simp: steady_def intro!: map_leI)

text \<open>The clients of a state that has moved on: a pointer found for a root leads to that root's
  tenant, a pointer to a request to the request it was.\<close>

lemma tenant_stays:
  assumes "ps_ok E cfg s'" and "steady s s'" and "byRoot (tenants s) root = Some t"
  obtains ten where "the_tenant t s' = Some ten" "Root ten = root" "registered (tenants s') root = Some ten"
    "byRoot (tenants s') root = Some t" "psa_ok E cfg (tPSA ten)" "psa_Root (tPSA ten) = root"
proof -
  have t: "byRoot (tenants s') root = Some t" using steadyD(1) [OF assms(2,3)] .
  obtain ten where ten: "theap (tenants s') t = Some ten" "Root ten = root" "registered (tenants s') root = Some ten"
    using byRoot_live [OF assms(1) t] by blast
  have "psa_Root (tPSA ten) = root"
    using tenants_okD(2) [OF ps_okD(1) [OF assms(1)] ten(3)] ten(2) by (simp add: tenant_ok_def)
  then show thesis using that t ten registered_docs [OF assms(1) ten(3)] by (simp add: the_tenant_def)
qed

lemma request_stays:
  assumes "steady s s'" and "content (pending s) p = Some q"
  obtains q' where "the_request p s' = Some q'" "frozen q' = q"
  using steadyD(3) [OF assms] that by (auto simp: content_def the_request_def frozen_def)

lemma ApprovalDigest_frozen: "ApprovalDigest E (frozen q) = ApprovalDigest E q"
  by (simp add: frozen_def ApprovalDigest_frame)

lemma content_frozen: "rheap st p = Some q \<Longrightarrow> content st p = Some (frozen q)"
  by (simp add: content_def frozen_def)

section \<open>Safe processes\<close>

text \<open>
  A process is safe in a state when, however the state has moved on (steadily and within the
  invariant) by the time it acts, its action, unless it draws a code in use, keeps the invariant and is steady itself, it does not
  crash, and the reply it ends with is as \<open>Q\<close> says.
\<close>

inductive safe :: "ext \<Rightarrow> Config \<Rightarrow> (ps \<Rightarrow> reply \<Rightarrow> bool) \<Rightarrow> ps \<Rightarrow> proc \<Rightarrow> bool" for E cfg Q where
  ended: "Q s rep \<Longrightarrow> safe E cfg Q s (Done rep)"
| acts: "(\<And>e s'. steady s s' \<Longrightarrow> ps_ok E cfg s' \<Longrightarrow> fresh s' (fst (f (e, s'))) \<Longrightarrow>
      ps_ok E cfg (fst (f (e, s'))) \<and> steady s' (fst (f (e, s'))) \<and> safe E cfg Q (fst (f (e, s'))) (snd (f (e, s'))))
    \<Longrightarrow> safe E cfg Q s (Act f)"

inductive_simps safe_simps: "safe E cfg Q s (Done rep)" "safe E cfg Q s Crash" "safe E cfg Q s (Act f)"

text \<open>Later states are no worse, as long as the property of replies is.\<close>

lemma safe_later:
  assumes "safe E cfg Q s p" and "steady s s'" and "\<And>rep. Q s rep \<Longrightarrow> Q s' rep"
  shows "safe E cfg Q s' p"
  using assms(1)
proof cases
  case (acts f)
  show ?thesis
    unfolding acts(1) by (rule safe.acts) (rule acts(2) [OF steady_trans [OF assms(2)]])
qed (use assms(3) in \<open>auto intro: safe.ended\<close>)

lemma safe_draw:
  "(\<And>e s'. steady s s' \<Longrightarrow> ps_ok E cfg s' \<Longrightarrow> safe E cfg Q s' (k e)) \<Longrightarrow> safe E cfg Q s (draw k)"
  by (simp add: draw_def safe_simps)

lemma safe_reads:
  "(\<And>s'. steady s s' \<Longrightarrow> ps_ok E cfg s' \<Longrightarrow> safe E cfg Q s' (k (f s'))) \<Longrightarrow> safe E cfg Q s (reads f k)"
  by (simp add: reads_def safe_simps)

lemma safe_follow:
  assumes "\<And>s'. steady s s' \<Longrightarrow> ps_ok E cfg s' \<Longrightarrow> \<exists>x. f s' = Some x \<and> safe E cfg Q s' (k x)"
  shows "safe E cfg Q s (follow f k)"
  unfolding follow_def by (rule safe_reads) (use assms in fastforce)

lemma safe_on_tenants:
  assumes "\<And>s'. steady s s' \<Longrightarrow> ps_ok E cfg s' \<Longrightarrow> \<exists>ts x. f (tenants s') = Some (ts, x)
     \<and> ps_ok E cfg (s'\<lparr>tenants := ts\<rparr>) \<and> steady s' (s'\<lparr>tenants := ts\<rparr>) \<and> safe E cfg Q (s'\<lparr>tenants := ts\<rparr>) (k x)"
  shows "safe E cfg Q s (on_tenants f k)"
  unfolding on_tenants_def safe_simps
proof (intro allI impI, goal_cases)
  case (1 e s')
  from assms [OF 1(1,2)] show ?case by auto
qed

lemma safe_on_pending:
  assumes "\<And>e s'. steady s s' \<Longrightarrow> ps_ok E cfg s' \<Longrightarrow> \<exists>st x. f e (pending s') = Some (st, x)
     \<and> (fresh s' (s'\<lparr>pending := st\<rparr>) \<longrightarrow>
          ps_ok E cfg (s'\<lparr>pending := st\<rparr>) \<and> steady s' (s'\<lparr>pending := st\<rparr>)
          \<and> safe E cfg Q (s'\<lparr>pending := st\<rparr>) (k x))"
  shows "safe E cfg Q s (on_pending f k)"
  unfolding on_pending_def safe_simps
proof (intro allI impI, goal_cases)
  case (1 e s')
  from assms [OF 1(1,2), of e] 1(3) show ?case by auto
qed

section \<open>The operations are safe\<close>

lemma safe_log:
  assumes "byRoot (tenants s) root = Some t"
    and "\<And>s'. steady s s' \<Longrightarrow> ps_ok E cfg s' \<Longrightarrow> safe E cfg Q s' k"
  shows "safe E cfg Q s (log_p E t a kind rid k)"
  unfolding log_p_def
proof (rule safe_draw, rule safe_on_tenants)
  fix e s1 s2
  assume later: "steady s s1" "steady s1 s2" and ok: "ps_ok E cfg s2"
  then have t: "byRoot (tenants s2) root = Some t" using steadyD(1) assms(1) by blast
  then obtain ten where ten: "theap (tenants s2) t = Some ten" using byRoot_live [OF ok] by blast
  from log_step [OF ok t ten, of "new_entry kind rid (clock e)" a] obtain ts where ts:
    "LogAppend E (tenants s2) t a (new_entry kind rid (clock e)) = Some ts" "ps_ok E cfg (s2\<lparr>tenants := ts\<rparr>)"
    "byAgent ts = byAgent (tenants s2)" "byRoot ts = byRoot (tenants s2)" by auto
  have moved: "steady s2 (s2\<lparr>tenants := ts\<rparr>)" by (rule steady_tenants) (simp_all add: ts(3,4))
  then have "safe E cfg Q (s2\<lparr>tenants := ts\<rparr>) k"
    using assms(2) later ts(2) steady_trans by meson
  then show "\<exists>ts' x. map_option (\<lambda>ts'. (ts', ())) (LogAppend E (tenants s2) t a (new_entry kind rid (clock e))) = Some (ts', x)
      \<and> ps_ok E cfg (s2\<lparr>tenants := ts'\<rparr>) \<and> steady s2 (s2\<lparr>tenants := ts'\<rparr>) \<and> safe E cfg Q (s2\<lparr>tenants := ts'\<rparr>) k"
    using ts(1,2) moved by auto
qed

text \<open>An action of the consent store that is a step of it.\<close>

lemma safe_consent:
  assumes "\<And>e s'. steady s s' \<Longrightarrow> ps_ok E cfg s' \<Longrightarrow> \<exists>st x. f e (pending s') = Some (st, x)
       \<and> consent_step E (bound cfg (tenants s')) (pending s') st \<and> old_requests (pending s') st \<and> P st x"
    and "\<And>s' x. steady s s' \<Longrightarrow> ps_ok E cfg s' \<Longrightarrow> P (pending s') x \<Longrightarrow> safe E cfg Q s' (k x)"
  shows "safe E cfg Q s (on_pending f k)"
proof (rule safe_on_pending)
  fix e s'
  assume s': "steady s s'" "ps_ok E cfg s'"
  from assms(1) [OF s', of e] obtain st x where st: "f e (pending s') = Some (st, x)"
    "consent_step E (bound cfg (tenants s')) (pending s') st" "old_requests (pending s') st" "P st x" by blast
  note steps = r_into_rtranclp [where r = "consent_step E (bound cfg (tenants s'))", OF st(2)]
  have ok: "ps_ok E cfg (s'\<lparr>pending := st\<rparr>)" using ps_ok_pending [OF s'(2) steps st(3)] .
  have "steady s' (s'\<lparr>pending := st\<rparr>) \<and> safe E cfg Q (s'\<lparr>pending := st\<rparr>) (k x)"
    if "fresh s' (s'\<lparr>pending := st\<rparr>)"
  proof
    show moved: "steady s' (s'\<lparr>pending := st\<rparr>)" using steady_pending [OF s'(2) steps that] .
    show "safe E cfg Q (s'\<lparr>pending := st\<rparr>) (k x)"
      using assms(2) [OF steady_trans [OF s'(1) moved] ok] st(4) by simp
  qed
  then show "\<exists>st x. f e (pending s') = Some (st, x) \<and> (fresh s' (s'\<lparr>pending := st\<rparr>) \<longrightarrow>
      ps_ok E cfg (s'\<lparr>pending := st\<rparr>) \<and> steady s' (s'\<lparr>pending := st\<rparr>) \<and> safe E cfg Q (s'\<lparr>pending := st\<rparr>) (k x))"
    using st(1) ok by blast
qed

text \<open>Deciding a request: routine, or with a signature stored.\<close>

lemma safe_transition:
  assumes "content (pending s) p = Some q" and "rq_Tier q = TierRoutine \<or> signed (pending s) p \<noteq> None"
    and "\<And>s' res. steady s s' \<Longrightarrow> ps_ok E cfg s' \<Longrightarrow> safe E cfg Q s' (k res)"
  shows "safe E cfg Q s (transition_p p StateApproved k)"
  unfolding transition_p_def
proof (rule safe_consent [where P = "\<lambda>_ _. True"])
  fix e s'
  assume s': "steady s s'" "ps_ok E cfg s'"
  obtain r where r: "rheap (pending s') p = Some r" "frozen r = q"
    using request_stays [OF s'(1) assms(1)] by (auto simp: the_request_def)
  then have kind: "rq_Tier r = TierRoutine \<or> rq_Tier r = TierElevated \<and> rq_StepUpSig r \<noteq> None"
    using assms(2) steadyD(5) [OF s'(1), of p] by (cases "rq_Tier r") (auto simp: frozen_def signed_def split: option.splits if_splits)
  obtain st res where st: "transition (pending s') (clock e) p StateApproved = Some (st, res)"
    using transition_total [of "pending s'" p] r(1) by fastforce
  then have "consent_step E (bound cfg (tenants s')) (pending s') st"
    using kind r(1) by (auto intro: consent_step.click consent_step.confirm)
  then show "\<exists>st x. transition (pending s') (clock e) p StateApproved = Some (st, x)
      \<and> consent_step E (bound cfg (tenants s')) (pending s') st \<and> old_requests (pending s') st \<and> True"
    using st old_requests_transition [OF st] by blast
qed (use assms(3) in blast)

text \<open>Following a code to its request.\<close>

definition leads :: "Store \<Rightarrow> string \<Rightarrow> rptr \<Rightarrow> bool" where
  "leads st code p = (\<exists>rid. byCode st code = Some rid \<and> byID st rid = Some p)"

lemma leads_stays: "leads (pending s) code p \<Longrightarrow> steady s s' \<Longrightarrow> leads (pending s') code p"
  unfolding leads_def using steadyD(6,7) by blast

lemma leads_byCode: "byCodeLocked st code = Inr (Some p) \<longleftrightarrow> leads st code p"
  by (auto simp: byCodeLocked_def leads_def split: option.splits)

lemma safe_code:
  assumes "\<And>s' x. steady s s' \<Longrightarrow> ps_ok E cfg s' \<Longrightarrow> safe E cfg Q s' (k1 x)"
    and "\<And>s' p r. steady s s' \<Longrightarrow> ps_ok E cfg s' \<Longrightarrow> the_request p s' = Some r \<Longrightarrow>
        leads (pending s') code p \<Longrightarrow> safe E cfg Q s' (k2 p r)"
  shows "safe E cfg Q s (reads (\<lambda>s. byCodeLocked (pending s) code) (\<lambda>res.
      case res of Inl x \<Rightarrow> k1 x | Inr None \<Rightarrow> Crash | Inr (Some p) \<Rightarrow> follow (the_request p) (k2 p)))"
proof (rule safe_reads)
  fix s1
  assume s1: "steady s s1" "ps_ok E cfg s1"
  have known: "safe E cfg Q s1 (follow (the_request p) (k2 p))" 
    if p: "rheap (pending s1) p = Some r" and led: "leads (pending s1) code p" for p r
  proof (rule safe_follow)
    fix s2
    assume s2: "steady s1 s2" "ps_ok E cfg s2"
    obtain r2 where "the_request p s2 = Some r2" using request_stays [OF s2(1) content_frozen [OF p]] .
    then show "\<exists>x. the_request p s2 = Some x \<and> safe E cfg Q s2 (k2 p x)"
      using assms(2) [OF steady_trans [OF s1(1) s2(1)] s2(2)] leads_stays [OF led s2(1)] by blast
  qed
  show "safe E cfg Q s1 (case byCodeLocked (pending s1) code of
      Inl x \<Rightarrow> k1 x | Inr None \<Rightarrow> Crash | Inr (Some p) \<Rightarrow> follow (the_request p) (k2 p))"
    by (rule coded_cases [OF ps_okD(3) [OF s1(2)], of code]) (use assms(1) [OF s1] known in \<open>auto simp: leads_byCode [symmetric]\<close>)
qed

lemma safe_ApproveRoutine:
  assumes "\<And>s' res. steady s s' \<Longrightarrow> ps_ok E cfg s' \<Longrightarrow> safe E cfg Q s' (k res)"
  shows "safe E cfg Q s (ApproveRoutine_p code k)"
  unfolding ApproveRoutine_p_def
proof (rule safe_code)
  fix s' p r
  assume s': "steady s s'" "ps_ok E cfg s'" and r: "the_request p s' = Some r"
  have "safe E cfg Q s' (transition_p p StateApproved k)" if "rq_Tier r = TierRoutine"
    by (rule safe_transition [where q = "frozen r"])
      (use that r assms steady_trans [OF s'(1)] in \<open>auto simp: content_frozen the_request_def frozen_def\<close>)
  then show "safe E cfg Q s' (if rq_Tier r \<noteq> TierRoutine then k (Inl NeedsRootSignature)
      else transition_p p StateApproved k)"
    using assms [OF s'] by simp
qed (use assms in blast)

text \<open>Storing a signature that was checked against the request as it was: the content it signs is the
  same now, and so is the root of the agent.\<close>

lemma safe_sign:
  assumes "content (pending s) p = Some (frozen r)" and "rq_Tier r = TierElevated"
    and "byAgent (tenants s) (rq_AgentID r) = Some root"
    and "ApprovalDigest E r (ChainID cfg) (RegistryAddr cfg) = Some digest" and "verifyEOASig E root digest sig = Inr ()"
    and "\<And>s' u. steady s s' \<Longrightarrow> ps_ok E cfg s' \<Longrightarrow> signed (pending s') p = Some () \<Longrightarrow> safe E cfg Q s' (k u)"
  shows "safe E cfg Q s (on_pending (\<lambda>_ st. case rheap st p of None \<Rightarrow> None
      | Some r' \<Rightarrow> Some (set_request st p (r'\<lparr>rq_StepUpSig := Some sig\<rparr>), ())) k)"
proof (rule safe_consent [where P = "\<lambda>st _. signed st p = Some ()"])
  fix e s'
  assume s': "steady s s'" "ps_ok E cfg s'"
  obtain r' where r': "rheap (pending s') p = Some r'" "frozen r' = frozen r"
    using request_stays [OF s'(1) assms(1)] by (auto simp: the_request_def)
  then have same: "rq_Tier r' = TierElevated" "rq_AgentID r' = rq_AgentID r" "ApprovalDigest E r' = ApprovalDigest E r"
    using assms(2) ApprovalDigest_frozen [of E r] ApprovalDigest_frozen [of E r']
    by (auto simp: frozen_def dest: arg_cong [where f = rq_Tier] arg_cong [where f = rq_AgentID])
  then have "root_approved E (bound cfg (tenants s')) r' sig"
    using assms(4,5) steadyD(2) [OF s'(1) assms(3)] unfolding root_approved_def bound_def by auto
  from consent_step.sign [OF r'(1) same(1) this] show "\<exists>st x. (case rheap (pending s') p of None \<Rightarrow> None
        | Some r' \<Rightarrow> Some (set_request (pending s') p (r'\<lparr>rq_StepUpSig := Some sig\<rparr>), ())) = Some (st, x)
      \<and> consent_step E (bound cfg (tenants s')) (pending s') st \<and> old_requests (pending s') st
      \<and> signed st p = Some ()"
    using r'(1) by (auto simp: signed_def intro: old_requests_set)
qed (use assms(6) in blast)

lemma safe_ApproveElevated:
  assumes "leads (pending s) code p" and "content (pending s) p = Some q"
    and "byAgent (tenants s) (rq_AgentID q) = Some root"
    and "\<And>s' res. steady s s' \<Longrightarrow> ps_ok E cfg s' \<Longrightarrow> safe E cfg Q s' (k res)"
  shows "safe E cfg Q s (ApproveElevated_p E code root (ChainID cfg) (RegistryAddr cfg) sig k)"
  unfolding ApproveElevated_p_def
proof (rule safe_code)
  fix s' p' r
  assume s': "steady s s'" "ps_ok E cfg s'" and r: "the_request p' s' = Some r" "leads (pending s') code p'"
  have p': "p' = p" using leads_stays [OF assms(1) s'(1)] r(2) by (auto simp: leads_def)
  then have "frozen r = q"
    using request_stays [OF s'(1) assms(2)] r(1) by (metis option.inject)
  then have kept: "content (pending s') p = Some (frozen r)" "byAgent (tenants s') (rq_AgentID r) = Some root"
    using content_frozen r(1) steadyD(2) [OF s'(1) assms(3)] by (auto simp: the_request_def p' frozen_def)
  have "safe E cfg Q s' (on_pending (\<lambda>_ st. case rheap st p' of None \<Rightarrow> None
        | Some r' \<Rightarrow> Some (set_request st p' (r'\<lparr>rq_StepUpSig := Some sig\<rparr>), ()))
        (\<lambda>_. transition_p p' StateApproved k))"
    if checked: "rq_Tier r = TierElevated" "ApprovalDigest E r (ChainID cfg) (RegistryAddr cfg) = Some digest"
      "verifyEOASig E root digest sig = Inr ()" for digest
    unfolding p'
  proof (rule safe_sign [OF kept(1) checked(1) kept(2) checked(2,3)])
    fix s2
    assume s2: "steady s' s2" "ps_ok E cfg s2" "signed (pending s2) p = Some ()"
    show "safe E cfg Q s2 (transition_p p StateApproved k)"
      by (rule safe_transition [OF steadyD(3) [OF s2(1) kept(1)]])
        (use s2(3) assms(4) steady_trans [OF s'(1) steady_trans [OF s2(1)]] in auto)
  qed
  then show "safe E cfg Q s' (if rq_Tier r \<noteq> TierElevated then k (Inl NotElevated)
      else case ApprovalDigest E r (ChainID cfg) (RegistryAddr cfg) of None \<Rightarrow> k (Inl ApprovalDigestErr)
        | Some digest \<Rightarrow> (case verifyEOASig E root digest sig of Inl x \<Rightarrow> k (Inl x)
            | Inr _ \<Rightarrow> on_pending (\<lambda>_ st. case rheap st p' of None \<Rightarrow> None
                | Some r' \<Rightarrow> Some (set_request st p' (r'\<lparr>rq_StepUpSig := Some sig\<rparr>), ()))
                (\<lambda>_. transition_p p' StateApproved k)))"
    using assms(4) [OF s'] by (simp split: option.split sum.split)
qed (use assms(4) in blast)

section \<open>What a token stands for\<close>

text \<open>
  The token was minted for the request from an authorization and a grant of the root. Above the
  threshold it carries a step-up, and a step-up it carries is the root's own signature over the
  approval digest of this very request. None of this depends on a state.
\<close>

definition root_step_up :: "ext \<Rightarrow> Config \<Rightarrow> string \<Rightarrow> Request \<Rightarrow> StepUp \<Rightarrow> bool" where
  "root_step_up E cfg root q u =
     (\<exists>sig digest. ApprovalDigest E q (ChainID cfg) (RegistryAddr cfg) = Some digest
        \<and> verifyEOASig E root digest sig = Inr () \<and> u = \<lparr>su_Digest = hexStr digest, su_Sig = hexStr sig\<rparr>)"

definition minted_from ::
  "ext \<Rightarrow> Config \<Rightarrow> string \<Rightarrow> Request \<Rightarrow> PSA \<Rightarrow> AgentGrant \<Rightarrow> time \<Rightarrow> bytes \<Rightarrow> StepUp option \<Rightarrow> string \<Rightarrow> bool" where
  "minted_from E cfg root q psa g now jti su tok =
     (psa_ok E cfg psa \<and> psa_Root psa = root \<and> grant_ok E root (rq_AgentID q) g \<and> request_faithful q
      \<and> Mint E now jti (hd (IssuerKeys cfg)) (mint_for cfg root psa g (resourceOf q) (rq_AgentID q) su) = Inr tok
      \<and> (0 < bigOrZero (StepUpAboveWei (psa_Scope psa))
           \<and> bigOrZero (StepUpAboveWei (psa_Scope psa)) < bigOrZero (rq_AmountWei q) \<longrightarrow> su \<noteq> None)
      \<and> (\<forall>u. su = Some u \<longrightarrow> root_step_up E cfg root q u))"

definition minted :: "ext \<Rightarrow> Config \<Rightarrow> string \<Rightarrow> Request \<Rightarrow> string \<Rightarrow> bool" where
  "minted E cfg root q tok = (\<exists>psa g now jti su. minted_from E cfg root q psa g now jti su tok)"

definition token_sound :: "ext \<Rightarrow> Config \<Rightarrow> ps \<Rightarrow> rptr \<Rightarrow> Request \<Rightarrow> string \<Rightarrow> bool" where
  "token_sound E cfg s p q tok =
     (content (pending s) p = Some q \<and> decision (pending s) p = Some StateApproved
      \<and> (\<exists>root. byAgent (tenants s) (rq_AgentID q) = Some root \<and> minted E cfg root q tok))"

lemma token_sound_steady: "token_sound E cfg s p q tok \<Longrightarrow> steady s s' \<Longrightarrow> token_sound E cfg s' p q tok"
  unfolding token_sound_def using steadyD(2-4) by blast

lemma frozen_same:
  assumes "frozen q' = q"
  shows "rq_AgentID q' = rq_AgentID q" "rq_AmountWei q' = rq_AmountWei q" "resourceOf q' = resourceOf q"
    "request_faithful q' = request_faithful q" "ApprovalDigest E q' = ApprovalDigest E q" "rq_ID q' = rq_ID q"
  unfolding assms [symmetric]
  by (simp_all add: frozen_def resourceOf_def request_faithful_def ApprovalDigest_frame)

definition plain :: "reply \<Rightarrow> bool" where
  "plain rep = (\<forall>tok. rep \<noteq> token_reply tok)"

lemma plain_simps [simp]:
  "plain (ErrorReply n c)" "plain (MuxReply n)" "plain (ExportReply psa l)"
  "plain (Reply n h (JObj [])) = True"
  "plain (Reply n h (JObj ((k, v) # ms))) =
     (\<not> (n = 200 \<and> h = [] \<and> k = ''auth_token'' \<and> ms = [] \<and> (\<exists>tok. v = JStr tok)))"
  by (auto simp: plain_def token_reply_def)

lemma issue_minted_from:
  assumes "psa_ok E cfg (tPSA ten)" and "psa_Root (tPSA ten) = root" and "Root ten = root"
    and "grant_ok E root (rq_AgentID q) g" and "request_faithful q" and "IssuerKeys cfg = k # ks"
    and "Mint E now jti k (finish_input cfg ten g (resourceOf q) (rq_AgentID q) su) = Inr tok"
    and "\<And>u. su = Some u \<Longrightarrow> root_step_up E cfg root q u"
  shows "minted_from E cfg root q (tPSA ten) g now jti su tok"
proof -
  have "su \<noteq> None"
    if "0 < bigOrZero (StepUpAboveWei (psa_Scope (tPSA ten)))"
      "bigOrZero (StepUpAboveWei (psa_Scope (tPSA ten))) < bigOrZero (rq_AmountWei q)"
    using assms(5,7) that
    by (auto simp: Mint_ok within_payment_def finish_input_def bigOrZero_def request_faithful_def
        split: option.splits if_splits)
  moreover have "Mint E now jti (hd (IssuerKeys cfg))
      (mint_for cfg root (tPSA ten) g (resourceOf q) (rq_AgentID q) su) = Inr tok"
    using assms(6,7) finish_input_tenant [OF assms(3) refl] by simp
  ultimately show ?thesis using assms(1,2,4,5,8) unfolding minted_from_def by blast
qed

lemma safe_issue:
  assumes "IssuerKeys cfg = k # ks" and "byRoot (tenants s) root = Some t"
    and "\<And>now jti tok. Mint E now jti k (finish_input cfg ten g res a (step_up E cfg req)) = Inr tok \<Longrightarrow> P tok"
    and "\<And>s' tok. steady s s' \<Longrightarrow> P tok \<Longrightarrow> Q s' (token_reply tok)"
    and "\<And>s' rep. plain rep \<Longrightarrow> Q s' rep"
  shows "safe E cfg Q s (issue_p E cfg req ten t (Some g) res a)"
proof -
  have "safe E cfg Q s1 (log_p E t a ''token_issued'' (rq_ID req)
      (Done (Reply 200 [] (JObj [(''auth_token'', JStr tok)]))))"
    if "P tok" "steady s s1" for tok s1
    by (rule safe_log [OF steadyD(1) [OF that(2) assms(2)]])
      (use assms(4) [OF steady_trans [OF that(2)] that(1)] in \<open>simp add: safe_simps token_reply_def\<close>)
  then show ?thesis
    unfolding issue_p_def using assms(1,3,5)
    by (auto simp: safe_simps intro!: safe_draw split: sum.split)
qed

lemma safe_finish:
  assumes req: "content (pending s) p = Some q" "decision (pending s) p = Some StateApproved"
    and t: "byRoot (tenants s) root = Some t" "byAgent (tenants s) (rq_AgentID q) = Some root"
    and g: "grant_ok E root (rq_AgentID q) g"
    and tok: "\<And>s' tok. steady s s' \<Longrightarrow> token_sound E cfg s' p q tok \<Longrightarrow> Q s' (token_reply tok)"
    and other: "\<And>s' rep. plain rep \<Longrightarrow> Q s' rep"
  shows "safe E cfg Q s (finish_p E cfg p t (Some g) (resourceOf q) (rq_AgentID q))"
  unfolding finish_p_def
proof (rule safe_follow)
  fix s1
  assume s1: "steady s s1" "ps_ok E cfg s1"
  obtain q1 where q1: "the_request p s1 = Some q1" "frozen q1 = q" using request_stays [OF s1(1) req(1)] .
  note same = frozen_same [OF q1(2)]
  have signed: "root_step_up E cfg root q u" if "step_up E cfg q1 = Some u" for u
    using signed_step_up [OF s1(2), of p q1 root] that q1(1) steadyD(2) [OF s1(1) t(2)] same(1,5)
    by (auto simp: the_request_def root_step_up_def step_up_def split: if_splits)
  have faithful: "request_faithful q"
    using request_shows_mint [OF s1(2), of p q1] q1(1) same(4) by (simp add: the_request_def)
  have "safe E cfg Q s1 (follow (the_tenant t) (\<lambda>ten. issue_p E cfg q1 ten t (Some g) (resourceOf q) (rq_AgentID q)))"
  proof (rule safe_follow)
    fix s2
    assume s2: "steady s1 s2" "ps_ok E cfg s2"
    have later: "steady s s2" using steady_trans [OF s1(1) s2(1)] .
    obtain ten where ten: "the_tenant t s2 = Some ten" "Root ten = root" "byRoot (tenants s2) root = Some t"
      "psa_ok E cfg (tPSA ten)" "psa_Root (tPSA ten) = root"
      using tenant_stays [OF s2(2) later t(1)] .
    obtain k ks where k: "IssuerKeys cfg = k # ks" using issuer_has_key [OF ten(4)] by (cases "IssuerKeys cfg") auto
    have "safe E cfg Q s2 (issue_p E cfg q1 ten t (Some g) (resourceOf q) (rq_AgentID q))"
    proof (rule safe_issue [OF k ten(3), where P = "minted E cfg root q"])
      fix s3 tok'
      assume s3: "steady s2 s3" "minted E cfg root q tok'"
      note moved = steady_trans [OF later s3(1)]
      have "token_sound E cfg s3 p q tok'"
        using s3(2) req t(2) steadyD(2-4) [OF moved] unfolding token_sound_def by blast
      then show "Q s3 (token_reply tok')" using tok [OF moved] by blast
    qed (use issue_minted_from [OF ten(4,5,2) g faithful k _ signed] minted_def other in blast)+
    then show "\<exists>x. the_tenant t s2 = Some x
        \<and> safe E cfg Q s2 (issue_p E cfg q1 x t (Some g) (resourceOf q) (rq_AgentID q))"
      using ten(1) by blast
  qed
  then show "\<exists>x. the_request p s1 = Some x \<and> safe E cfg Q s1
      (follow (the_tenant t) (\<lambda>ten. issue_p E cfg x ten t (Some g) (resourceOf q) (rq_AgentID q)))"
    using q1(1) by blast
qed

section \<open>The handlers are safe\<close>

lemma safe_plain: "(\<And>s' rep. plain rep \<Longrightarrow> Q s' rep) \<Longrightarrow> plain rep \<Longrightarrow> safe E cfg Q s (Done rep)"
  by (simp add: safe_simps)

lemma onboard_step:
  assumes "ps_ok E cfg s" and "onboard_verdict E v psa (IssuerURL cfg) (keyThumbs E cfg) = Inr ()"
    and "PSA_text_ok psa" and "ERC1271 v = None"
  obtains ts where "(case NewTenant (tenants s) psa of (ts1, t) \<Rightarrow> Onboard ts1 t) = Some (ts, Inr ())"
    "ps_ok E cfg (s\<lparr>tenants := ts\<rparr>)" "map_le (byRoot (tenants s)) (byRoot ts)" "byAgent ts = byAgent (tenants s)"
proof -
  note ok = ps_okD [OF assms(1)]
  from onboard_admits [OF ok(5) assms(2)] obtain ts t where ts:
    "VerifyAndOnboard E (tenants s) v psa (IssuerURL cfg) (keyThumbs E cfg) = Some (ts, Inr t)"
    "registered ts = (registered (tenants s))(psa_Root psa \<mapsto> admitted (registered (tenants s) (psa_Root psa)) psa)"
    "byAgent ts = byAgent (tenants s)" by metis
  then have step: "(case NewTenant (tenants s) psa of (ts1, t) \<Rightarrow> Onboard ts1 t) = Some (ts, Inr ())"
    by (auto simp: VerifyAndOnboard_def Let_def split: if_splits sum.splits prod.splits option.splits)
  have "docs_ok E cfg ts"
    using ok(2) accepted_psa_ok [OF assms(2-4)] unfolding docs_ok_def ts(2)
    by (auto simp: admitted_def fresh_tenant_def split: option.splits)
  then have "ps_ok E cfg (s\<lparr>tenants := ts\<rparr>)"
    using ps_ok_tenants [OF assms(1) onboard_change [OF ok(5) ts(1)]] by blast
  moreover have "map_le (byRoot (tenants s)) (byRoot ts)"
    using step by (auto simp: NewTenant_def Onboard_def map_le_def split: option.splits)
  ultimately show thesis using that step ts(3) by blast
qed

lemma safe_VerifyAndOnboard:
  assumes "PSA_text_ok psa" and "\<And>s' x. safe E cfg Q s' (k (Inl x))"
    and "\<And>s' t. steady s s' \<Longrightarrow> byRoot (tenants s') (psa_Root psa) = Some t \<Longrightarrow> safe E cfg Q s' (k (Inr t))"
  shows "safe E cfg Q s (VerifyAndOnboard_p E psa (IssuerURL cfg) (keyThumbs E cfg) k)"
proof (cases "coveredKey (elems (psa_KeyThumbprints psa)) (keyThumbs E cfg) = []")
  case True
  then show ?thesis using assms(2) by (simp add: VerifyAndOnboard_p_def Let_def)
next
  case covered: False
  let ?c = "coveredKey (elems (psa_KeyThumbprints psa)) (keyThumbs E cfg)"
  have admit: "safe E cfg Q s0 (on_tenants (\<lambda>ts. case NewTenant ts psa of (ts1, t) \<Rightarrow> Onboard ts1 t) (\<lambda>res.
      case res of Inl x \<Rightarrow> k (Inl x) | Inr _ \<Rightarrow> reads (\<lambda>s. ByRoot (tenants s) (psa_Root psa)) (\<lambda>live.
        case live of None \<Rightarrow> k (Inl NotRegistered) | Some t \<Rightarrow> k (Inr t))))"
    if s0: "steady s s0" and v: "VerifyPSA E v psa (IssuerURL cfg) ?c = Inr ()" "ERC1271 v = None" for s0 v
  proof (rule safe_on_tenants)
    fix s'
    assume s': "steady s0 s'" "ps_ok E cfg s'"
    have verdict: "onboard_verdict E v psa (IssuerURL cfg) (keyThumbs E cfg) = Inr ()"
      using covered v(1) by (simp add: onboard_verdict_def Let_def)
    from onboard_step [OF s'(2) verdict assms(1) v(2)] obtain ts where ts:
      "(case NewTenant (tenants s') psa of (ts1, t) \<Rightarrow> Onboard ts1 t) = Some (ts, Inr ())"
      "ps_ok E cfg (s'\<lparr>tenants := ts\<rparr>)" "map_le (byRoot (tenants s')) (byRoot ts)"
      "byAgent ts = byAgent (tenants s')" by metis
    have moved: "steady s' (s'\<lparr>tenants := ts\<rparr>)" by (rule steady_tenants) (simp_all add: ts(3,4))
    have "safe E cfg Q (s'\<lparr>tenants := ts\<rparr>) (reads (\<lambda>s. ByRoot (tenants s) (psa_Root psa)) (\<lambda>live.
        case live of None \<Rightarrow> k (Inl NotRegistered) | Some t \<Rightarrow> k (Inr t)))"
      using assms(2,3) steady_trans [OF s0 steady_trans [OF s'(1) steady_trans [OF moved]]]
      by (auto intro!: safe_reads simp: ByRoot_def split: option.split)
    then show "\<exists>ts x. (case NewTenant (tenants s') psa of (ts1, t) \<Rightarrow> Onboard ts1 t) = Some (ts, x)
        \<and> ps_ok E cfg (s'\<lparr>tenants := ts\<rparr>) \<and> steady s' (s'\<lparr>tenants := ts\<rparr>)
        \<and> safe E cfg Q (s'\<lparr>tenants := ts\<rparr>) (case x of Inl x \<Rightarrow> k (Inl x) | Inr _ \<Rightarrow>
            reads (\<lambda>s. ByRoot (tenants s) (psa_Root psa)) (\<lambda>live.
              case live of None \<Rightarrow> k (Inl NotRegistered) | Some t \<Rightarrow> k (Inr t)))"
      using ts(1,2) moved by auto
  qed
  show ?thesis
    unfolding VerifyAndOnboard_p_def Let_def if_not_P [OF covered]
  proof (rule safe_draw, rule safe_reads)
    fix e s1 s2
    assume "steady s s1" "steady s1 s2"
    then show "safe E cfg Q s2 (case VerifyPSA E (chain_verifier s2 (clock e)) psa (IssuerURL cfg) ?c of
        Inl x \<Rightarrow> k (Inl (PsaRejected x))
      | Inr _ \<Rightarrow> on_tenants (\<lambda>ts. case NewTenant ts psa of (ts1, t) \<Rightarrow> Onboard ts1 t) (\<lambda>res.
          case res of Inl x \<Rightarrow> k (Inl x) | Inr _ \<Rightarrow> reads (\<lambda>s. ByRoot (tenants s) (psa_Root psa)) (\<lambda>live.
            case live of None \<Rightarrow> k (Inl NotRegistered) | Some t \<Rightarrow> k (Inr t))))"
      using assms(2) admit [OF steady_trans, of s1 s2 "chain_verifier s2 (clock e)"]
      by (auto simp: chain_verifier_def split: sum.split)
  qed
qed

lemma safe_onboard:
  assumes "\<And>s' rep. plain rep \<Longrightarrow> Q s' rep"
  shows "safe E cfg Q s (onboard_p E cfg r)"
proof (cases "Option.bind (json_decode (http_body r)) PSA_of_json")
  case None
  then show ?thesis using assms by (simp add: onboard_p_def safe_simps)
next
  case (Some psa)
  show ?thesis
    unfolding onboard_p_def Some option.case
  proof (rule safe_VerifyAndOnboard [OF PSA_read_ok [OF Some]])
    fix s' :: ps and t
    assume t: "byRoot (tenants s') (psa_Root psa) = Some t"
    show "safe E cfg Q s' (case Inr t of Inl _ \<Rightarrow> Done (ErrorReply 403 ''invalid_psa'')
      | Inr t \<Rightarrow> follow (the_tenant t) (\<lambda>ten.
          Done (Reply 201 [] (JObj [(''psa_url'', JStr (IssuerURL cfg @ ''/psa/'' @ Root ten)), (''root'', JStr (Root ten))]))))"
      using assms by (auto intro!: safe_follow elim!: tenant_stays [OF _ _ t] simp: safe_simps)
  qed (use assms in \<open>simp add: safe_simps\<close>)
qed

lemma safe_enroll:
  assumes other: "\<And>s' rep. plain rep \<Longrightarrow> Q s' rep"
    and t: "byRoot (tenants s) root = Some t" and g: "grant_ok E root a g"
  shows "safe E cfg Q s (enroll_p E t g a root)"
  unfolding enroll_p_def
proof (rule safe_on_tenants)
  fix s1
  assume s1: "steady s s1" "ps_ok E cfg s1"
  note t1 = steadyD(1) [OF s1(1) t]
  from enroll_step [OF s1(2) t1 g] obtain ts res where ts: "Enroll E (tenants s1) a t g = Some (ts, res)"
    "ps_ok E cfg (s1\<lparr>tenants := ts\<rparr>)" "byRoot ts = byRoot (tenants s1)"
    "map_le (byAgent (tenants s1)) (byAgent ts)" using map_leI by metis
  have moved: "steady s1 (s1\<lparr>tenants := ts\<rparr>)" by (rule steady_tenants) (simp_all add: ts(3,4))
  have "safe E cfg Q (s1\<lparr>tenants := ts\<rparr>) (case res of
        Inl _ \<Rightarrow> Done (ErrorReply 409 ''conflict'')
      | Inr _ \<Rightarrow> log_p E t a ''agent_enrolled'' []
          (Done (Reply 201 [] (JObj [(''root'', JStr root), (''status'', JStr ''enrolled'')]))))"
  proof (cases res)
    case (Inr u)
    show ?thesis unfolding Inr sum.case
      by (rule safe_log [where root = root]) (use t1 ts(3) other in \<open>simp_all add: safe_simps\<close>)
  qed (simp add: safe_simps other)
  then show "\<exists>ts res. Enroll E (tenants s1) a t g = Some (ts, res) \<and> ps_ok E cfg (s1\<lparr>tenants := ts\<rparr>)
      \<and> steady s1 (s1\<lparr>tenants := ts\<rparr>) \<and> safe E cfg Q (s1\<lparr>tenants := ts\<rparr>) (case res of
        Inl _ \<Rightarrow> Done (ErrorReply 409 ''conflict'')
      | Inr _ \<Rightarrow> log_p E t a ''agent_enrolled'' []
          (Done (Reply 201 [] (JObj [(''root'', JStr root), (''status'', JStr ''enrolled'')]))))"
    using ts(1,2) moved by blast
qed

lemma safe_admit:
  assumes other: "\<And>s' rep. plain rep \<Longrightarrow> Q s' rep"
    and t: "byRoot (tenants s) (ag_Root g) = Some t" and g: "AgentGrant_text_ok g"
  shows "safe E cfg Q s (admit_p E t g a thumb)"
  unfolding admit_p_def
proof (rule safe_follow)
  fix s1
  assume s1: "steady s s1" "ps_ok E cfg s1"
  obtain ten where ten: "the_tenant t s1 = Some ten" "Root ten = ag_Root g" "byRoot (tenants s1) (ag_Root g) = Some t"
    using tenant_stays [OF s1(2,1) t] .
  have checked: "safe E cfg Q s3 (case VerifyAgentGrant E (chain_verifier s3 now) g (ag_Root g) a thumb of
        Inl _ \<Rightarrow> Done (ErrorReply 403 ''invalid_grant'') | Inr _ \<Rightarrow> enroll_p E t g a (ag_Root g))"
    if s3: "steady s1 s3" for s3 now
  proof (cases "VerifyAgentGrant E (chain_verifier s3 now) g (ag_Root g) a thumb")
    case (Inr u)
    have "grant_ok E (ag_Root g) a g"
      by (rule accepted_grant_ok [OF _ g]) (use Inr in \<open>auto simp: chain_verifier_def\<close>)
    then show ?thesis using safe_enroll [OF other steadyD(1) [OF s3 ten(3)]] Inr by simp
  qed (simp add: safe_simps other)
  have "safe E cfg Q s1 (draw (\<lambda>e. reads (\<lambda>s. chain_verifier s (clock e)) (\<lambda>v.
        case VerifyAgentGrant E v g (Root ten) a thumb of
          Inl _ \<Rightarrow> Done (ErrorReply 403 ''invalid_grant'') | Inr _ \<Rightarrow> enroll_p E t g a (Root ten))))"
    unfolding ten(2) by (rule safe_draw, rule safe_reads, rule checked, rule steady_trans)
  then show "\<exists>ten. the_tenant t s1 = Some ten \<and> safe E cfg Q s1 (draw (\<lambda>e. reads (\<lambda>s. chain_verifier s (clock e)) (\<lambda>v.
        case VerifyAgentGrant E v g (Root ten) a thumb of
          Inl _ \<Rightarrow> Done (ErrorReply 403 ''invalid_grant'') | Inr _ \<Rightarrow> enroll_p E t g a (Root ten))))"
    using ten(1) by blast
qed

lemma safe_enrollAgent:
  assumes other: "\<And>s' rep. plain rep \<Longrightarrow> Q s' rep"
  shows "safe E cfg Q s (enrollAgent_p E cfg r)"
proof (cases "Sig cfg r")
  case (Inl x)
  then show ?thesis by (simp add: enrollAgent_p_def safe_simps other)
next
  case sig: (Inr who)
  show ?thesis
  proof (cases "Option.bind (json_decode (http_body r)) AgentGrant_of_json")
    case None
    then show ?thesis using sig by (cases who) (simp add: enrollAgent_p_def safe_simps other)
  next
    case (Some g)
    note ok = AgentGrant_read_ok [OF Some]
    show ?thesis
      unfolding enrollAgent_p_def sig Some sum.case option.case split_beta
    proof (rule safe_reads)
      fix s1
      show "safe E cfg Q s1 (case ByRoot (tenants s1) (ag_Root g) of
          None \<Rightarrow> Done (ErrorReply 403 ''unknown_root'') | Some t \<Rightarrow> admit_p E t g (snd who) (fst who))"
        using safe_admit [OF other _ ok] by (simp add: ByRoot_def safe_simps other split: option.split)
    qed
  qed
qed

text \<open>Creating a request: the one action that draws an identifier and a code.\<close>

lemma safe_create:
  assumes "rq_StepUpSig q = None" and "byAgent (tenants s) (rq_AgentID q) \<noteq> None" and "request_faithful q"
    and "\<And>s' p. steady s s' \<Longrightarrow> ps_ok E cfg s' \<Longrightarrow> safe E cfg Q s' (k p)"
  shows "safe E cfg Q s (on_pending (\<lambda>_ st. Some (Create st q)) k)"
proof (rule safe_on_pending)
  fix e s'
  assume s': "steady s s'" "ps_ok E cfg s'"
  obtain st p where st: "Create (pending s') q = (st, p)" by force
  have ok: "ps_ok E cfg (s'\<lparr>pending := st\<rparr>)"
    using ps_ok_create [OF s'(2) assms(1) _ assms(3)] assms(2) steadyD(2) [OF s'(1)] st by fastforce
  have "consent_step E (bound cfg (tenants s')) (pending s') st"
    using consent_step.create [OF assms(1)] st by (metis fst_conv)
  note moved = steady_pending [OF s'(2) r_into_rtranclp [where r = "consent_step E (bound cfg (tenants s'))", OF this]]
  show "\<exists>st x. Some (Create (pending s') q) = Some (st, x) \<and> (fresh s' (s'\<lparr>pending := st\<rparr>) \<longrightarrow>
      ps_ok E cfg (s'\<lparr>pending := st\<rparr>) \<and> steady s' (s'\<lparr>pending := st\<rparr>)
      \<and> safe E cfg Q (s'\<lparr>pending := st\<rparr>) (k x))"
    using st ok moved assms(4) [OF steady_trans [OF s'(1) moved] ok] by blast
qed

lemma plain_accepted [simp]: "plain (accepted_reply cfg q)"
  by (simp add: accepted_reply_def)

lemma safe_request:
  assumes other: "\<And>s' rep. plain rep \<Longrightarrow> Q s' rep"
    and t: "byRoot (tenants s) root = Some t" "byAgent (tenants s) a = Some root" and res: "resource_ok res"
  shows "safe E cfg Q s (request_p E cfg t g res a)"
  unfolding request_p_def
proof (rule safe_follow)
  fix s1
  assume s1: "steady s s1" "ps_ok E cfg s1"
  obtain ten where ten: "the_tenant t s1 = Some ten" using tenant_stays [OF s1(2,1) t(1)] .
  have answer: "safe E cfg Q s3 (answer_p E cfg t g res a q p)" if "steady s1 s3" for s3 q p
  proof -
    have "safe E cfg Q s3 (follow (the_tenant t) (\<lambda>_. Done (accepted_reply cfg q)))"
      by (rule safe_follow)
        (use tenant_stays [OF _ _ t(1)] steady_trans [OF s1(1) steady_trans [OF that]] in \<open>fastforce simp: safe_simps other\<close>)
    then show ?thesis by (simp add: answer_p_def AutoApprovable_def safe_simps other)
  qed
  have create: "safe E cfg Q s2 (create_p E cfg t g res a (new_request e a res g tier))"
    if s2: "steady s1 s2" for s2 e tier
    unfolding create_p_def
  proof (rule safe_create)
    note later = steady_trans [OF s1(1) s2]
    show "rq_StepUpSig (new_request e a res g tier) = None"
      "byAgent (tenants s2) (rq_AgentID (new_request e a res g tier)) \<noteq> None"
      "request_faithful (new_request e a res g tier)"
      using steadyD(2) [OF later t(2)] res resourceOf_new [OF res]
      by (simp_all add: new_request_def request_faithful_def)
    fix s3 p
    assume s3: "steady s2 s3"
    note later = steady_trans [OF later s3]
    show "safe E cfg Q s3 (log_p E t a ''token_request'' (rq_ID (new_request e a res g tier))
        (answer_p E cfg t g res a (new_request e a res g tier) p))"
      by (rule safe_log [OF steadyD(1) [OF later t(1)]]) (rule answer [OF steady_trans [OF steady_trans [OF s2 s3]]])
  qed
  have "safe E cfg Q s1 (draw (\<lambda>e. create_p E cfg t g res a (new_request e a res g (tierFor (psa_Scope (tPSA ten)) res))))"
    by (rule safe_draw) (rule create)
  then show "\<exists>x. the_tenant t s1 = Some x \<and> safe E cfg Q s1 (draw (\<lambda>e.
      create_p E cfg t g res a (new_request e a res g (tierFor (psa_Scope (tPSA x)) res))))"
    using ten by blast
qed

lemma safe_ask:
  assumes other: "\<And>s' rep. plain rep \<Longrightarrow> Q s' rep"
    and t: "byRoot (tenants s) root = Some t" "byAgent (tenants s) a = Some root"
  shows "safe E cfg Q s (ask_p E cfg r t g a)"
proof (cases "Option.bind (json_decode (http_body r)) token_body_of_json")
  case (Some body)
  show ?thesis
  proof (cases "parseResourceToken (fst body)")
    case None
    then show ?thesis using Some by (simp add: ask_p_def safe_simps other split_beta)
  next
    case res: (Some res)
    have "safe E cfg Q s (follow (the_tenant t) (\<lambda>judged.
        case Consistent (tlog judged) a (ag_MissionScopeS256 g) (elems (rc_Scope res)) (rc_AmountWei res) of
          Inl _ \<Rightarrow> Done (ErrorReply 403 ''mission_inconsistent'')
        | Inr _ \<Rightarrow> request_p E cfg t g res a))"
    proof (rule safe_follow)
      fix s1
      assume s1: "steady s s1" "ps_ok E cfg s1"
      have "safe E cfg Q s1 (request_p E cfg t g res a)"
        by (rule safe_request [OF other steadyD(1) [OF s1(1) t(1)] steadyD(2) [OF s1(1) t(2)]])
          (use parseResourceToken_ok [OF res] in auto)
      then have "safe E cfg Q s1 (case v of Inl _ \<Rightarrow> Done (ErrorReply 403 ''mission_inconsistent'')
          | Inr _ \<Rightarrow> request_p E cfg t g res a)" for v :: "string + unit"
        by (cases v) (simp_all add: safe_simps other)
      then show "\<exists>x. the_tenant t s1 = Some x \<and> safe E cfg Q s1
          (case Consistent (tlog x) a (ag_MissionScopeS256 g) (elems (rc_Scope res)) (rc_AmountWei res) of
             Inl _ \<Rightarrow> Done (ErrorReply 403 ''mission_inconsistent'') | Inr _ \<Rightarrow> request_p E cfg t g res a)"
        using tenant_stays [OF s1(2,1) t(1)] by metis
    qed
    then show ?thesis using Some res by (simp add: ask_p_def split_beta)
  qed
qed (simp add: ask_p_def safe_simps other)

text \<open>The agent of a signature, and the tenant and grant it is bound to.\<close>

lemma safe_grant:
  assumes t: "byRoot (tenants s) root = Some t"
    and "\<And>s' g. steady s s' \<Longrightarrow> ps_ok E cfg s' \<Longrightarrow> (\<And>x. g = Some x \<Longrightarrow> grant_ok E root a x) \<Longrightarrow>
        (byAgent (tenants s') a = Some root \<Longrightarrow> g \<noteq> None) \<Longrightarrow> safe E cfg Q s' (k g)"
  shows "safe E cfg Q s (follow (\<lambda>s. Grant (tenants s) t a) k)"
proof (rule safe_follow)
  fix s'
  assume s': "steady s s'" "ps_ok E cfg s'"
  obtain ten where ten: "the_tenant t s' = Some ten" "registered (tenants s') root = Some ten"
    using tenant_stays [OF s'(2,1) t] .
  have "grant_ok E root a x" if "grants ten a = Some x" for x
    using registered_docs [OF s'(2) ten(2)] that by blast
  moreover have "grants ten a \<noteq> None" if "byAgent (tenants s') a = Some root"
    using tenants_okD(3) [OF ps_okD(1) [OF s'(2)] that] ten(2) by auto
  ultimately have "safe E cfg Q s' (k (grants ten a))" using assms(2) [OF s'] by blast
  then show "\<exists>x. Grant (tenants s') t a = Some x \<and> safe E cfg Q s' (k x)"
    using ten(1) by (simp add: Grant_def the_tenant_def)
qed

lemma safe_token:
  assumes other: "\<And>s' rep. plain rep \<Longrightarrow> Q s' rep"
  shows "safe E cfg Q s (token_p E cfg r)"
proof (cases "Sig cfg r")
  case (Inl x)
  then show ?thesis by (simp add: token_p_def safe_simps other)
next
  case (Inr who)
  let ?k = "\<lambda>t grant. case grant of None \<Rightarrow> Done (ErrorReply 403 ''no_agent_grant'')
      | Some g \<Rightarrow> if ag_AgentThumbprint g \<noteq> fst who then Done (ErrorReply 403 ''no_agent_grant'')
                  else ask_p E cfg r t g (snd who)"
  show ?thesis
    unfolding token_p_def Inr sum.case split_beta
  proof (rule safe_reads)
    fix s1
    assume s1: "steady s s1" "ps_ok E cfg s1"
    have "safe E cfg Q s1 (follow (\<lambda>s. Grant (tenants s) t (snd who)) (?k t))"
      if t: "ByAgent (tenants s1) (snd who) = Some t" for t
    proof -
      obtain root where root: "byAgent (tenants s1) (snd who) = Some root" "byRoot (tenants s1) root = Some t"
        using ByAgent_live [OF s1(2) t] by metis
      show ?thesis
      proof (rule safe_grant [OF root(2)])
        fix s2 grant
        assume s2: "steady s1 s2" "ps_ok E cfg s2"
        show "safe E cfg Q s2 (?k t grant)"
          using safe_ask [OF other steadyD(1) [OF s2(1) root(2)] steadyD(2) [OF s2(1) root(1)]]
          by (simp add: safe_simps other split: option.split)
      qed
    qed
    then show "safe E cfg Q s1 (case ByAgent (tenants s1) (snd who) of
        None \<Rightarrow> Done (ErrorReply 403 ''no_agent_grant'')
      | Some t \<Rightarrow> follow (\<lambda>s. Grant (tenants s) t (snd who)) (?k t))"
      by (simp add: safe_simps other split: option.split)
  qed
qed

text \<open>A poll answers with a token only when the request is the caller's own and approved.\<close>

lemma safe_approved:
  assumes other: "\<And>s' rep. plain rep \<Longrightarrow> Q s' rep"
    and tok: "\<And>s' tok. steady s s' \<Longrightarrow> token_sound E cfg s' p q tok \<Longrightarrow> Q s' (token_reply tok)"
    and q: "content (pending s) p = Some q" "decision (pending s) p = Some StateApproved"
    and a: "byAgent (tenants s) (rq_AgentID q) = Some root"
  shows "safe E cfg Q s (approved_p E cfg p (resourceOf q) (rq_AgentID q))"
  unfolding approved_p_def
proof (rule safe_follow)
  fix s1
  assume s1: "steady s s1" "ps_ok E cfg s1"
  note a1 = steadyD(2) [OF s1(1) a]
  obtain t where t: "ByAgent (tenants s1) (rq_AgentID q) = Some t" "byRoot (tenants s1) root = Some t"
    using bound_ByAgent [OF s1(2) a1] by metis
  have "safe E cfg Q s1 (follow (\<lambda>s. Grant (tenants s) t (rq_AgentID q)) (\<lambda>g.
      finish_p E cfg p t g (resourceOf q) (rq_AgentID q)))"
  proof (rule safe_grant [OF t(2)])
    fix s2 g
    assume s2: "steady s1 s2" "ps_ok E cfg s2" and g: "\<And>x. g = Some x \<Longrightarrow> grant_ok E root (rq_AgentID q) x"
      "byAgent (tenants s2) (rq_AgentID q) = Some root \<Longrightarrow> g \<noteq> None"
    note a2 = steadyD(2) [OF s2(1) a1] and moved = steady_trans [OF s1(1) s2(1)]
    obtain x where x: "g = Some x" using g(2) [OF a2] by blast
    show "safe E cfg Q s2 (finish_p E cfg p t g (resourceOf q) (rq_AgentID q))"
      unfolding x
      by (rule safe_finish [OF steadyD(3) [OF moved q(1)] steadyD(4) [OF moved q(2)] steadyD(1) [OF s2(1) t(2)] a2
            g(1) [OF x]])
        (use tok [OF steady_trans [OF moved]] other in blast)+
  qed
  then show "\<exists>t. ByAgent (tenants s1) (rq_AgentID q) = Some t \<and> safe E cfg Q s1
      (follow (\<lambda>s. Grant (tenants s) t (rq_AgentID q)) (\<lambda>g. finish_p E cfg p t g (resourceOf q) (rq_AgentID q)))"
    using t(1) by blast
qed

text \<open>The tokens a poll of this path may answer with.\<close>

definition own_token :: "ext \<Rightarrow> Config \<Rightarrow> http \<Rightarrow> ps \<Rightarrow> string \<Rightarrow> bool" where
  "own_token E cfg r s tok =
     (\<exists>p q thumb. Sig cfg r = Inr (thumb, rq_AgentID q) \<and> rq_ID q = path_value r
        \<and> byID (pending s) (path_value r) = Some p \<and> token_sound E cfg s p q tok)"

lemma own_token_steady: "own_token E cfg r s tok \<Longrightarrow> steady s s' \<Longrightarrow> own_token E cfg r s' tok"
  unfolding own_token_def using token_sound_steady steadyD(6) by blast

lemma safe_poll:
  assumes other: "\<And>s' rep. plain rep \<Longrightarrow> Q s' rep"
    and tok: "\<And>s' tok. own_token E cfg r s' tok \<Longrightarrow> Q s' (token_reply tok)"
  shows "safe E cfg Q s (poll_p E cfg r)"
proof (cases "Sig cfg r")
  case (Inl x)
  then show ?thesis by (simp add: poll_p_def safe_simps other)
next
  case sig: (Inr who)
  have polled: "safe E cfg Q s1 (follow (the_request p) (state_p E cfg (snd who) p))"
    if p: "byID (pending s1) (path_value r) = Some p" for s1 p
  proof (rule safe_follow)
    fix s2
    assume s2: "steady s1 s2" "ps_ok E cfg s2"
    note p2 = steadyD(6) [OF s2(1) p]
    obtain req where req: "the_request p s2 = Some req" "rq_ID req = path_value r"
      using consent_okD(2) [OF ps_okD(3) [OF s2(2)] p2] by (auto simp: the_request_def)
    note same = frozen_same [OF refl [of "frozen req"]]
    obtain root where root: "byAgent (tenants s2) (rq_AgentID req) = Some root"
      using ps_okD(4) [OF s2(2)] req(1) by (auto simp: requests_ok_def the_request_def)
    have "safe E cfg Q s2 (approved_p E cfg p (resourceOf (frozen req)) (rq_AgentID (frozen req)))"
      if approved: "rq_AgentID req = snd who" "rq_State req = StateApproved"
    proof (rule safe_approved [OF other])
      show "content (pending s2) p = Some (frozen req)" "decision (pending s2) p = Some StateApproved"
        "byAgent (tenants s2) (rq_AgentID (frozen req)) = Some root"
        using req(1) approved(2) root same(1) by (simp_all add: content_frozen the_request_def decision_def)
      show "Q s' (token_reply tk)" if "steady s2 s'" "token_sound E cfg s' p (frozen req) tk" for s' tk
      proof (rule tok)
        show "own_token E cfg r s' tk"
          unfolding own_token_def
          by (intro exI [of _ p] exI [of _ "frozen req"] exI [of _ "fst who"])
            (use sig same(1,6) approved(1) req(2) that steadyD(6) [OF that(1) p2] in \<open>simp add: prod_eq_iff\<close>)
      qed
    qed
    then show "\<exists>req. the_request p s2 = Some req \<and> safe E cfg Q s2 (state_p E cfg (snd who) p req)"
      using req(1) same(1,3) by (auto simp: state_p_def safe_simps other split: State.split)
  qed
  show ?thesis
    unfolding poll_p_def sig sum.case split_beta
  proof (rule safe_consent [where P = "\<lambda>st x. \<forall>p. x = Inr p \<longrightarrow> byID st (path_value r) = Some p"])
    fix e s'
    assume s': "steady s s'" "ps_ok E cfg s'"
    obtain st x where st: "Poll (pending s') (clock e) (path_value r) = Some (st, x)"
      using consent_total(4) [OF ps_okD(3) [OF s'(2)]] by fastforce
    moreover have "\<forall>p. x = Inr p \<longrightarrow> byID st (path_value r) = Some p"
      using st by (auto simp: Poll_def set_request_def split: option.splits if_splits)
    ultimately show "\<exists>st x. Poll (pending s') (clock e) (path_value r) = Some (st, x)
        \<and> consent_step E (bound cfg (tenants s')) (pending s') st \<and> old_requests (pending s') st
        \<and> (\<forall>p. x = Inr p \<longrightarrow> byID st (path_value r) = Some p)"
      using consent_step.poll [OF st] old_requests_ops(1) [OF st] by blast
  qed (auto simp: safe_simps other split: sum.split intro!: polled)
qed

text \<open>The approval pages.\<close>

lemma safe_challenge:
  assumes other: "\<And>s' rep. plain rep \<Longrightarrow> Q s' rep" and req: "content (pending s) p = Some q"
  shows "safe E cfg Q s (challenge_p E cfg code p req)"
proof (cases "ApprovalDigest E req (ChainID cfg) (RegistryAddr cfg)")
  case (Some digest)
  show ?thesis
    unfolding challenge_p_def Some option.case
  proof (rule safe_follow)
    fix s'
    assume "steady s s'"
    then obtain shown where "the_request p s' = Some shown" using request_stays [OF _ req] by metis
    then show "\<exists>shown. the_request p s' = Some shown \<and> safe E cfg Q s' (Done (Reply 200 [] (JObj
            [(''digest'', JStr (hexStr digest)),
             (''message'', JStr ''this action exceeds the PSA step-up threshold; a root signature is required''),
             (''request'', Request_json E shown),
             (''sign_url'', JStr (IssuerURL cfg @ ''/approve/'' @ code @ ''/signature'')),
             (''tier'', JStr ''elevated'')])))"
      by (intro exI conjI safe.ended other) simp_all
  qed
qed (simp add: challenge_p_def safe_simps other)

lemma safe_approvePage:
  assumes other: "\<And>s' rep. plain rep \<Longrightarrow> Q s' rep"
  shows "safe E cfg Q s (approvePage_p E cfg r)"
  unfolding approvePage_p_def Let_def ByCode_def
proof (rule safe_code)
  fix s' p req
  assume "the_request p s' = Some req"
  then have "safe E cfg Q s' (challenge_p E cfg (path_value r) p req)"
    using safe_challenge [OF other content_frozen] by (simp add: the_request_def)
  moreover have "safe E cfg Q s' (ApproveRoutine_p (path_value r) (\<lambda>res. case res of
        Inl _ \<Rightarrow> Done (ErrorReply 409 ''cannot_approve'')
      | Inr _ \<Rightarrow> Done (Reply 200 [] (JObj
          [(''code'', JStr (path_value r)), (''status'', JStr ''approved''), (''tier'', JStr ''routine'')]))))"
    by (rule safe_ApproveRoutine) (simp add: safe_simps other split: sum.split)
  ultimately show "safe E cfg Q s' (page_p E cfg (path_value r) p req)"
    by (simp add: page_p_def)
qed (simp add: safe_simps other)

lemma safe_confirm:
  assumes other: "\<And>s' rep. plain rep \<Longrightarrow> Q s' rep"
    and req: "content (pending s) p = Some (frozen req)" and led: "leads (pending s) code p"
  shows "safe E cfg Q s (confirm_p E cfg code sg req)"
  unfolding confirm_p_def
proof (rule safe_reads)
  fix s1
  assume s1: "steady s s1" "ps_ok E cfg s1"
  have replied: "safe E cfg Q s' (case res of Inl _ \<Rightarrow> Done (ErrorReply 403 ''step_up_failed'')
      | Inr _ \<Rightarrow> Done (Reply 200 [] (JObj [(''status'', JStr ''approved'')])))" for s' and res :: "consent_err + unit"
    by (simp add: safe_simps other split: sum.split)
  have "safe E cfg Q s1 (follow (the_tenant t) (\<lambda>ten.
      ApproveElevated_p E code (Root ten) (ChainID cfg) (RegistryAddr cfg) (hexBytes sg)
        (\<lambda>res. case res of Inl _ \<Rightarrow> Done (ErrorReply 403 ''step_up_failed'')
           | Inr _ \<Rightarrow> Done (Reply 200 [] (JObj [(''status'', JStr ''approved'')])))))"
    if t: "ByAgent (tenants s1) (rq_AgentID req) = Some t" for t
  proof (rule safe_follow)
    obtain root where root: "byAgent (tenants s1) (rq_AgentID req) = Some root" "byRoot (tenants s1) root = Some t"
      using ByAgent_live [OF s1(2) t] by metis
    fix s2
    assume s2: "steady s1 s2" "ps_ok E cfg s2"
    note moved = steady_trans [OF s1(1) s2(1)]
    obtain ten where ten: "the_tenant t s2 = Some ten" "Root ten = root"
      using tenant_stays [OF s2(2,1) root(2)] .
    have "byAgent (tenants s2) (rq_AgentID (frozen req)) = Some root"
      using steadyD(2) [OF s2(1) root(1)] by (simp add: frozen_def)
    from safe_ApproveElevated [OF leads_stays [OF led moved] steadyD(3) [OF moved req] this, where Q = Q and
        k = "\<lambda>res. case res of Inl _ \<Rightarrow> Done (ErrorReply 403 ''step_up_failed'')
             | Inr _ \<Rightarrow> Done (Reply 200 [] (JObj [(''status'', JStr ''approved'')]))", OF replied, of "hexBytes sg"]
    show "\<exists>x. the_tenant t s2 = Some x \<and> safe E cfg Q s2
        (ApproveElevated_p E code (Root x) (ChainID cfg) (RegistryAddr cfg) (hexBytes sg)
          (\<lambda>res. case res of Inl _ \<Rightarrow> Done (ErrorReply 403 ''step_up_failed'')
             | Inr _ \<Rightarrow> Done (Reply 200 [] (JObj [(''status'', JStr ''approved'')]))))"
      using ten by blast
  qed
  then show "safe E cfg Q s1 (case ByAgent (tenants s1) (rq_AgentID req) of
      None \<Rightarrow> Done (ErrorReply 404 ''unknown_tenant'')
    | Some t \<Rightarrow> follow (the_tenant t) (\<lambda>ten.
        ApproveElevated_p E code (Root ten) (ChainID cfg) (RegistryAddr cfg) (hexBytes sg)
          (\<lambda>res. case res of Inl _ \<Rightarrow> Done (ErrorReply 403 ''step_up_failed'')
             | Inr _ \<Rightarrow> Done (Reply 200 [] (JObj [(''status'', JStr ''approved'')])))))"
    by (simp add: safe_simps other split: option.split)
qed

lemma safe_approveElevated:
  assumes other: "\<And>s' rep. plain rep \<Longrightarrow> Q s' rep"
  shows "safe E cfg Q s (approveElevated_p E cfg r)"
proof (cases "Option.bind (json_decode (http_body r)) signature_of_json")
  case (Some sg)
  show ?thesis
    unfolding approveElevated_p_def Let_def ByCode_def Some option.case
  proof (rule safe_code)
    fix s' p req
    assume "the_request p s' = Some req" "leads (pending s') (path_value r) p"
    then show "safe E cfg Q s' (confirm_p E cfg (path_value r) sg req)"
      by (intro safe_confirm [OF other] content_frozen) (simp_all add: the_request_def)
  qed (simp add: safe_simps other)
qed (simp add: approveElevated_p_def safe_simps other)

text \<open>The documents served.\<close>

lemma plain_documents [simp]: "plain (Reply n h (PSA_json psa))" "plain (Reply n h (AgentGrant_json g))"
  by (simp_all add: PSA_json_def AgentGrant_json_def)

lemma plain_constant [simp]: "plain (metadata cfg)" "plain (jwks cfg)"
  by (simp_all add: metadata_def jwks_def)

lemma safe_servePSA:
  assumes other: "\<And>s' rep. plain rep \<Longrightarrow> Q s' rep"
  shows "safe E cfg Q s (servePSA_p r)"
  unfolding servePSA_p_def
proof (rule safe_reads)
  fix s1
  have "safe E cfg Q s1 (follow (the_tenant t) (\<lambda>ten. Done (Reply 200 [] (PSA_json (tPSA ten)))))"
    if t: "byRoot (tenants s1) (path_value r) = Some t" for t
    by (rule safe_follow) (use tenant_stays [OF _ _ t] in \<open>metis other plain_documents(1) safe.ended\<close>)
  then show "safe E cfg Q s1 (case ByRoot (tenants s1) (path_value r) of
      None \<Rightarrow> Done (ErrorReply 404 ''unknown_root'')
    | Some t \<Rightarrow> follow (the_tenant t) (\<lambda>ten. Done (Reply 200 [] (PSA_json (tPSA ten)))))"
    by (simp add: ByRoot_def safe_simps other split: option.split)
qed

lemma safe_serveGrant:
  assumes other: "\<And>s' rep. plain rep \<Longrightarrow> Q s' rep"
  shows "safe E cfg Q s (serveGrant_p r)"
  unfolding serveGrant_p_def by (rule safe_reads) (simp add: safe_simps other split: option.split)

lemma safe_export:
  assumes other: "\<And>s' rep. plain rep \<Longrightarrow> Q s' rep"
  shows "safe E cfg Q s (export_p cfg r)"
proof (cases "RootAuth cfg r")
  case (Inr root)
  show ?thesis
    unfolding export_p_def Inr sum.case
  proof (rule safe_reads)
    fix s1
    have "safe E cfg Q s1 (follow (the_tenant t) (\<lambda>ten. follow (the_tenant t) (\<lambda>ten'.
        Done (ExportReply (tPSA ten) (Export (tlog ten'))))))"
      if t: "byRoot (tenants s1) root = Some t" for t
    proof (rule safe_follow)
      fix s2
      assume s2: "steady s1 s2" "ps_ok E cfg s2"
      obtain ten where ten: "the_tenant t s2 = Some ten" "byRoot (tenants s2) root = Some t"
        using tenant_stays [OF s2(2,1) t] .
      have "safe E cfg Q s2 (follow (the_tenant t) (\<lambda>ten'. Done (ExportReply (tPSA ten) (Export (tlog ten')))))"
        by (rule safe_follow) (use tenant_stays [OF _ _ ten(2)] in \<open>metis other plain_simps(3) safe.ended\<close>)
      then show "\<exists>x. the_tenant t s2 = Some x \<and> safe E cfg Q s2 (follow (the_tenant t) (\<lambda>ten'.
          Done (ExportReply (tPSA x) (Export (tlog ten')))))"
        using ten(1) by blast
    qed
    then show "safe E cfg Q s1 (case ByRoot (tenants s1) root of
        None \<Rightarrow> Done (ErrorReply 404 ''unknown_root'')
      | Some t \<Rightarrow> follow (the_tenant t) (\<lambda>ten. follow (the_tenant t) (\<lambda>ten'.
          Done (ExportReply (tPSA ten) (Export (tlog ten'))))))"
      by (simp add: ByRoot_def safe_simps other split: option.split)
  qed
qed (simp add: export_p_def safe_simps other)

section \<open>Every request\<close>

text \<open>What a request may be answered with.\<close>

definition answers :: "ext \<Rightarrow> Config \<Rightarrow> string list \<Rightarrow> http \<Rightarrow> ps \<Rightarrow> reply \<Rightarrow> bool" where
  "answers E cfg path r s rep =
     (\<forall>tok. rep = token_reply tok \<longrightarrow>
        (\<exists>rid. path = [''pending'', rid] \<and> own_token E cfg (r\<lparr>path_value := rid\<rparr>) s tok))"

lemma token_reply_inj [simp]: "token_reply tok = token_reply tok' \<longleftrightarrow> tok = tok'"
  by (simp add: token_reply_def)

lemma answers_plain: "plain rep \<Longrightarrow> answers E cfg path r s rep"
  by (simp add: answers_def plain_def)

lemma answers_own: "own_token E cfg (r\<lparr>path_value := rid\<rparr>) s tok \<Longrightarrow> answers E cfg [''pending'', rid] r s (token_reply tok)"
  by (simp add: answers_def token_reply_def)

lemma answers_steady: "steady s s' \<Longrightarrow> answers E cfg path r s rep \<Longrightarrow> answers E cfg path r s' rep"
  by (auto simp: answers_def) (rule own_token_steady)

lemma safe_if: "(b \<Longrightarrow> safe E cfg Q s p) \<Longrightarrow> (\<not> b \<Longrightarrow> safe E cfg Q s p') \<Longrightarrow> safe E cfg Q s (if b then p else p')"
  by simp

lemma safe_for_method:
  "safe E cfg (answers E cfg path r) s p \<Longrightarrow> safe E cfg (answers E cfg path r) s (for_method_p ok p)"
  by (simp add: for_method_p_def safe_simps answers_plain)

lemma safe_reply: "plain rep \<Longrightarrow> safe E cfg (answers E cfg path r) s (Done rep)"
  by (simp add: safe_simps answers_plain)

lemmas safe_handlers = safe_onboard [OF answers_plain] safe_enrollAgent [OF answers_plain]
  safe_token [OF answers_plain] safe_approvePage [OF answers_plain] safe_approveElevated [OF answers_plain]
  safe_servePSA [OF answers_plain] safe_serveGrant [OF answers_plain] safe_export [OF answers_plain]

lemma safe_polled:
  "safe E cfg (answers E cfg [''pending'', rid] r) s (poll_p E cfg (r\<lparr>path_value := rid\<rparr>))"
  by (rule safe_poll) (simp_all add: answers_plain answers_own)

lemma safe_Routes: "safe E cfg (answers E cfg path r) s (Routes_p E cfg meth path r)"
  unfolding Routes_p_def Let_def
  by (simp only: split: list.split)
    (intro conjI allI impI safe_if safe_for_method safe_handlers safe_reply; (simp; fail)?; simp add: safe_polled)

lemma safe_devRevoke: "safe E cfg (answers E cfg path r) s (devRevoke_p r')"
  by (simp add: devRevoke_p_def Let_def safe_simps answers_plain)

lemma every_request_safe: "safe E cfg (answers E cfg path r) s (psd_routes_p b E cfg meth path r)"
  unfolding psd_routes_p_def by (rule safe_if) (rule safe_for_method safe_devRevoke safe_Routes)+

end
