(* ===== verification/Json_Indent.thy ===== *)
theory Json_Indent
  imports Json_Texts
begin

text \<open>
  \<open>json.MarshalIndent(v, "", "  ")\<close>, which the wallet tool writes its files with, and reading such a
  text back.
\<close>

section \<open>Printing\<close>

text \<open>A new line at nesting \<open>n\<close>.\<close>

definition new_line :: "nat \<Rightarrow> string" where
  "new_line n = CHR 0x0A # replicate (2 * n) (CHR '' '')"

fun json_indent :: "nat \<Rightarrow> json \<Rightarrow> string" where
  "json_indent n (JArr vs) =
     (if vs = [] then ''[]''
      else ''['' @ new_line (Suc n) @ join ('','' @ new_line (Suc n)) (map (json_indent (Suc n)) vs)
           @ new_line n @ '']'')"
| "json_indent n (JObj ms) =
     (if ms = [] then ''{}''
      else ''{'' @ new_line (Suc n)
           @ join ('','' @ new_line (Suc n)) (map (\<lambda>(k, v). json_quote k @ '': '' @ json_indent (Suc n) v) ms)
           @ new_line n @ ''}'')"
| "json_indent n v = json_print v"

section \<open>White space\<close>

lemma skip_ws_append: "list_all is_ws w \<Longrightarrow> skip_ws (w @ s) = skip_ws s"
  by (induction w) simp_all

lemma new_line_ws: "list_all is_ws (new_line n)"
  by (simp add: new_line_def is_ws_def list_all_iff)

lemma ends_number_new_line [simp]: "ends_number (new_line n @ r)"
  by (simp add: new_line_def)

lemma read_value_ws: "list_all is_ws w \<Longrightarrow> read_value n d (w @ s) = read_value n d s"
  by (cases n) (simp_all add: skip_ws_append)

lemma read_members_ws: "list_all is_ws w \<Longrightarrow> read_members n d (w @ s) = read_members n d s"
  by (cases n) (simp_all add: skip_ws_append)

lemma read_elems_ws: "list_all is_ws w \<Longrightarrow> read_elems n d (w @ s) = read_elems n d s"
  by (cases n) (simp_all add: read_value_ws)

lemmas skip_new_line = skip_ws_append [OF new_line_ws] read_value_ws [OF new_line_ws]
  read_members_ws [OF new_line_ws] read_elems_ws [OF new_line_ws]

section \<open>Reading back\<close>

definition reads_text :: "json \<Rightarrow> string \<Rightarrow> bool" where
  "reads_text v t =
     (\<forall>n d r. json_fuel v \<le> n \<longrightarrow> json_depth v \<le> d \<longrightarrow> ends_number r \<longrightarrow> read_value n d (t @ r) = Some (v, r))"

lemma reads_textD:
  "reads_text v t \<Longrightarrow> json_fuel v \<le> n \<Longrightarrow> json_depth v \<le> d \<Longrightarrow> ends_number r \<Longrightarrow>
   read_value n d (t @ r) = Some (v, r)"
  by (simp add: reads_text_def)

lemma read_elems_indent:
  assumes "vs \<noteq> []" and "\<forall>v \<in> set vs. reads_text v (f v) \<and> json_depth v \<le> d"
    and "fuel_list (map json_fuel vs) \<le> n"
  shows "read_elems n d (join ('','' @ new_line i) (map f vs) @ new_line j @ '']'' @ r) = Some (vs, r)"
  using assms
proof (induction vs arbitrary: n)
  case (Cons v vs)
  then obtain m where m: "n = Suc m" by (cases n) auto
  have f: "json_fuel v \<le> m" "fuel_list (map json_fuel vs) \<le> m" using Cons.prems(3) m by simp_all
  have v: "reads_text v (f v)" "json_depth v \<le> d" "\<forall>v \<in> set vs. reads_text v (f v) \<and> json_depth v \<le> d"
    using Cons.prems(2) by simp_all
  show ?case
  proof (cases "vs = []")
    case True
    then show ?thesis using m f v by (simp add: reads_textD skip_new_line is_ws_def)
  next
    case False
    then show ?thesis
      using m f v(1,2) Cons.IH [OF False v(3), of m]
      by (simp add: join_Cons reads_textD skip_new_line is_ws_def)
  qed
qed simp

lemma read_members_indent:
  assumes "ms \<noteq> []" and "\<forall>(k, v) \<in> set ms. utf8_ok k \<and> reads_text v (f v) \<and> json_depth v \<le> d"
    and "fuel_list (map (\<lambda>(k, v). json_fuel v) ms) \<le> n"
  shows "read_members n d (join ('','' @ new_line i) (map (\<lambda>(k, v). json_quote k @ '': '' @ f v) ms)
           @ new_line j @ ''}'' @ r) = Some (ms, r)"
  using assms
proof (induction ms arbitrary: n)
  case (Cons kv ms)
  obtain k v where kv: "kv = (k, v)" by (cases kv)
  from Cons kv obtain m where m: "n = Suc m" by (cases n) auto
  have f: "json_fuel v \<le> m" "fuel_list (map (\<lambda>(k, v). json_fuel v) ms) \<le> m"
    using Cons.prems(3) m kv by simp_all
  have v: "utf8_ok k" "reads_text v (f v)" "json_depth v \<le> d" using Cons.prems(2) kv by simp_all
  have q: "\<not> is_ws dquote" by (simp add: is_ws_def dquote_def)
  have sp: "read_value m d (CHR '' '' # s) = read_value m d s" for s
    using read_value_ws [of "'' ''" m d s] by (simp add: is_ws_def)
  show ?case
  proof (cases "ms = []")
    case True
    then show ?thesis
      using m f v q kv sp
      by (simp add: json_quote_def read_string_quote reads_textD skip_new_line is_ws_def [of "CHR '':''"]
          is_ws_def [of "CHR ''}''"])
  next
    case False
    then show ?thesis
      using m f v q kv sp Cons.IH [OF False, of m] Cons.prems(2)
      by (simp add: join_Cons json_quote_def read_string_quote reads_textD skip_new_line is_ws_def [of "CHR '':''"]
          is_ws_def [of "CHR '',''"])
  qed
qed simp

lemma json_indent_head: "json_clean v \<Longrightarrow> \<exists>c s. json_indent n v = c # s \<and> \<not> is_ws c \<and> c \<noteq> CHR '']''"
proof (cases "\<exists>vs. v = JArr vs \<or> (\<exists>ms. v = JObj ms)")
  case False
  moreover assume "json_clean v"
  ultimately show ?thesis using json_print_head [of v] by (cases v) auto
qed (auto simp: is_ws_def)

lemma reads_text_atom:
  assumes "json_clean v" and "\<nexists>vs. v = JArr vs" and "\<nexists>ms. v = JObj ms"
  shows "reads_text v (json_indent n v)"
  using json_clean_reads_back [OF assms(1)] assms(2,3)
  by (cases v) (simp_all add: reads_back_def reads_text_def)

lemma reads_text_JArr:
  assumes "\<forall>v \<in> set vs. reads_text v (json_indent (Suc n) v) \<and> json_clean v"
  shows "reads_text (JArr vs) (json_indent n (JArr vs))"
  unfolding reads_text_def
proof (intro allI impI)
  fix m d r assume m: "json_fuel (JArr vs) \<le> m" and d: "json_depth (JArr vs) \<le> d"
  obtain k where k: "m = Suc k" using m by (cases m) auto
  obtain e where e: "d = Suc e" "\<forall>v \<in> set vs. json_depth v \<le> e" using depth_arr [OF d] by blast
  let ?body = "join ('','' @ new_line (Suc n)) (map (json_indent (Suc n)) vs)"
  show "read_value m d (json_indent n (JArr vs) @ r) = Some (JArr vs, r)"
  proof (cases vs)
    case Nil
    then show ?thesis using k e by (simp add: is_ws_def dquote_def)
  next
    case (Cons v ws)
    then obtain c s where cs: "json_indent (Suc n) v = c # s" "\<not> is_ws c" "c \<noteq> CHR '']''"
      using json_indent_head [of v "Suc n"] assms by auto
    have "read_elems k e (?body @ new_line n @ '']'' @ r) = Some (vs, r)"
      using m k e assms Cons by (intro read_elems_indent) auto
    moreover obtain t where "?body = c # t"
      using join_head [of "'','' @ new_line (Suc n)" c s "map (json_indent (Suc n)) ws"] cs Cons by auto
    ultimately show ?thesis
      using k e cs Cons by (simp add: is_ws_def [of "CHR ''[''"] dquote_def skip_new_line)
  qed
qed

lemma reads_text_JObj:
  assumes "\<forall>(k, v) \<in> set ms. utf8_ok k \<and> reads_text v (json_indent (Suc n) v)"
  shows "reads_text (JObj ms) (json_indent n (JObj ms))"
  unfolding reads_text_def
proof (intro allI impI)
  fix m d r assume m: "json_fuel (JObj ms) \<le> m" and d: "json_depth (JObj ms) \<le> d"
  obtain k where k: "m = Suc k" using m by (cases m) auto
  obtain e where e: "d = Suc e" "\<forall>(k, v) \<in> set ms. json_depth v \<le> e" using depth_obj [OF d] by blast
  let ?member = "\<lambda>(k, v). json_quote k @ '': '' @ json_indent (Suc n) v"
  let ?body = "join ('','' @ new_line (Suc n)) (map ?member ms)"
  show "read_value m d (json_indent n (JObj ms) @ r) = Some (JObj ms, r)"
  proof (cases ms)
    case Nil
    then show ?thesis using k e by (simp add: is_ws_def dquote_def)
  next
    case (Cons kv ws)
    have "read_members k e (?body @ new_line n @ ''}'' @ r) = Some (ms, r)"
      using m k e assms Cons by (intro read_members_indent) auto
    moreover obtain t where "?body = dquote # t"
      using join_head [of "'','' @ new_line (Suc n)" dquote _ "map ?member ws"] Cons
      by (cases kv) (auto simp: json_quote_def)
    moreover have "\<not> is_ws (CHR 0x22)" by (simp add: is_ws_def)
    ultimately show ?thesis
      using k e Cons by (simp add: is_ws_def [of "CHR ''{''"] dquote_def skip_new_line)
  qed
qed

lemma json_indent_reads: "json_clean v \<Longrightarrow> reads_text v (json_indent n v)"
proof (induction n v rule: json_indent.induct)
  case (1 n vs)
  then show ?case by (intro reads_text_JArr) (fastforce simp: list_all_iff)
next
  case (2 n ms)
  then show ?case by (intro reads_text_JObj) (fastforce simp: list_all_iff)
qed (simp_all add: reads_text_atom del: json_indent.simps)

lemma join_length:
  "list_all2 (\<lambda>s t. length s \<le> length t) ss ts \<Longrightarrow> length a \<le> length b \<Longrightarrow>
   length (join a ss) \<le> length (join b ts)"
proof (induction a ss arbitrary: ts rule: join.induct)
  case (3 sep s t r)
  then obtain u us where "ts = u # us" "length s \<le> length u" "list_all2 (\<lambda>s t. length s \<le> length t) (t # r) us"
    by (auto simp: list_all2_Cons1)
  with "3.IH" [of us] "3.prems"(2) have "length (join sep (t # r)) \<le> length (join b us)" "us \<noteq> []"
    by auto
  then show ?case using \<open>ts = u # us\<close> \<open>length s \<le> length u\<close> "3.prems"(2) by (simp add: join_Cons)
qed (auto simp: list_all2_Cons1)

lemma json_indent_length: "length (json_print v) \<le> length (json_indent n v)"
proof (induction n v rule: json_indent.induct)
  case (1 n vs)
  have "length (join '','' (map json_print vs)) \<le> length (join ('','' @ new_line (Suc n)) (map (json_indent (Suc n)) vs))"
    using 1 by (intro join_length) (fastforce simp: list_all2_map1 list_all2_map2 list_all2_same)+
  then show ?case by simp
next
  case (2 n ms)
  have "length (join '','' (map print_member ms))
      \<le> length (join ('','' @ new_line (Suc n)) (map (\<lambda>(k, v). json_quote k @ '': '' @ json_indent (Suc n) v) ms))"
    using 2 by (intro join_length) (fastforce simp: list_all2_map1 list_all2_map2 list_all2_same split: prod.split)+
  then show ?case by simp
qed simp_all

text \<open>A file written with \<open>MarshalIndent\<close> and a final new line reads back as the value.\<close>

lemma read_indent:
  assumes "json_clean v" and "json_depth v \<le> max_depth"
  shows "read_value (2 * length (json_indent 0 v @ ''\<newline>'') + 1) max_depth (json_indent 0 v @ ''\<newline>'')
         = Some (v, ''\<newline>'')"
proof -
  have "json_fuel v \<le> 2 * length (json_indent 0 v @ ''\<newline>'') + 1"
    using json_fuel_length [OF assms(1)] json_indent_length [of v 0] by simp
  then show ?thesis using json_indent_reads [OF assms(1)] assms(2) by (intro reads_textD) auto
qed

lemma json_unmarshal_indent:
  "json_clean v \<Longrightarrow> json_depth v \<le> max_depth \<Longrightarrow> json_unmarshal (json_indent 0 v @ ''\<newline>'') = Some v"
  using read_indent [of v] by (simp add: json_unmarshal_def is_ws_def)

lemma json_decode_indent:
  "json_clean v \<Longrightarrow> json_depth v \<le> max_depth \<Longrightarrow> json_decode (json_indent 0 v @ ''\<newline>'') = Some v"
  using read_indent [of v] by (simp add: json_decode_def)

end
