(* ===== verification/Devtool.thy ===== *)
theory Devtool
  imports Psd Json_Indent Go_Flag
begin

text \<open>
  The wallet stand-in \<open>cmd/devtool/main.go\<close>: key files, and the commands that sign
  authorizations, grants and approvals and ask the daemon to revoke. Each command is a function of
  the files and its flags; it ends with the files it leaves (or the text it prints) or exits with an
  error. Progress messages are left out, and writing a file does not fail.
\<close>

section \<open>The elliptic-curve functions\<close>

text \<open>
  What the tool calls of go-ethereum's \<open>crypto\<close>: \<open>HexToECDSA\<close>, \<open>FromECDSA\<close>, the public
  key of a private key and \<open>Sign\<close>; and \<open>time.Time\<close>'s JSON parser, which needs the time zone
  tables.
\<close>

record wallet =
  EcdsaHex :: "string \<Rightarrow> bytes option"
  EcdsaBytes :: "bytes \<Rightarrow> bytes"
  EcdsaPublic :: "bytes \<Rightarrow> bytes"
  EcdsaSign :: "bytes \<Rightarrow> bytes \<Rightarrow> bytes option"
  ParseTime :: "string \<Rightarrow> time option"

text \<open>The documented law of signing: recovery from a signature gives the signer's public key.\<close>

definition ecdsa_law :: "ext \<Rightarrow> wallet \<Rightarrow> bytes \<Rightarrow> bool" where
  "ecdsa_law E W priv =
     (\<forall>d. length d = 32 \<longrightarrow>
        (\<exists>sig. EcdsaSign W d priv = Some sig \<and> length sig = 65 \<and> char_val (sig ! 64) \<in> {0, 1}
           \<and> SigToPub E d sig = Some (EcdsaPublic W priv)))"

section \<open>Files\<close>

type_synonym files = "string \<rightharpoonup> bytes"

text \<open>\<open>check\<close> and \<open>fatal\<close> exit with status 1, a usage error with 2.\<close>

datatype exit = CheckFailed | FatalExit string | UsageExit | FlagExit flag_exit

definition readJSONFile :: "files \<Rightarrow> string \<Rightarrow> (json \<Rightarrow> 'a option) \<Rightarrow> exit + 'a" where
  "readJSONFile fs path of_json =
     (case fs path of
        None \<Rightarrow> Inl CheckFailed
      | Some b \<Rightarrow>
          (case json_unmarshal b of
             None \<Rightarrow> Inl CheckFailed
           | Some v \<Rightarrow> (case of_json v of None \<Rightarrow> Inl CheckFailed | Some x \<Rightarrow> Inr x)))"

definition writeJSONFile :: "files \<Rightarrow> string \<Rightarrow> json \<Rightarrow> files" where
  "writeJSONFile fs path v = fs(path \<mapsto> json_indent 0 v @ ''\<newline>'')"

record rootFile =
  rf_Address :: string
  rf_Priv :: string

definition rootFile_json :: "rootFile \<Rightarrow> json" where
  "rootFile_json f = JObj [(''address'', JStr (rf_Address f)), (''priv'', JStr (rf_Priv f))]"

definition rootFile_of_json :: "json \<Rightarrow> rootFile option" where
  "rootFile_of_json =
     into_struct
       [(''address'', into_string (\<lambda>x f. f\<lparr>rf_Address := x\<rparr>)),
        (''priv'', into_string (\<lambda>x f. f\<lparr>rf_Priv := x\<rparr>))]
       \<lparr>rf_Address = [], rf_Priv = []\<rparr>"

record agentFile =
  af_ID :: string
  af_JWK :: JWK
  af_Thumbprint :: string
  af_Priv :: string

definition agentFile_json :: "agentFile \<Rightarrow> json" where
  "agentFile_json f = JObj
     [(''id'', JStr (af_ID f)), (''jwk'', JWK_json (af_JWK f)), (''thumbprint'', JStr (af_Thumbprint f)),
      (''priv'', JStr (af_Priv f))]"

definition agentFile_of_json :: "json \<Rightarrow> agentFile option" where
  "agentFile_of_json =
     into_struct
       [(''id'', into_string (\<lambda>x f. f\<lparr>af_ID := x\<rparr>)),
        (''jwk'', into_record JWK_fields (\<lambda>x f. f\<lparr>af_JWK := x\<rparr>) af_JWK),
        (''thumbprint'', into_string (\<lambda>x f. f\<lparr>af_Thumbprint := x\<rparr>)),
        (''priv'', into_string (\<lambda>x f. f\<lparr>af_Priv := x\<rparr>))]
       \<lparr>af_ID = [], af_JWK = JWK_zero, af_Thumbprint = [], af_Priv = []\<rparr>"

section \<open>Keys\<close>

text \<open>\<open>generated\<close> is what the key generator returned.\<close>

definition genRoot :: "ext \<Rightarrow> wallet \<Rightarrow> files \<Rightarrow> bytes option \<Rightarrow> exit + files" where
  "genRoot E W fs generated =
     (case generated of
        None \<Rightarrow> Inl CheckFailed
      | Some priv \<Rightarrow>
          Inr (writeJSONFile fs ''testroot.json''
            (rootFile_json \<lparr>rf_Address = PubkeyToAddressHex E (EcdsaPublic W priv),
                            rf_Priv = hex_encode (EcdsaBytes W priv)\<rparr>)))"

text \<open>An Ed25519 private key is its 32-byte seed followed by the public key.\<close>

definition genAgent :: "ext \<Rightarrow> files \<Rightarrow> string \<Rightarrow> string \<Rightarrow> (bytes \<times> bytes) option \<Rightarrow> exit + files" where
  "genAgent E fs agentID out generated =
     (if agentID = [] then Inl (FatalExit ''gen-agent: --id required'')
      else case generated of
             None \<Rightarrow> Inl CheckFailed
           | Some (pub, priv) \<Rightarrow>
               (let jwk = \<lparr>Kty = ''OKP'', Crv = ''Ed25519'', X = b64_raw True pub\<rparr> in
                Inr (writeJSONFile fs out
                  (agentFile_json \<lparr>af_ID = agentID, af_JWK = jwk, af_Thumbprint = Thumbprint E jwk,
                                   af_Priv = b64_raw True (take 32 priv)\<rparr>))))"

definition devtool_thumb :: "ext \<Rightarrow> files \<Rightarrow> string \<Rightarrow> exit + string" where
  "devtool_thumb E fs agentPath =
     (case readJSONFile fs agentPath agentFile_of_json of
        Inl x \<Rightarrow> Inl x | Inr af \<Rightarrow> Inr (Thumbprint E (af_JWK af)))"

definition loadRoot :: "files \<Rightarrow> string \<Rightarrow> exit + rootFile" where
  "loadRoot fs path =
     (case readJSONFile fs path rootFile_of_json of
        Inl x \<Rightarrow> Inl x
      | Inr rf \<Rightarrow> if rf_Priv rf = [] then Inl (FatalExit (''root file missing priv: '' @ path)) else Inr rf)"

definition signDigest :: "wallet \<Rightarrow> files \<Rightarrow> string \<Rightarrow> bytes \<Rightarrow> exit + bytes" where
  "signDigest W fs rootPath digest =
     (case loadRoot fs rootPath of
        Inl x \<Rightarrow> Inl x
      | Inr rf \<Rightarrow>
          (case EcdsaHex W (rf_Priv rf) of
             None \<Rightarrow> Inl CheckFailed
           | Some priv \<Rightarrow>
               (case EcdsaSign W digest priv of None \<Rightarrow> Inl CheckFailed | Some sig \<Rightarrow> Inr sig)))"

definition mustHex :: "string \<Rightarrow> exit + bytes" where
  "mustHex s =
     (let s1 = (if length s \<ge> 2 \<and> (take 2 s = ''0x'' \<or> take 2 s = ''0X'') then drop 2 s else s) in
      case hex_decode s1 of (b, ok) \<Rightarrow> if ok then Inr b else Inl CheckFailed)"

definition devtool_hexStr :: "bytes \<Rightarrow> string" where
  "devtool_hexStr b = ''0x'' @ hex_encode b"

section \<open>Signing\<close>

definition signPSA :: "ext \<Rightarrow> wallet \<Rightarrow> files \<Rightarrow> string \<Rightarrow> string \<Rightarrow> exit + files" where
  "signPSA E W fs rootPath psaPath =
     (case readJSONFile fs psaPath PSA_of_json of
        Inl x \<Rightarrow> Inl x
      | Inr psa0 \<Rightarrow>
          (case (if psa_Root psa0 = []
                 then (case loadRoot fs rootPath of
                         Inl x \<Rightarrow> Inl x | Inr rf \<Rightarrow> Inr (psa0\<lparr>psa_Root := rf_Address rf\<rparr>))
                 else Inr psa0) of
             Inl x \<Rightarrow> Inl x
           | Inr psa \<Rightarrow>
               (case PSADigest E psa of
                  None \<Rightarrow> Inl CheckFailed
                | Some digest \<Rightarrow>
                    (case signDigest W fs rootPath digest of
                       Inl x \<Rightarrow> Inl x
                     | Inr sig \<Rightarrow> Inr (writeJSONFile fs psaPath (PSA_json (psa\<lparr>psa_Signature := Some sig\<rparr>)))))))"

text \<open>With \<open>--agent\<close> the grant's identifier, thumbprint and key are those of the agent file.\<close>

definition grant_for_agent :: "ext \<Rightarrow> files \<Rightarrow> string \<Rightarrow> AgentGrant \<Rightarrow> exit + AgentGrant" where
  "grant_for_agent E fs agentPath g =
     (if agentPath = [] then Inr g
      else case readJSONFile fs agentPath agentFile_of_json of
             Inl x \<Rightarrow> Inl x
           | Inr af \<Rightarrow>
               Inr (g\<lparr>ag_AgentIdentifier := af_ID af, ag_AgentThumbprint := Thumbprint E (af_JWK af),
                      ag_AgentPubKey := X (af_JWK af)\<rparr>))"

definition signGrant :: "ext \<Rightarrow> wallet \<Rightarrow> files \<Rightarrow> string \<Rightarrow> string \<Rightarrow> string \<Rightarrow> exit + files" where
  "signGrant E W fs rootPath grantPath agentPath =
     (case readJSONFile fs grantPath AgentGrant_of_json of
        Inl x \<Rightarrow> Inl x
      | Inr g0 \<Rightarrow>
          (case (if ag_Root g0 = []
                 then (case loadRoot fs rootPath of
                         Inl x \<Rightarrow> Inl x | Inr rf \<Rightarrow> Inr (g0\<lparr>ag_Root := rf_Address rf\<rparr>))
                 else Inr g0) of
             Inl x \<Rightarrow> Inl x
           | Inr g1 \<Rightarrow>
               (case grant_for_agent E fs agentPath g1 of
                  Inl x \<Rightarrow> Inl x
                | Inr g \<Rightarrow>
                    (case AgentGrantDigest E g of
                       None \<Rightarrow> Inl CheckFailed
                     | Some digest \<Rightarrow>
                         (case signDigest W fs rootPath digest of
                            Inl x \<Rightarrow> Inl x
                          | Inr sig \<Rightarrow>
                              Inr (writeJSONFile fs grantPath (AgentGrant_json (g\<lparr>ag_Signature := Some sig\<rparr>))))))))"

text \<open>
  A request as \<open>GET /approve/{code}\<close> shows it. The digest reads neither the tier nor the state, so
  of these the model only checks the JSON type; times are read by \<open>ParseTime\<close>.
\<close>

definition into_time :: "wallet \<Rightarrow> (time \<Rightarrow> 'a \<Rightarrow> 'a) \<Rightarrow> 'a setter" where
  "into_time W upd v a =
     (case v of
        JNull \<Rightarrow> Some a
      | JStr s \<Rightarrow> (case ParseTime W s of None \<Rightarrow> None | Some t \<Rightarrow> Some (upd t a))
      | _ \<Rightarrow> None)"

definition Request_zero :: Request where
  "Request_zero =
     \<lparr>rq_ID = [], rq_Code = [], rq_AgentID = [], rq_Resource = [], rq_AmountWei = [], rq_ScopeReq = None,
      rq_MissionS256 = [], rq_Tier = TierRoutine, rq_State = StatePending, rq_CreatedAt = 0,
      rq_ExpiresAt = 0, rq_ResourceJSON = [], rq_StepUpSig = None\<rparr>"

definition Request_of_json :: "wallet \<Rightarrow> json \<Rightarrow> Request option" where
  "Request_of_json W =
     into_struct
       [(''ID'', into_string (\<lambda>x q. q\<lparr>rq_ID := x\<rparr>)),
        (''Code'', into_string (\<lambda>x q. q\<lparr>rq_Code := x\<rparr>)),
        (''AgentID'', into_string (\<lambda>x q. q\<lparr>rq_AgentID := x\<rparr>)),
        (''Resource'', into_string (\<lambda>x q. q\<lparr>rq_Resource := x\<rparr>)),
        (''AmountWei'', into_string (\<lambda>x q. q\<lparr>rq_AmountWei := x\<rparr>)),
        (''ScopeReq'', into_strings (\<lambda>x q. q\<lparr>rq_ScopeReq := x\<rparr>)),
        (''MissionS256'', into_string (\<lambda>x q. q\<lparr>rq_MissionS256 := x\<rparr>)),
        (''Tier'', into_int64 (\<lambda>n q. q)),
        (''State'', into_string (\<lambda>x q. q)),
        (''CreatedAt'', into_time W (\<lambda>t q. q\<lparr>rq_CreatedAt := t\<rparr>)),
        (''ExpiresAt'', into_time W (\<lambda>t q. q\<lparr>rq_ExpiresAt := t\<rparr>)),
        (''ResourceJSON'', into_bytes (\<lambda>x q. q\<lparr>rq_ResourceJSON := (case x of None \<Rightarrow> [] | Some b \<Rightarrow> b)\<rparr>)),
        (''StepUpSig'', into_bytes (\<lambda>x q. q\<lparr>rq_StepUpSig := x\<rparr>))]
       Request_zero"

definition approval_digest :: "ext \<Rightarrow> wallet \<Rightarrow> files \<Rightarrow> string \<Rightarrow> string \<Rightarrow> int \<Rightarrow> string \<Rightarrow> exit + bytes" where
  "approval_digest E W fs reqPath digestHex chainID addr =
     (if digestHex \<noteq> []
      then (case mustHex digestHex of
              Inl x \<Rightarrow> Inl x
            | Inr b \<Rightarrow>
                if length b \<noteq> 32 then Inl (FatalExit ''sign-approval: --digest must be 32 bytes'') else Inr b)
      else if reqPath \<noteq> []
      then (case readJSONFile fs reqPath (Request_of_json W) of
              Inl x \<Rightarrow> Inl x
            | Inr req \<Rightarrow>
                (case ApprovalDigest E req chainID addr of None \<Rightarrow> Inl CheckFailed | Some d \<Rightarrow> Inr d))
      else Inl (FatalExit ''sign-approval: one of --request or --digest is required''))"

definition signApproval ::
  "ext \<Rightarrow> wallet \<Rightarrow> files \<Rightarrow> string \<Rightarrow> string \<Rightarrow> string \<Rightarrow> int \<Rightarrow> string \<Rightarrow> exit + string" where
  "signApproval E W fs rootPath reqPath digestHex chainID addr =
     (case approval_digest E W fs reqPath digestHex chainID addr of
        Inl x \<Rightarrow> Inl x
      | Inr digest \<Rightarrow>
          (case signDigest W fs rootPath digest of Inl x \<Rightarrow> Inl x | Inr sig \<Rightarrow> Inr (devtool_hexStr sig)))"

section \<open>Revocation\<close>

definition revoke_url :: "string \<Rightarrow> string \<Rightarrow> 64 word \<Rightarrow> string" where
  "revoke_url base root nonce =
     base @ ''/dev/revoke?root='' @ QueryEscape root @ ''&nonce='' @ show_nat (unat nonce)"

text \<open>\<open>post\<close> is what a POST to a URL gives: a transport error or the status of the reply.\<close>

definition devtool_revoke ::
  "files \<Rightarrow> string \<Rightarrow> 64 word \<Rightarrow> string \<Rightarrow> (string \<Rightarrow> string + nat) \<Rightarrow> exit + unit" where
  "devtool_revoke fs rootPath nonce base post =
     (case loadRoot fs rootPath of
        Inl x \<Rightarrow> Inl x
      | Inr rf \<Rightarrow>
          (case post (revoke_url base (rf_Address rf) nonce) of
             Inl _ \<Rightarrow> Inl CheckFailed
           | Inr status \<Rightarrow> if status \<noteq> 200 then Inl (FatalExit ''revoke: PS returned an error'') else Inr ()))"

section \<open>The command line\<close>

text \<open>The flags of all commands, with their defaults; each command declares its own.\<close>

record flags =
  fl_root :: string
  fl_psa :: string
  fl_grant :: string
  fl_agent :: string
  fl_request :: string
  fl_digest :: string
  fl_chain :: int
  fl_registry :: string
  fl_nonce :: "64 word"
  fl_ps :: string
  fl_id :: string
  fl_out :: string

definition flag_defaults :: flags where
  "flag_defaults =
     \<lparr>fl_root = ''testroot.json'', fl_psa = ''psa.json'', fl_grant = ''grant.json'', fl_agent = [],
      fl_request = [], fl_digest = [], fl_chain = 8453,
      fl_registry = ''0x0000000000000000000000000000000000000000'', fl_nonce = 0,
      fl_ps = ''http://localhost:8090'', fl_id = [], fl_out = ''agent.json''\<rparr>"

definition root_flag :: "string \<times> flags flag" where
  "root_flag = (''root'', string_flag (\<lambda>x f. f\<lparr>fl_root := x\<rparr>))"

definition agent_flag :: "string \<times> flags flag" where
  "agent_flag = (''agent'', string_flag (\<lambda>x f. f\<lparr>fl_agent := x\<rparr>))"

definition genAgent_flags :: "(string \<times> flags flag) list" where
  "genAgent_flags =
     [(''id'', string_flag (\<lambda>x f. f\<lparr>fl_id := x\<rparr>)), (''out'', string_flag (\<lambda>x f. f\<lparr>fl_out := x\<rparr>))]"

definition signPSA_flags :: "(string \<times> flags flag) list" where
  "signPSA_flags = [root_flag, (''psa'', string_flag (\<lambda>x f. f\<lparr>fl_psa := x\<rparr>))]"

definition signGrant_flags :: "(string \<times> flags flag) list" where
  "signGrant_flags = [root_flag, (''grant'', string_flag (\<lambda>x f. f\<lparr>fl_grant := x\<rparr>)), agent_flag]"

definition signApproval_flags :: "(string \<times> flags flag) list" where
  "signApproval_flags =
     [root_flag, (''request'', string_flag (\<lambda>x f. f\<lparr>fl_request := x\<rparr>)),
      (''digest'', string_flag (\<lambda>x f. f\<lparr>fl_digest := x\<rparr>)), (''chain'', int64_flag (\<lambda>x f. f\<lparr>fl_chain := x\<rparr>)),
      (''registry'', string_flag (\<lambda>x f. f\<lparr>fl_registry := x\<rparr>))]"

definition revoke_flags :: "(string \<times> flags flag) list" where
  "revoke_flags =
     [root_flag, (''nonce'', uint64_flag (\<lambda>x f. f\<lparr>fl_nonce := x\<rparr>)), (''ps'', string_flag (\<lambda>x f. f\<lparr>fl_ps := x\<rparr>))]"

text \<open>
  A run leaves files and prints a text, or exits. What it draws from its surroundings: the key
  generators and what a POST to a URL gives, a transport error or the status of the reply.
\<close>

record machine =
  RootKey :: "bytes option"
  AgentKey :: "(bytes \<times> bytes) option"
  HttpPost :: "string \<Rightarrow> string + nat"

type_synonym outcome = "exit + files \<times> string"

definition wrote :: "exit + files \<Rightarrow> outcome" where
  "wrote res = (case res of Inl x \<Rightarrow> Inl x | Inr fs \<Rightarrow> Inr (fs, []))"

definition printed :: "files \<Rightarrow> exit + string \<Rightarrow> outcome" where
  "printed fs res = (case res of Inl x \<Rightarrow> Inl x | Inr out \<Rightarrow> Inr (fs, out @ ''\<newline>''))"

definition with_flags ::
  "(string \<times> flags flag) list \<Rightarrow> string list \<Rightarrow> flags \<Rightarrow> (flags \<Rightarrow> outcome) \<Rightarrow> outcome" where
  "with_flags fls argv defaults run =
     (case parse_flags fls argv defaults of Inl x \<Rightarrow> Inl (FlagExit x) | Inr f \<Rightarrow> run f)"

definition devtool :: "ext \<Rightarrow> wallet \<Rightarrow> machine \<Rightarrow> files \<Rightarrow> string list \<Rightarrow> outcome" where
  "devtool E W M fs args =
     (if length args < 2 then Inl UsageExit
      else let name = args ! 1; argv = drop 2 args in
        if name = ''gen-root'' then wrote (genRoot E W fs (RootKey M))
        else if name = ''gen-agent''
        then with_flags genAgent_flags argv flag_defaults
               (\<lambda>f. wrote (genAgent E fs (fl_id f) (fl_out f) (AgentKey M)))
        else if name = ''sign-psa''
        then with_flags signPSA_flags argv flag_defaults (\<lambda>f. wrote (signPSA E W fs (fl_root f) (fl_psa f)))
        else if name = ''sign-grant''
        then with_flags signGrant_flags argv flag_defaults
               (\<lambda>f. wrote (signGrant E W fs (fl_root f) (fl_grant f) (fl_agent f)))
        else if name = ''sign-approval''
        then with_flags signApproval_flags argv flag_defaults
               (\<lambda>f. printed fs (signApproval E W fs (fl_root f) (fl_request f) (fl_digest f) (fl_chain f) (fl_registry f)))
        else if name = ''revoke''
        then with_flags revoke_flags argv flag_defaults
               (\<lambda>f. case devtool_revoke fs (fl_root f) (fl_nonce f) (fl_ps f) (HttpPost M) of
                      Inl x \<Rightarrow> Inl x | Inr _ \<Rightarrow> Inr (fs, []))
        else if name = ''thumb''
        then with_flags [agent_flag] argv (flag_defaults\<lparr>fl_agent := ''agent.json''\<rparr>)
               (\<lambda>f. printed fs (devtool_thumb E fs (fl_agent f)))
        else Inl UsageExit)"

lemma signPSA_command:
  "devtool E W M fs [prog, ''sign-psa'', ''--root'', rootPath, ''--psa'', psaPath] = wrote (signPSA E W fs rootPath psaPath)"
proof -
  have "parse_flags signPSA_flags [''--root'', rootPath, ''--psa'', psaPath] flag_defaults
      = Inr (flag_defaults\<lparr>fl_root := rootPath, fl_psa := psaPath\<rparr>)"
    using parse_flags_value [of "''root''" signPSA_flags _ rootPath "[''--psa'', psaPath]" flag_defaults]
      parse_flags_value [of "''psa''" signPSA_flags _ psaPath "[]"]
    by (simp add: signPSA_flags_def root_flag_def string_flag_def)
  then show ?thesis by (simp add: devtool_def with_flags_def)
qed

lemma signApproval_command:
  assumes "- (2 ^ 63) \<le> c" and "c < 2 ^ 63"
  shows "devtool E W M fs [prog, ''sign-approval'', ''--root'', rootPath, ''--request'', reqPath,
      ''--chain'', show_int c, ''--registry'', addr]
    = printed fs (signApproval E W fs rootPath reqPath [] c addr)"
proof -
  let ?args3 = "[''--registry'', addr]" and ?f1 = "flag_defaults\<lparr>fl_root := rootPath\<rparr>"
  let ?args2 = "''--chain'' # show_int c # ?args3" and ?f2 = "?f1\<lparr>fl_request := reqPath\<rparr>"
  have "parse_flags signApproval_flags (''--root'' # rootPath # ''--request'' # reqPath # ?args2) flag_defaults
      = Inr (?f2\<lparr>fl_chain := c, fl_registry := addr\<rparr>)"
    using parse_flags_value [of "''root''" signApproval_flags _ rootPath "''--request'' # reqPath # ?args2" flag_defaults]
      parse_flags_value [of "''request''" signApproval_flags _ reqPath ?args2 ?f1]
      parse_flags_value [of "''chain''" signApproval_flags _ "show_int c" ?args3 ?f2]
      parse_flags_value [of "''registry''" signApproval_flags _ addr "[]" "?f2\<lparr>fl_chain := c\<rparr>"]
      parse_int64_show [OF assms]
    by (simp add: signApproval_flags_def root_flag_def string_flag_def int64_flag_def)
  then show ?thesis by (simp add: devtool_def with_flags_def flag_defaults_def)
qed

lemma revoke_command:
  "devtool E W M fs [prog, ''revoke'', ''--root'', rootPath, ''--nonce'', show_nat (unat n), ''--ps'', base]
    = (case devtool_revoke fs rootPath n base (HttpPost M) of Inl x \<Rightarrow> Inl x | Inr _ \<Rightarrow> Inr (fs, []))"
proof -
  let ?f1 = "flag_defaults\<lparr>fl_root := rootPath\<rparr>"
  have "unat n < 2 ^ LENGTH(64)" by (rule unsigned_less)
  then have "unat n < 2 ^ 64" by simp
  then have "parse_flags revoke_flags [''--root'', rootPath, ''--nonce'', show_nat (unat n), ''--ps'', base] flag_defaults
      = Inr (?f1\<lparr>fl_nonce := n, fl_ps := base\<rparr>)"
    using parse_flags_value [of "''root''" revoke_flags _ rootPath "[''--nonce'', show_nat (unat n), ''--ps'', base]" flag_defaults]
      parse_flags_value [of "''nonce''" revoke_flags _ "show_nat (unat n)" "[''--ps'', base]" ?f1]
      parse_flags_value [of "''ps''" revoke_flags _ base "[]" "?f1\<lparr>fl_nonce := n\<rparr>"] parse_uint64_show
    by (simp add: revoke_flags_def root_flag_def string_flag_def uint64_flag_def)
  then show ?thesis by (simp add: devtool_def with_flags_def)
qed

section \<open>What the tool signs verifies\<close>

text \<open>A file the tool wrote is read back, by the tool and by the server.\<close>

lemma written_read:
  assumes "json_clean v" and "json_depth v \<le> max_depth" and "of_json v = Some x"
  shows "readJSONFile (writeJSONFile fs path v) path of_json = Inr x"
    "Option.bind (json_decode (the (writeJSONFile fs path v path))) of_json = Some x"
  using assms json_unmarshal_indent json_decode_indent by (simp_all add: readJSONFile_def writeJSONFile_def)

text \<open>The root file holds a working key for the address.\<close>

definition holds_root :: "ext \<Rightarrow> wallet \<Rightarrow> files \<Rightarrow> string \<Rightarrow> string \<Rightarrow> bool" where
  "holds_root E W fs rootPath root =
     (\<exists>rf priv. loadRoot fs rootPath = Inr rf \<and> rf_Address rf = root \<and> EcdsaHex W (rf_Priv rf) = Some priv
        \<and> PubkeyToAddressHex E (EcdsaPublic W priv) = root \<and> ecdsa_law E W priv)"

lemma rootFile_read: "rootFile_of_json (rootFile_json f) = Some f"
  by (cases f) (simp add: rootFile_of_json_def rootFile_json_def find_field_def)

lemma genRoot_holds:
  assumes "ecdsa_law E W priv" and "EcdsaHex W (hex_encode (EcdsaBytes W priv)) = Some priv"
    and "EcdsaBytes W priv \<noteq> []" and "utf8_ok (PubkeyToAddressHex E (EcdsaPublic W priv))"
  obtains fs' where "genRoot E W fs (Some priv) = Inr fs'"
    "holds_root E W fs' ''testroot.json'' (PubkeyToAddressHex E (EcdsaPublic W priv))"
proof -
  let ?f = "\<lparr>rf_Address = PubkeyToAddressHex E (EcdsaPublic W priv), rf_Priv = hex_encode (EcdsaBytes W priv)\<rparr>"
  let ?fs = "writeJSONFile fs ''testroot.json'' (rootFile_json ?f)"
  have clean: "json_clean (rootFile_json ?f)" "json_depth (rootFile_json ?f) \<le> max_depth"
    using assms(4) by (simp_all add: rootFile_json_def max_depth_def)
  have "readJSONFile ?fs ''testroot.json'' rootFile_of_json = Inr ?f"
    by (intro written_read(1) [where of_json = rootFile_of_json] rootFile_read) (fact clean)+
  moreover have "hex_encode (EcdsaBytes W priv) \<noteq> []" using assms(3) by (cases "EcdsaBytes W priv") simp_all
  ultimately have "loadRoot ?fs ''testroot.json'' = Inr ?f" by (simp add: loadRoot_def)
  then have "holds_root E W ?fs ''testroot.json'' (PubkeyToAddressHex E (EcdsaPublic W priv))"
    using assms(1,2) by (auto simp: holds_root_def)
  then show thesis using that by (simp add: genRoot_def)
qed

lemma signDigest_signs:
  assumes "holds_root E W fs rootPath root" and "length d = 32"
  obtains sig where "signDigest W fs rootPath d = Inr sig" "eoaSigned E root d sig"
proof -
  obtain rf priv where k: "loadRoot fs rootPath = Inr rf" "EcdsaHex W (rf_Priv rf) = Some priv"
    "PubkeyToAddressHex E (EcdsaPublic W priv) = root" "ecdsa_law E W priv"
    using assms(1) by (auto simp: holds_root_def)
  obtain sig where s: "EcdsaSign W d priv = Some sig" "length sig = 65" "char_val (sig ! 64) \<in> {0, 1}"
    "SigToPub E d sig = Some (EcdsaPublic W priv)"
    using k(4) assms(2) by (auto simp: ecdsa_law_def)
  have "normalizeV sig = sig" using s(3) by (auto simp: normalizeV_def)
  then have "eoaSigned E root d sig"
    using s k(3) by (simp add: eoaSigned_def recoverAddress_def addrEq_def)
  then show thesis using that k(1,2) s(1) by (simp add: signDigest_def)
qed

lemma digest_length: "typedDataDigest E td = Some d \<Longrightarrow> length d = 32"
  by (auto simp: typedDataDigest_def split: option.splits)

lemma unsigned_digest:
  "PSADigest E (p\<lparr>psa_Signature := s\<rparr>) = PSADigest E p"
  "AgentGrantDigest E (g\<lparr>ag_Signature := s\<rparr>) = AgentGrantDigest E g"
  by (simp_all add: PSADigest_def PSA_typed_data_def PSA_message_def AgentGrantDigest_def
      AgentGrant_typed_data_def AgentGrant_message_def)

text \<open>Signing an authorization in place.\<close>

lemma signPSA_signs:
  assumes "holds_root E W fs rootPath root" and "fs psaPath = Some b"
    and "Option.bind (json_unmarshal b) PSA_of_json = Some psa0" and "psa_Root psa0 = [] \<or> psa_Root psa0 = root"
    and "utf8_ok root" and "PSADigest E (psa0\<lparr>psa_Root := root\<rparr>) = Some digest"
  obtains fs' sig where "signPSA E W fs rootPath psaPath = Inr fs'"
    "Option.bind (json_decode (the (fs' psaPath))) PSA_of_json
       = Some (psa0\<lparr>psa_Root := root, psa_Signature := Some sig\<rparr>)"
    "PSA_signed E v (psa0\<lparr>psa_Root := root, psa_Signature := Some sig\<rparr>)"
proof -
  have len: "length digest = 32" using assms(6) by (auto simp: PSADigest_def dest: digest_length)
  obtain sig where sig: "signDigest W fs rootPath digest = Inr sig" "eoaSigned E root digest sig"
    using signDigest_signs [OF assms(1) len] .
  let ?p = "psa0\<lparr>psa_Root := root, psa_Signature := Some sig\<rparr>"
  let ?fs = "writeJSONFile fs psaPath (PSA_json ?p)"
  obtain v0 where v0: "json_unmarshal b = Some v0" "PSA_of_json v0 = Some psa0"
    using assms(3) by (cases "json_unmarshal b") auto
  have "PSA_text_ok psa0" using PSA_of_json_ok [OF v0(2) json_unmarshal_ok [OF v0(1)]] .
  then have "PSA_text_ok ?p" using assms(5) by (simp add: PSA_text_ok_def)
  from PSA_text_json [OF this] have
    read: "Option.bind (json_decode (the (?fs psaPath))) PSA_of_json = Some ?p"
    using PSA_json_depth PSA_of_json_PSA_json by (intro written_read) auto
  obtain rf where rf: "loadRoot fs rootPath = Inr rf" "rf_Address rf = root"
    using assms(1) by (auto simp: holds_root_def)
  have "psa_Root psa0 = root \<Longrightarrow> psa0\<lparr>psa_Root := root\<rparr> = psa0" by (cases psa0) simp
  then have "(if psa_Root psa0 = [] then (case loadRoot fs rootPath of Inl x \<Rightarrow> Inl x
        | Inr rf \<Rightarrow> Inr (psa0\<lparr>psa_Root := rf_Address rf\<rparr>)) else Inr psa0) = Inr (psa0\<lparr>psa_Root := root\<rparr>)"
    using assms(4) rf by auto
  then have "signPSA E W fs rootPath psaPath = Inr ?fs"
    using assms(2,6) v0 sig(1) by (simp add: signPSA_def readJSONFile_def)
  moreover have "PSA_signed E v ?p"
    using assms(6) sig(2) unsigned_digest(1) [where p = "psa0\<lparr>psa_Root := root\<rparr>"]
    by (simp add: PSA_signed_def rootSigned_def)
  ultimately show thesis using that read by blast
qed

text \<open>The signature of an approval, from the request the server shows.\<close>

lemma Request_read:
  assumes "ParseTime W (TimeText E (rq_CreatedAt q)) = Some (rq_CreatedAt q)"
    and "ParseTime W (TimeText E (rq_ExpiresAt q)) = Some (rq_ExpiresAt q)"
  shows "Request_of_json W (Request_json E q) = Some (q\<lparr>rq_Tier := TierRoutine, rq_State := StatePending\<rparr>)"
  using assms
  by (cases q; cases "rq_Tier q")
    (simp_all add: Request_of_json_def Request_json_def Request_zero_def find_field_def into_time_def Tier_json_def in_i64_def)

lemma ApprovalDigest_reads: "ApprovalDigest E (q\<lparr>rq_Tier := t, rq_State := st\<rparr>) = ApprovalDigest E q"
  by (simp add: fun_eq_iff ApprovalDigest_def Approval_typed_data_def)

lemma Request_json_depth: "json_depth (Request_json E q) \<le> max_depth"
  by (cases "rq_ScopeReq q"; cases "rq_StepUpSig q")
    (auto simp: Request_json_def json_strings_def json_bytes_def Tier_json_def max_depth_def fold_max_le)

lemma signApproval_signs:
  assumes "holds_root E W fs rootPath root" and "fs reqPath = Some (json_indent 0 (Request_json E q) @ ''\<newline>'')"
    and "reqPath \<noteq> []" and "json_clean (Request_json E q)"
    and "ParseTime W (TimeText E (rq_CreatedAt q)) = Some (rq_CreatedAt q)"
    and "ParseTime W (TimeText E (rq_ExpiresAt q)) = Some (rq_ExpiresAt q)"
    and "ApprovalDigest E q chainID addr = Some digest"
  obtains sig where "signApproval E W fs rootPath reqPath [] chainID addr = Inr (devtool_hexStr sig)"
    "eoaSigned E root digest sig"
proof -
  have len: "length digest = 32" using assms(7) by (auto simp: ApprovalDigest_typed dest: digest_length)
  obtain sig where sig: "signDigest W fs rootPath digest = Inr sig" "eoaSigned E root digest sig"
    using signDigest_signs [OF assms(1) len] .
  have "readJSONFile fs reqPath (Request_of_json W) = Inr (q\<lparr>rq_Tier := TierRoutine, rq_State := StatePending\<rparr>)"
    using assms(2) json_unmarshal_indent [OF assms(4) Request_json_depth] Request_read [OF assms(5,6)]
    by (simp add: readJSONFile_def)
  then have "approval_digest E W fs reqPath [] chainID addr = Inr digest"
    using assms(3,7) by (simp add: approval_digest_def ApprovalDigest_reads)
  then show thesis using that sig by (simp add: signApproval_def)
qed

lemma coveredKey_covers: "kt \<in> set kts \<Longrightarrow> kt \<in> set listed \<Longrightarrow> coveredKey listed kts \<in> set listed"
  by (induction kts) auto

text \<open>The daemon of the development build at \<open>base\<close> reads the URL the tool builds.\<close>

definition dev_post :: "ext \<Rightarrow> Config \<Rightarrow> env \<Rightarrow> ps \<Rightarrow> http \<Rightarrow> string \<Rightarrow> string \<Rightarrow> handler_result" where
  "dev_post E cfg e s r base url =
     psd_routes Dev E cfg e s ''POST'' (split_on (CHR ''/'') (drop (length base + 1) (url_base url)))
       (r\<lparr>query_root := query_get ''root'' (url_query url), query_nonce := query_get ''nonce'' (url_query url)\<rparr>)"

definition post_reply :: "handler_result \<Rightarrow> string + nat" where
  "post_reply res =
     (case res of
        None \<Rightarrow> Inl ''EOF''
      | Some (_, rep) \<Rightarrow>
          Inr (case rep of Reply c _ _ \<Rightarrow> c | ExportReply _ _ \<Rightarrow> 200 | ErrorReply c _ \<Rightarrow> c | MuxReply c \<Rightarrow> c))"

lemma revoke_url_read:
  assumes "CHR ''?'' \<notin> set base" and "CHR ''#'' \<notin> set base"
  shows "drop (length base + 1) (url_base (revoke_url base root n)) = ''dev/revoke''"
    "query_get ''root'' (url_query (revoke_url base root n)) = root"
    "query_get ''nonce'' (url_query (revoke_url base root n)) = show_nat (unat n)"
proof -
  let ?n = "show_nat (unat n)"
  let ?q = "''root'' @ ''='' @ QueryEscape root @ ''&'' @ ''nonce'' @ ''='' @ QueryEscape ?n"
  have "QueryEscape ?n = ?n" using all_digits_show_nat [of "unat n"] by (simp add: QueryEscape_digits all_digits_def)
  then have url: "revoke_url base root n = (base @ ''/dev/revoke'') @ CHR ''?'' # ?q" by (simp add: revoke_url_def)
  have "CHR ''?'' \<notin> set (base @ ''/dev/revoke'')" "CHR ''#'' \<notin> set (base @ ''/dev/revoke'')" "CHR ''#'' \<notin> set ?q"
    using assms QueryEscape_safe by simp_all
  note parts = url_parts [OF this]
  show "drop (length base + 1) (url_base (revoke_url base root n)) = ''dev/revoke''" by (simp only: url parts) simp
  show "query_get ''root'' (url_query (revoke_url base root n)) = root"
    "query_get ''nonce'' (url_query (revoke_url base root n)) = ?n"
    using query_get_two [of "''root''" "''nonce''" root ?n] by (simp_all only: url parts) (simp_all add: query_plain_def)
qed

section \<open>A concrete wallet\<close>

definition sample_wallet :: wallet where
  "sample_wallet =
     \<lparr>EcdsaHex = (\<lambda>s. Some (fst (hex_decode s))), EcdsaBytes = id, EcdsaPublic = id,
      EcdsaSign = (\<lambda>d k. Some (d @ k @ [CHR 0x00])), ParseTime = bigSetString\<rparr>"

definition sample_priv :: bytes where
  "sample_priv = replicate 32 (CHR ''k'')"

definition unsigned_psa :: PSA where
  "unsigned_psa = issued_psa\<lparr>psa_Root := [], psa_Signature := None\<rparr>"

definition unsigned_file :: bytes where
  "unsigned_file = json_indent 0 (PSA_json unsigned_psa) @ ''\<newline>''"

definition idle_machine :: machine where
  "idle_machine = \<lparr>RootKey = None, AgentKey = None, HttpPost = (\<lambda>url. Inl [])\<rparr>"

lemma sample_ecdsa_law: "ecdsa_law sample_ext sample_wallet sample_priv"
  by (auto simp: ecdsa_law_def sample_wallet_def sample_priv_def sample_ext_def nth_append)

lemma sample_wallet_root:
  obtains fs' where "genRoot sample_ext sample_wallet fs (Some sample_priv) = Inr fs'"
    "holds_root sample_ext sample_wallet fs' ''testroot.json'' sample_root"
    "\<forall>path. path \<noteq> ''testroot.json'' \<longrightarrow> fs' path = fs path"
proof -
  have root: "PubkeyToAddressHex sample_ext (EcdsaPublic sample_wallet sample_priv) = sample_root"
    by (simp add: sample_ext_def sample_wallet_def sample_priv_def sample_root_def hex_char_def char_of_eq_iff numeral_2_eq_2)
  obtain fs' where fs: "genRoot sample_ext sample_wallet fs (Some sample_priv) = Inr fs'"
    "holds_root sample_ext sample_wallet fs' ''testroot.json'' sample_root"
    using genRoot_holds [OF sample_ecdsa_law, of fs] root
    by (auto simp: sample_wallet_def sample_priv_def sample_root_def)
  moreover have "fs' path = fs path" if "path \<noteq> ''testroot.json''" for path
    using fs(1) that by (auto simp: genRoot_def writeJSONFile_def)
  ultimately show thesis using that by blast
qed

lemma unsigned_simps [simp]:
  "psa_Root unsigned_psa = []" "psa_Issuer unsigned_psa = ''https://ps''"
  "psa_KeyThumbprints unsigned_psa = Some [Thumbprint sample_ext sample_jwk]"
  "psa_NotBefore unsigned_psa = 100" "psa_NotAfter unsigned_psa = 5000"
  "unsigned_psa\<lparr>psa_Root := sample_root, psa_Signature := s\<rparr> = issued_psa\<lparr>psa_Signature := s\<rparr>"
  by (simp_all add: unsigned_psa_def issued_psa_def sample_psa_unsigned_def)

lemma unsigned_read: "Option.bind (json_unmarshal unsigned_file) PSA_of_json = Some unsigned_psa"
proof -
  have "json_clean (PSA_json unsigned_psa)" "PSA_in_range unsigned_psa"
    by (simp_all add: unsigned_psa_def PSA_json_def Scope_json_def json_strings_def PSA_in_range_def in_i64_def
        issued_psa_def sample_psa_unsigned_def Thumbprint_def)
  then show ?thesis
    using PSA_json_depth by (simp add: unsigned_file_def json_unmarshal_indent PSA_of_json_PSA_json)
qed

text \<open>A state of the sample run in which the request waits for the root's signature.\<close>

lemma sample_pending_state:
  obtains s where "(ps_step sample_ext sample_cfg)\<^sup>*\<^sup>* New_server s"
    "account (tenants s) sample_root issued_psa ''aauth:a@b'' run_grant"
    "coded (pending s) (newCode ''c'') = Some (0, run_request)"
proof -
  have new: "byAgent (tenants New_server) ''aauth:a@b'' = None" "rnext (pending New_server) = 0"
    by (simp_all add: New_server_def NewTenants_def NewStore_def)
  obtain s1 s2 x1 x2 where s2: "Routes sample_ext sample_cfg (sample_env 1000) New_server ''POST'' [''psa''] http_onboard = Some (s1, x1)"
    "Routes sample_ext sample_cfg (sample_env 1000) s1 ''POST'' [''agents''] http_enroll = Some (s2, x2)"
    "ps_ok sample_ext sample_cfg s2" "account (tenants s2) sample_root issued_psa ''aauth:a@b'' run_grant"
    "pending s2 = pending New_server"
    by (rule account_opens [OF ps_ok_New run_bodies(1) _ run_sig(1) _ run_bodies(2), where ?e1.0 = "sample_env 1000" and ?e2.0 = "sample_env 1000"])
      (use run_person new in simp_all)
  let ?q = "new_request (sample_env 1000) ''aauth:a@b'' run_claims run_grant (tierFor (psa_Scope issued_psa) run_claims)"
  have "\<exists>ts h b. token sample_ext sample_cfg (sample_env 1000) s2 http_token
      = Some (s2\<lparr>tenants := ts, pending := fst (Create (pending s2) ?q)\<rparr>, Reply 202 h b)
      \<and> account ts sample_root issued_psa ''aauth:a@b'' run_grant"
    by (rule token_ok [OF s2(3) run_sig(2) s2(4) refl _ run_bodies(3) run_challenge, where e = "sample_env 1000"])
      (simp, blast)
  then obtain ts h b where tok: "token sample_ext sample_cfg (sample_env 1000) s2 http_token
      = Some (s2\<lparr>tenants := ts, pending := fst (Create (pending s2) ?q)\<rparr>, Reply 202 h b)"
    "account ts sample_root issued_psa ''aauth:a@b'' run_grant" by blast
  have q: "?q = run_request" "run_request\<lparr>rq_State := StatePending\<rparr> = run_request" "rq_Code run_request = newCode ''c''"
    using run_amount(1) by (simp_all add: run_request_def) (simp_all add: new_request_def)
  let ?s = "s2\<lparr>tenants := ts, pending := fst (Create (pending s2) run_request)\<rparr>"
  have "Routes sample_ext sample_cfg (sample_env 1000) s2 ''POST'' [''token''] http_token = Some (?s, Reply 202 h b)"
    using tok(1) q(1) by (simp add: Routes_def for_method_def)
  from reaches_serve [OF reaches_serve [OF reaches_serve [OF rtranclp.rtrancl_refl s2(1)] s2(2)] this]
  have "(ps_step sample_ext sample_cfg)\<^sup>*\<^sup>* New_server ?s" .
  moreover have "coded (pending ?s) (newCode ''c'') = Some (0, run_request)"
    using created(3) [OF ps_okD(3) [OF s2(3)], of run_request] q s2(5) new(2) by simp
  ultimately show thesis using that [of ?s] tok(2) by simp
qed

lemma run_request_clean: "json_clean (Request_json sample_ext run_request)"
proof -
  have "TimeText sample_ext = show_int" by (simp add: sample_ext_def)
  moreover have "utf8_ok (b64_std bs)" for bs by (intro is_ascii_utf8_ok b64_std_ascii)
  moreover have "utf8_ok (newID x)" "utf8_ok (newCode x)" for x by (simp_all add: newID_def newCode_def)
  moreover have "utf8_ok (ag_MissionScopeS256 run_grant)"
    by (simp add: run_grant_def sample_grant_unsigned_def)
  ultimately show ?thesis
    by (simp add: Request_json_def run_request_def new_request_def json_strings_def json_bytes_def Tier_json_def
        run_claims_def challenge_claims_def sample_resource_def del: hex_encode.simps b64_raw.simps)
qed

section \<open>Properties\<close>

text \<open>C8: an authorization the wallet tool signs is one the server takes. When
  the root file holds the key of an address and the file names that root or none, \<open>sign-psa\<close>
  succeeds, changes nothing in the document but its root and signature, and posting the file
  onboards the root: the reply is 201 and the tenant registered is exactly the signed document,
  provided the server would otherwise accept it (issuer, window, a covered key, not revoked).\<close>

theorem tool_signed_psa_onboards:
  assumes "(ps_step E cfg)\<^sup>*\<^sup>* New_server s"
    and "holds_root E W fs rootPath root" and "utf8_ok root"
    and "fs psaPath = Some b" and "Option.bind (json_unmarshal b) PSA_of_json = Some psa0"
    and "psa_Root psa0 = [] \<or> psa_Root psa0 = root" and "PSADigest E (psa0\<lparr>psa_Root := root\<rparr>) \<noteq> None"
    and "psa_Issuer psa0 = IssuerURL cfg"
    and "psa_NotBefore psa0 \<le> Unix (clock e)" and "Unix (clock e) \<le> psa_NotAfter psa0"
    and "k \<in> set (IssuerKeys cfg)" and "Thumbprint E (Pub k) \<in> set (elems (psa_KeyThumbprints psa0))"
    and "\<forall>t \<in> set (elems (psa_KeyThumbprints psa0)). t \<noteq> []"
    and "IsRevoked (registry s) (psa_RegistryChain psa0) (psa_Registry psa0) root (psa_Nonce psa0) = Inr False"
  shows "\<exists>fs' sig s' h v ten.
       devtool E W M fs [prog, ''sign-psa'', ''--root'', rootPath, ''--psa'', psaPath] = Inr (fs', [])
     \<and> Routes E cfg e s ''POST'' [''psa''] (r\<lparr>http_body := the (fs' psaPath)\<rparr>) = Some (s', Reply 201 h v)
     \<and> registered (tenants s') root = Some ten
     \<and> tPSA ten = psa0\<lparr>psa_Root := root, psa_Signature := Some sig\<rparr>"
proof -
  obtain digest where digest: "PSADigest E (psa0\<lparr>psa_Root := root\<rparr>) = Some digest" using assms(7) by auto
  obtain fs' sig where sig: "signPSA E W fs rootPath psaPath = Inr fs'"
    "Option.bind (json_decode (the (fs' psaPath))) PSA_of_json
       = Some (psa0\<lparr>psa_Root := root, psa_Signature := Some sig\<rparr>)"
    "PSA_signed E (chain_verifier s (clock e)) (psa0\<lparr>psa_Root := root, psa_Signature := Some sig\<rparr>)"
    using signPSA_signs [OF assms(2,4,5,6,3) digest] .
  let ?p = "psa0\<lparr>psa_Root := root, psa_Signature := Some sig\<rparr>" and ?r = "r\<lparr>http_body := the (fs' psaPath)\<rparr>"
  have covered: "coveredKey (elems (psa_KeyThumbprints psa0)) (keyThumbs E cfg) \<in> set (elems (psa_KeyThumbprints psa0))"
    using assms(11,12) by (intro coveredKey_covers) (auto simp: keyThumbs_def)
  then have "VerifyPSA E (chain_verifier s (clock e)) ?p (IssuerURL cfg)
      (coveredKey (elems (psa_KeyThumbprints psa0)) (keyThumbs E cfg)) = Inr ()"
    using assms(8-10,14) sig(3) by (simp add: VerifyPSA_accepts chain_verifier_def)
  then have "onboard_verdict E (chain_verifier s (clock e)) ?p (IssuerURL cfg) (keyThumbs E cfg) = Inr ()"
    using assms(13) covered by (auto simp: onboard_verdict_def)
  note verdict = this
  have body: "Option.bind (json_decode (http_body ?r)) PSA_of_json = Some ?p" using sig(2) by simp
  obtain ts ten h v where on: "onboard E cfg e s ?r = Some (s\<lparr>tenants := ts\<rparr>, Reply 201 h v)"
    "registered ts root = Some ten" "tPSA ten = ?p"
    by (rule onboard_ok [OF reachable_ok [OF assms(1)] body, where e = e]) (use verdict in simp, simp)
  have "Routes E cfg e s ''POST'' [''psa''] ?r = Some (s\<lparr>tenants := ts\<rparr>, Reply 201 h v)"
    using on(1) by (simp add: Routes_def for_method_def)
  moreover have "registered (tenants (s\<lparr>tenants := ts\<rparr>)) root = Some ten" using on(2) by simp
  moreover have "devtool E W M fs [prog, ''sign-psa'', ''--root'', rootPath, ''--psa'', psaPath] = Inr (fs', [])"
    using sig(1) by (simp add: signPSA_command wrote_def)
  ultimately show ?thesis using on(3) by blast
qed

theorem tool_signed_psa_onboards_witness:
  "\<exists>fs fs' sig s' h v ten. genRoot sample_ext sample_wallet (Map.empty(''psa.json'' \<mapsto> unsigned_file)) (Some sample_priv) = Inr fs
     \<and> devtool sample_ext sample_wallet idle_machine fs
          [''devtool'', ''sign-psa'', ''--root'', ''testroot.json'', ''--psa'', ''psa.json''] = Inr (fs', [])
     \<and> Routes sample_ext sample_cfg (sample_env 1000) New_server ''POST'' [''psa'']
         (http_poll\<lparr>http_body := the (fs' ''psa.json'')\<rparr>) = Some (s', Reply 201 h v)
     \<and> registered (tenants s') sample_root = Some ten
     \<and> tPSA ten = unsigned_psa\<lparr>psa_Root := sample_root, psa_Signature := Some sig\<rparr>"
proof -
  let ?fs0 = "Map.empty(''psa.json'' \<mapsto> unsigned_file)"
  obtain fs where fs: "genRoot sample_ext sample_wallet ?fs0 (Some sample_priv) = Inr fs"
    "holds_root sample_ext sample_wallet fs ''testroot.json'' sample_root"
    "\<forall>path. path \<noteq> ''testroot.json'' \<longrightarrow> fs path = ?fs0 path"
    using sample_wallet_root [of ?fs0] .
  have input: "fs ''psa.json'' = Some unsigned_file" and root: "utf8_ok sample_root"
    by (simp_all add: fs(3) sample_root_def)
  have digest: "PSADigest sample_ext (unsigned_psa\<lparr>psa_Root := sample_root\<rparr>) \<noteq> None"
    using sample_digest unfolding PSADigest_def by (metis option.distinct(1))
  have named: "psa_Root unsigned_psa = [] \<or> psa_Root unsigned_psa = sample_root"
    and key: "sample_key \<in> set (IssuerKeys sample_cfg)"
    "Thumbprint sample_ext (Pub sample_key) \<in> set (elems (psa_KeyThumbprints unsigned_psa))"
    and thumbs: "\<forall>t \<in> set (elems (psa_KeyThumbprints unsigned_psa)). t \<noteq> []"
    and window: "psa_NotBefore unsigned_psa \<le> Unix (clock (sample_env 1000))"
    "Unix (clock (sample_env 1000)) \<le> psa_NotAfter unsigned_psa"
    and issuer: "psa_Issuer unsigned_psa = IssuerURL sample_cfg"
    by (simp_all add: sample_key_def Thumbprint_def Unix_def Second_def sample_ext_def checksum_def)
  have live: "IsRevoked (registry New_server) (psa_RegistryChain unsigned_psa) (psa_Registry unsigned_psa) sample_root
      (psa_Nonce unsigned_psa) = Inr False"
    by (simp add: New_server_def IsRevoked_def NewMemoryRegistry_def)
  show ?thesis
    using tool_signed_psa_onboards [OF rtranclp.rtrancl_refl fs(2) root input unsigned_read named digest issuer window key thumbs live,
        where r = http_poll and M = idle_machine and prog = "''devtool''"] fs(1) by blast
qed

text \<open>C9: the wallet tool and the server agree on what is signed. From the
  request the approval page shows, saved to a file, \<open>sign-approval\<close> prints a signature with
  which the server approves that very request, although the tool recomputes the digest from the
  JSON and the server from its own store.\<close>

theorem tool_approval_is_accepted:
  assumes "(ps_step E cfg)\<^sup>*\<^sup>* New_server s"
    and "holds_root E W fs rootPath root" and "\<forall>pub. address (PubkeyToAddressHex E pub)" and "address root"
    and "coded (pending s) code = Some (p, q)" and "rq_Tier q = TierElevated" and "open_at (clock e) q"
    and "account (tenants s) root psa (rq_AgentID q) g"
    and "fs reqPath = Some (json_indent 0 (Request_json E q) @ ''\<newline>'')" and "reqPath \<noteq> []"
    and "json_clean (Request_json E q)"
    and "ParseTime W (TimeText E (rq_CreatedAt q)) = Some (rq_CreatedAt q)"
    and "ParseTime W (TimeText E (rq_ExpiresAt q)) = Some (rq_ExpiresAt q)"
    and "ApprovalDigest E q (ChainID cfg) (RegistryAddr cfg) \<noteq> None"
    and "- (2 ^ 63) \<le> ChainID cfg" and "ChainID cfg < 2 ^ 63"
  shows "\<exists>out s'.
       devtool E W M fs [prog, ''sign-approval'', ''--root'', rootPath, ''--request'', reqPath,
         ''--chain'', show_int (ChainID cfg), ''--registry'', RegistryAddr cfg] = Inr (fs, out @ ''\<newline>'')
     \<and> Routes E cfg e s ''POST'' [''approve'', code, ''signature'']
          (r\<lparr>http_body := json_print (JObj [(''signature'', JStr out)]) @ ''\<newline>''\<rparr>)
        = Some (s', Reply 200 [] (JObj [(''status'', JStr ''approved'')]))
     \<and> pending s' = set_request (pending s) p
          (q\<lparr>rq_StepUpSig := Some (hexBytes out), rq_State := StateApproved\<rparr>)"
proof -
  obtain digest where digest: "ApprovalDigest E q (ChainID cfg) (RegistryAddr cfg) = Some digest" using assms(14) by auto
  obtain sig where sig: "signApproval E W fs rootPath reqPath [] (ChainID cfg) (RegistryAddr cfg) = Inr (devtool_hexStr sig)"
    "eoaSigned E root digest sig"
    using signApproval_signs [OF assms(2,9-13) digest] .
  let ?r = "r\<lparr>http_body := json_print (JObj [(''signature'', JStr (devtool_hexStr sig))]) @ ''\<newline>'', path_value := code\<rparr>"
  have hex: "devtool_hexStr sig = hexStr sig" by (simp add: devtool_hexStr_def hexStr_def)
  have body: "Option.bind (json_decode (http_body ?r)) signature_of_json = Some (devtool_hexStr sig)"
    using json_decode_print [of "JObj [(''signature'', JStr (devtool_hexStr sig))]"]
    by (simp add: devtool_hexStr_def max_depth_def signature_of_json_def find_field_def)
  have "coded (pending s) (path_value ?r) = Some (p, q)"
    "verifyEOASig E root digest (hexBytes (devtool_hexStr sig)) = Inr ()"
    using assms(5) verifyEOASig_agree [OF assms(3,4)] sig(2) by (simp_all add: hex)
  note approve = sign_ok [OF reachable_ok [OF assms(1)] this(1) assms(6-8) body digest this(2)]
  have "devtool E W M fs [prog, ''sign-approval'', ''--root'', rootPath, ''--request'', reqPath,
      ''--chain'', show_int (ChainID cfg), ''--registry'', RegistryAddr cfg] = Inr (fs, devtool_hexStr sig @ ''\<newline>'')"
    using sig(1) signApproval_command [OF assms(15,16)] by (simp add: printed_def)
  then show ?thesis using approve by (fastforce simp: Routes_def for_method_def)
qed

theorem tool_approval_is_accepted_witness:
  "\<exists>s fs out s'. (ps_step sample_ext sample_cfg)\<^sup>*\<^sup>* New_server s
     \<and> fs ''req.json'' = Some (json_indent 0 (Request_json sample_ext run_request) @ ''\<newline>'')
     \<and> devtool sample_ext sample_wallet idle_machine fs
         [''devtool'', ''sign-approval'', ''--root'', ''testroot.json'', ''--request'', ''req.json'',
          ''--chain'', show_int 8453, ''--registry'', ''0xa1''] = Inr (fs, out @ ''\<newline>'')
     \<and> Routes sample_ext sample_cfg (sample_env 1010) s ''POST'' [''approve'', newCode ''c'', ''signature'']
          (http_poll\<lparr>http_body := json_print (JObj [(''signature'', JStr out)]) @ ''\<newline>''\<rparr>)
        = Some (s', Reply 200 [] (JObj [(''status'', JStr ''approved'')]))
     \<and> rheap (pending s') 0 = Some (run_request\<lparr>rq_StepUpSig := Some (hexBytes out), rq_State := StateApproved\<rparr>)"
proof -
  let ?fs0 = "Map.empty(''req.json'' \<mapsto> json_indent 0 (Request_json sample_ext run_request) @ ''\<newline>'')"
  obtain fs where fs: "holds_root sample_ext sample_wallet fs ''testroot.json'' sample_root"
    "\<forall>path. path \<noteq> ''testroot.json'' \<longrightarrow> fs path = ?fs0 path"
    using sample_wallet_root [of ?fs0] .
  have input: "fs ''req.json'' = Some (json_indent 0 (Request_json sample_ext run_request) @ ''\<newline>'')"
    by (simp add: fs(2))
  obtain s where s: "(ps_step sample_ext sample_cfg)\<^sup>*\<^sup>* New_server s"
    "account (tenants s) sample_root issued_psa ''aauth:a@b'' run_grant"
    "coded (pending s) (newCode ''c'') = Some (0, run_request)"
    using sample_pending_state .
  have request: "rq_Tier run_request = TierElevated" "open_at (clock (sample_env 1010)) run_request"
    "account (tenants s) sample_root issued_psa (rq_AgentID run_request) run_grant"
    using s(2) by (simp_all add: run_request_def new_request_def open_at_def Second_def Minute_def)
  have times: "ParseTime sample_wallet (TimeText sample_ext t) = Some t" for t
    by (simp add: sample_wallet_def sample_ext_def)
  have name: "''req.json'' \<noteq> []" by simp
  have digest: "ApprovalDigest sample_ext run_request (ChainID sample_cfg) (RegistryAddr sample_cfg) \<noteq> None"
    using run_approval(1) by simp
  have width: "- (2 ^ 63) \<le> ChainID sample_cfg" "ChainID sample_cfg < 2 ^ 63" by simp_all
  note accepted = tool_approval_is_accepted [OF s(1) fs(1) sample_addresses s(3) request input name run_request_clean times times digest width,
      where r = http_poll and M = idle_machine and prog = "''devtool''"]
  then show ?thesis using s(1) input by (fastforce simp: set_request_def)
qed

text \<open>C22: what the person revokes with the tool is what the daemon records.
  Against a development daemon at \<open>base\<close>, \<open>revoke\<close> succeeds, and its one request enters exactly
  the handle (root of the key file, nonce) into the registry, whatever characters the root contains
  and whatever 64-bit nonce is given in decimal.\<close>

theorem tool_revocation_is_recorded:
  assumes "loadRoot fs rootPath = Inr rf" and "rf_Address rf \<noteq> []"
    and "CHR ''?'' \<notin> set base" and "CHR ''#'' \<notin> set base"
    and "\<forall>url. HttpPost M url = post_reply (dev_post E cfg e s r base url)"
  shows "devtool E W M fs [prog, ''revoke'', ''--root'', rootPath, ''--nonce'', show_nat (unat n), ''--ps'', base]
       = Inr (fs, [])
     \<and> dev_post E cfg e s r base (revoke_url base (rf_Address rf) n)
       = Some (s\<lparr>registry := Revoke (registry s) (rf_Address rf) n\<rparr>,
               Reply 200 [] (JObj [(''status'', JStr ''revoked'')]))"
proof -
  have "dev_post E cfg e s r base (revoke_url base (rf_Address rf) n)
     = Some (s\<lparr>registry := Revoke (registry s) (rf_Address rf) n\<rparr>,
             Reply 200 [] (JObj [(''status'', JStr ''revoked'')]))"
    using assms(2) revoke_url_read [OF assms(3,4)]
    by (simp add: dev_post_def psd_routes_def installDevRoutes_dev_def for_method_def devRevoke_def parseUint_show)
  then show ?thesis
    using assms(1,5) by (simp add: revoke_command devtool_revoke_def post_reply_def)
qed

theorem tool_revocation_is_recorded_witness:
  "\<exists>fs s'. devtool sample_ext sample_wallet
        \<lparr>RootKey = None, AgentKey = None,
         HttpPost = (\<lambda>url. post_reply (dev_post sample_ext sample_cfg (sample_env 1) New_server http_poll ''http://ps'' url))\<rparr>
        fs [''devtool'', ''revoke'', ''--root'', ''testroot.json'', ''--nonce'', show_nat (unat (7 :: 64 word)), ''--ps'', ''http://ps'']
       = Inr (fs, [])
     \<and> dev_post sample_ext sample_cfg (sample_env 1) New_server http_poll ''http://ps''
         (revoke_url ''http://ps'' sample_root 7) = Some (s', Reply 200 [] (JObj [(''status'', JStr ''revoked'')]))
     \<and> IsRevoked (registry s') 8453 ''0xa1'' sample_root 7 = Inr True"
proof -
  obtain fs where fs: "holds_root sample_ext sample_wallet fs ''testroot.json'' sample_root"
    using sample_wallet_root [of Map.empty] .
  then obtain rf where rf: "loadRoot fs ''testroot.json'' = Inr rf" "rf_Address rf = sample_root"
    by (auto simp: holds_root_def)
  have root: "rf_Address rf \<noteq> []" using rf(2) by (simp add: sample_root_def)
  have base: "CHR ''?'' \<notin> set ''http://ps''" "CHR ''#'' \<notin> set ''http://ps''" by simp_all
  have "IsRevoked (Revoke NewMemoryRegistry sample_root 7) 8453 ''0xa1'' sample_root 7 = Inr True"
    by (simp add: IsRevoked_def Revoke_def)
  then show ?thesis
    using tool_revocation_is_recorded [OF rf(1) root base,
        where M = "\<lparr>RootKey = None, AgentKey = None,
         HttpPost = (\<lambda>url. post_reply (dev_post sample_ext sample_cfg (sample_env 1) New_server http_poll ''http://ps'' url))\<rparr>"
        and E = sample_ext and cfg = sample_cfg and e = "sample_env 1" and s = New_server and r = http_poll
        and n = 7 and W = sample_wallet and prog = "''devtool''"]
    by (fastforce simp: rf(2) New_server_def)
qed

end
