(* ===== verification/Interleaving.thy ===== *)
theory Interleaving
  imports Concurrent Devtool
begin

text \<open>
  The pool of requests in flight, and what holds of the server whatever the order in which their
  actions happen.
\<close>

section \<open>Requests in flight\<close>

text \<open>
  The server and its requests in flight: the shared state, and for every connection the request and
  what is left of its handler. A request arrives, acts, and leaves when it has been answered; the
  actions of different requests come in any order. A revocation may reach the registry at any time.
\<close>

type_synonym visit = "(string list \<times> http, env, ps, reply) thread"
type_synonym server_pool = "(string list \<times> http, env, ps, reply) pool"

abbreviation th_path :: "visit \<Rightarrow> string list" where
  "th_path th \<equiv> fst (th_request th)"

abbreviation th_http :: "visit \<Rightarrow> http" where
  "th_http th \<equiv> snd (th_request th)"

definition arrived :: "build \<Rightarrow> ext \<Rightarrow> Config \<Rightarrow> string \<Rightarrow> string list \<Rightarrow> http \<Rightarrow> visit" where
  "arrived b E cfg meth path r = \<lparr>th_request = (path, r), th_proc = psd_routes_p b E cfg meth path r\<rparr>"

inductive pool_step :: "build \<Rightarrow> ext \<Rightarrow> Config \<Rightarrow> server_pool \<Rightarrow> server_pool \<Rightarrow> bool" for b E cfg where
  arrive: "threads p i = None \<Longrightarrow>
     pool_step b E cfg p (p\<lparr>threads := (threads p)(i \<mapsto> arrived b E cfg meth path r)\<rparr>)"
| settle: "settle_step p p' \<Longrightarrow> pool_step b E cfg p p'"
| revoke: "pool_step b E cfg p (p\<lparr>shared := (shared p)\<lparr>registry := Revoke (registry (shared p)) root nonce\<rparr>\<rparr>)"

inductive_cases pool_stepE: "pool_step b E cfg p p'"

text \<open>The steps that draw no identifier or code in use.\<close>

definition fresh_step :: "build \<Rightarrow> ext \<Rightarrow> Config \<Rightarrow> server_pool \<Rightarrow> server_pool \<Rightarrow> bool" where
  "fresh_step b E cfg p p' = (pool_step b E cfg p p' \<and> fresh (shared p) (shared p'))"

definition thread_ok :: "ext \<Rightarrow> Config \<Rightarrow> ps \<Rightarrow> visit \<Rightarrow> bool" where
  "thread_ok E cfg s th = safe E cfg (answers E cfg (th_path th) (th_http th)) s (th_proc th)"

definition pool_ok :: "ext \<Rightarrow> Config \<Rightarrow> server_pool \<Rightarrow> bool" where
  "pool_ok E cfg p =
     (ps_ok E cfg (shared p) \<and> (\<forall>i th. threads p i = Some th \<longrightarrow> thread_ok E cfg (shared p) th))"

lemma pool_okD:
  assumes "pool_ok E cfg p"
  shows "ps_ok E cfg (shared p)"
    "threads p i = Some th \<Longrightarrow> th_proc th = Done rep \<Longrightarrow> answers E cfg (th_path th) (th_http th) (shared p) rep"
    "threads p i = Some th \<Longrightarrow> th_proc th \<noteq> Crash"
  using assms by (auto simp: pool_ok_def thread_ok_def) (metis safe_simps(1), metis safe_simps(2))

lemma thread_ok_later:
  assumes "steady s s'" and "thread_ok E cfg s th"
  shows "thread_ok E cfg s' th"
  using safe_later [OF assms(2) [unfolded thread_ok_def] assms(1) answers_steady [OF assms(1)]]
  by (simp add: thread_ok_def)

lemma pool_ok_resting: "ps_ok E cfg s \<Longrightarrow> pool_ok E cfg (resting s)"
  by (simp add: pool_ok_def)

lemma arrived_ok: "thread_ok E cfg s (arrived b E cfg meth path r)"
  using every_request_safe by (simp add: thread_ok_def arrived_def)

lemma pool_ok_act:
  assumes "pool_ok E cfg p" and "threads p i = Some th" and "th_proc th = Act f" and "f (e, shared p) = (s, q)"
    and "fresh (shared p) s"
  shows "pool_ok E cfg (moved p i th s q)"
proof -
  have ok: "ps_ok E cfg (shared p)" "thread_ok E cfg (shared p) th"
    using assms(1,2) by (auto simp: pool_ok_def)
  then have "ps_ok E cfg s \<and> steady (shared p) s \<and> safe E cfg (answers E cfg (th_path th) (th_http th)) s q"
    using assms(3-5) by (simp add: thread_ok_def safe_simps) (metis fst_conv snd_conv steady_refl)
  then show ?thesis
    using assms(1) thread_ok_later by (auto simp: pool_ok_def thread_ok_def [of E cfg s "th\<lparr>th_proc := q\<rparr>"])
qed

lemma pool_ok_step: "fresh_step b E cfg p p' \<Longrightarrow> pool_ok E cfg p \<Longrightarrow> pool_ok E cfg p'"
  unfolding fresh_step_def
proof (elim conjE pool_stepE settle_cases, goal_cases)
  case (1 i meth path r)
  then show ?case using arrived_ok by (auto simp: pool_ok_def)
next
  case (2 i th f e s q)
  then show ?case using pool_ok_act by simp
next
  case (3 i th rep)
  then show ?case by (auto simp: pool_ok_def)
next
  case (4 root nonce)
  then show ?case using thread_ok_later [OF steady_registry] by (auto simp: pool_ok_def)
qed

interpretation interleaving: transition_invariant "fresh_step b E cfg" "pool_ok E cfg" for b E cfg
  by unfold_locales (rule pool_ok_step)

lemma interleaved_ok:
  "(ps_step E cfg)\<^sup>*\<^sup>* New_server s \<Longrightarrow> (fresh_step b E cfg)\<^sup>*\<^sup>* (resting s) p \<Longrightarrow> pool_ok E cfg p"
  using interleaving.inv_reaches pool_ok_resting reachable_ok by blast

section \<open>A handler alone, among the others\<close>

text \<open>
  A step is fresh, or it creates a request under an identifier or a code in use: what the fresh steps
  leave out are the collisions and nothing else.
\<close>

definition collides :: "Store \<Rightarrow> Request \<Rightarrow> bool" where
  "collides st q = (byID st (rq_ID q) \<noteq> None \<or> byCode st (rq_Code q) \<noteq> None)"

definition tame :: "ps \<Rightarrow> ps \<Rightarrow> bool" where
  "tame s s' = (fresh s s' \<or> (\<exists>q. collides (pending s) q \<and> pending s' = fst (Create (pending s) q)))"

lemma tame_pending:
  assumes "byID st = byID (pending s) \<and> byCode st = byCode (pending s) \<or> st = fst (Create (pending s) q)"
  shows "tame s (s\<lparr>pending := st\<rparr>)"
proof -
  have "fresh s (s\<lparr>pending := fst (Create (pending s) q)\<rparr>)" if "\<not> collides (pending s) q"
    using that by (auto simp: collides_def fresh_def Create_def map_le_def)
  then show ?thesis using assms by (auto simp: tame_def fresh_def)
qed

text \<open>Most actions leave identifiers and codes alone, which any such \<open>K\<close> allows.\<close>

definition framing :: "(ps \<Rightarrow> ps \<Rightarrow> bool) \<Rightarrow> bool" where
  "framing K = (\<forall>s s'. byID (pending s') = byID (pending s) \<and> byCode (pending s') = byCode (pending s) \<longrightarrow> K s s')"

lemma framing_fresh [simp]: "framing fresh" and framing_tame [simp]: "framing tame"
  by (auto simp: framing_def fresh_def tame_def)

lemma calm_actions:
  assumes "framing K"
  shows "(\<And>e. calm (k e) K) \<Longrightarrow> calm (draw k) K"
    "(\<And>x. calm (l x) K) \<Longrightarrow> calm (reads g l) K"
    "(\<And>x. calm (m x) K) \<Longrightarrow> calm (follow h m) K"
    "(\<And>x. calm (n x) K) \<Longrightarrow> calm (on_tenants j n) K"
  using assms
  by (auto simp: draw_def reads_def follow_def on_tenants_def calm_Act framing_def split: option.split)

lemma calm_on_pending:
  assumes "framing K" and "\<And>e st st' x. f e st = Some (st', x) \<Longrightarrow> byID st' = byID st \<and> byCode st' = byCode st"
    and "\<And>x. calm (k x) K"
  shows "calm (on_pending f k) K"
  using assms by (auto simp: on_pending_def calm_Act framing_def split: option.split)

lemma calm_create: "(\<And>p. calm (k p) tame) \<Longrightarrow> calm (on_pending (\<lambda>_ st. Some (Create st q)) k) tame"
  using tame_pending [of _ _ q] by (auto simp: on_pending_def calm_Act split: prod.split)

lemma calm_log: "framing K \<Longrightarrow> calm k K \<Longrightarrow> calm (log_p E t a kind rid k) K"
  unfolding log_p_def by (intro calm_actions)

lemma calm_transition: "framing K \<Longrightarrow> (\<And>res. calm (k res) K) \<Longrightarrow> calm (transition_p p to k) K"
  unfolding transition_p_def
  by (rule calm_on_pending) (auto simp: transition_def set_request_def split: option.splits if_splits)

lemma calm_code:
  assumes "framing K" and "\<And>x. calm (k x) K" and "\<And>p r. calm (l p r) K"
  shows "calm (reads (\<lambda>s. byCodeLocked (pending s) code) (\<lambda>res.
      case res of Inl x \<Rightarrow> k x | Inr None \<Rightarrow> Crash | Inr (Some p) \<Rightarrow> follow (the_request p) (l p))) K"
  using assms by (auto intro!: calm_actions split: sum.split option.split)

lemma calm_ApproveRoutine: "(\<And>res. calm (k res) tame) \<Longrightarrow> calm (ApproveRoutine_p code k) tame"
  unfolding ApproveRoutine_p_def by (intro calm_code) (simp_all add: calm_transition)

lemma calm_ApproveElevated:
  assumes "\<And>res. calm (k res) tame"
  shows "calm (ApproveElevated_p E code root chainID addr sg k) tame"
proof -
  have "calm (on_pending (\<lambda>_ st. case rheap st p of None \<Rightarrow> None
      | Some r' \<Rightarrow> Some (set_request st p (r'\<lparr>rq_StepUpSig := Some sg\<rparr>), ())) (\<lambda>_. transition_p p StateApproved k)) tame" for p
    using calm_transition [OF framing_tame assms] by (intro calm_on_pending) (auto simp: set_request_def split: option.splits)
  then show ?thesis
    unfolding ApproveElevated_p_def using assms by (intro calm_code) (simp_all split: option.split sum.split)
qed

lemma calm_finish:
  assumes "framing K"
  shows "calm (finish_p E cfg p t g res a) K"
proof -
  have "calm (issue_p E cfg req ten t g res a) K" for req ten t g res a
    using assms by (auto simp: issue_p_def intro!: calm_actions calm_log split: list.split option.split sum.split)
  then show ?thesis unfolding finish_p_def using assms by (intro calm_actions)
qed

lemma calm_token: "calm (token_p E cfg r) tame"
proof -
  have "calm (answer_p E cfg t g res a req p) tame" for t g res a req p
    unfolding answer_p_def by (auto intro!: calm_actions calm_ApproveRoutine calm_finish)
  then have "calm (create_p E cfg t g res a req) tame" for t g res a req
    unfolding create_p_def by (intro calm_create calm_log) simp_all
  then have "calm (ask_p E cfg r t g a) tame" for t g a
    unfolding ask_p_def request_p_def by (auto intro!: calm_actions split: option.split sum.split)
  then show ?thesis unfolding token_p_def by (auto intro!: calm_actions split: option.split sum.split)
qed

text \<open>A poll creates nothing.\<close>

lemma calm_poll:
  assumes "framing K"
  shows "calm (poll_p E cfg r) K"
proof -
  have "calm (state_p E cfg a p req) K" for a p req
    using assms by (auto simp: state_p_def approved_p_def intro!: calm_actions calm_finish split: State.split)
  then show ?thesis
    unfolding poll_p_def using assms
    by (auto simp: Poll_def set_request_def intro!: calm_on_pending calm_actions split: sum.split option.splits if_splits)
qed

lemma calm_page: "calm (approvePage_p E cfg r) tame"
proof -
  have "calm (page_p E cfg code p req) tame" for code p req
    by (auto simp: page_p_def challenge_p_def intro!: calm_actions calm_ApproveRoutine split: option.split sum.split)
  then show ?thesis unfolding approvePage_p_def Let_def ByCode_def by (intro calm_code) simp_all
qed

lemma calm_confirm: "calm (approveElevated_p E cfg r) tame"
proof -
  have "calm (confirm_p E cfg code sg req) tame" for code sg req
    by (auto simp: confirm_p_def intro!: calm_actions calm_ApproveElevated split: option.split sum.split)
  then have "calm (reads (\<lambda>s. byCodeLocked (pending s) (path_value r)) (\<lambda>res. case res of
      Inl x \<Rightarrow> Done (ErrorReply 404 ''unknown_code'') | Inr None \<Rightarrow> Crash
    | Inr (Some p) \<Rightarrow> follow (the_request p) (confirm_p E cfg (path_value r) sg))) tame" for sg
    by (intro calm_code) simp_all
  then show ?thesis unfolding approveElevated_p_def Let_def ByCode_def by (simp split: option.split)
qed

lemma calm_others:
  "calm (onboard_p E cfg r) tame" "calm (enrollAgent_p E cfg r) tame" "calm (servePSA_p r) tame"
  "calm (serveGrant_p r) tame" "calm (export_p cfg r) tame" "calm (devRevoke_p r) tame"
  unfolding onboard_p_def VerifyAndOnboard_p_def enrollAgent_p_def admit_p_def enroll_p_def servePSA_p_def
    serveGrant_p_def export_p_def devRevoke_p_def Let_def
  by (auto intro!: calm_actions calm_log split: option.split sum.split simp: calm_Act tame_def fresh_def)

lemmas calm_handlers = calm_token calm_poll [OF framing_tame] calm_page calm_confirm calm_others calm.simps(1) [THEN fun_cong, THEN iffD2, OF TrueI]

lemma calm_for_method: "calm q tame \<Longrightarrow> calm (for_method_p ok q) tame"
  by (simp add: for_method_p_def)

lemma calm_routes: "calm (psd_routes_p b E cfg meth path r) tame"
proof -
  have "calm (Routes_p E cfg meth path r) tame"
    unfolding Routes_p_def Let_def
    by (simp only: split: list.split) (intro conjI allI impI calm_if calm_for_method calm_handlers)
  then show ?thesis unfolding psd_routes_p_def by (intro calm_if calm_for_method calm_handlers)
qed

definition collision_free :: "server_pool \<Rightarrow> bool" where
  "collision_free p = (\<forall>i th. threads p i = Some th \<longrightarrow> calm (th_proc th) tame)"

lemma collision_free_settle:
  assumes "settle_step p p'" and "collision_free p"
  shows "collision_free p' \<and> tame (shared p) (shared p')"
  using assms(1)
proof (cases rule: settle_cases)
  case (act i th f e s q)
  have "calm (Act f) tame" using assms(2) act(2,3) unfolding collision_free_def by metis
  then have "tame (shared p) s \<and> calm q tame" using act(4) by (metis calm_Act fst_conv snd_conv)
  then show ?thesis using assms(2) by (auto simp: act(1) collision_free_def)
next
  case (leave i th rep)
  then show ?thesis using assms(2) by (auto simp: collision_free_def tame_def fresh_def)
qed

lemma collision_free_step:
  assumes "pool_step b E cfg p p'" and "collision_free p"
  shows "collision_free p' \<and> tame (shared p) (shared p')"
  using assms(1)
proof cases
  case settle
  then show ?thesis using collision_free_settle [OF _ assms(2)] by blast
qed (use assms(2) in \<open>auto simp: collision_free_def arrived_def calm_routes tame_def fresh_def\<close>)

interpretation collisions: transition_invariant "pool_step b E cfg" collision_free for b E cfg
  by unfold_locales (use collision_free_step in blast)

lemma fresh_act:
  "act_step (\<lambda>_. True) p p' \<and> fresh (shared p) (shared p') \<Longrightarrow> fresh_step b E cfg p p'"
  by (simp add: fresh_step_def pool_step.settle settle_step.act)

text \<open>A poll answered by the atomic server is so answered by a thread of the pool.\<close>

lemma poll_interleaves:
  assumes "Routes E cfg e s ''GET'' [''pending'', rid] r = Some (s', rep)"
  obtains p th where "(fresh_step Prod E cfg)\<^sup>*\<^sup>* (resting s) p" "threads p 0 = Some th" "shared p = s'"
    "th_path th = [''pending'', rid]" "th_http th = r" "th_proc th = Done rep"
proof -
  let ?th = "arrived Prod E cfg ''GET'' [''pending'', rid] r"
  let ?p = "(resting s)\<lparr>threads := (threads (resting s))(0 \<mapsto> ?th)\<rparr>"
  have "pool_step Prod E cfg (resting s) ?p" by (rule pool_step.arrive) simp
  then have first: "fresh_step Prod E cfg (resting s) ?p" by (simp add: fresh_step_def fresh_def)
  have "th_proc ?th = poll_p E cfg (r\<lparr>path_value := rid\<rparr>)"
    by (simp add: arrived_def psd_routes_p_def Routes_p_def for_method_p_def Let_def)
  moreover have "run (th_proc ?th) e s = Some (s', rep)"
    using assms by (simp add: arrived_def run_psd_routes psd_routes_def installDevRoutes_prod_def)
  ultimately have "(\<lambda>p p'. act_step (\<lambda>_. True) p p' \<and> fresh (shared p) (shared p'))\<^sup>*\<^sup>* ?p (moved ?p 0 ?th s' (Done rep))"
    using calm_poll [OF framing_fresh] by (intro run_interleaves [where q = "th_proc ?th" and s = s]) auto
  then have "(fresh_step Prod E cfg)\<^sup>*\<^sup>* ?p (moved ?p 0 ?th s' (Done rep))"
    using fresh_act by (rule mono_rtranclp [rule_format, rotated])
  with first have "(fresh_step Prod E cfg)\<^sup>*\<^sup>* (resting s) (moved ?p 0 ?th s' (Done rep))"
    by (rule converse_rtranclp_into_rtranclp)
  then show thesis by (rule that) (simp add: arrived_def)+
qed

section \<open>Every handler ends\<close>

text \<open>Each action takes one, whatever it hands on.\<close>

lemma within_stores:
  "n \<noteq> 0 \<Longrightarrow> (\<And>x. within (m' x) (n - 1)) \<Longrightarrow> within (on_tenants j m') n"
  "n \<noteq> 0 \<Longrightarrow> (\<And>x. within (n' x) (n - 1)) \<Longrightarrow> within (on_pending j' n') n"
  by (auto simp: on_tenants_def on_pending_def within_Act split: option.split)

lemmas within_actions = within_reading within_stores

lemma within_log: "within k n \<Longrightarrow> within (log_p E t a kind rid k) (n + 2)"
  unfolding log_p_def by (intro within_actions) simp_all

lemma within_transition: "(\<And>res. within (k res) n) \<Longrightarrow> within (transition_p p to k) (n + 1)"
  unfolding transition_p_def by (intro within_actions) simp_all

lemma within_code:
  fixes k :: "consent_err \<Rightarrow> proc"
  assumes "\<And>x. within (k x) n" and "\<And>p r. within (l p r) n"
  shows "within (reads (\<lambda>s. byCodeLocked (pending s) code) (\<lambda>res.
      case res of Inl x \<Rightarrow> k x | Inr None \<Rightarrow> Crash | Inr (Some p) \<Rightarrow> follow (the_request p) (l p))) (n + 2)"
  by (intro within_actions)
    (use assms within_add [of "k _" n 1] in \<open>auto intro!: within_actions split: sum.split option.split\<close>)

lemma within_ApproveRoutine: "(\<And>res. within (k res) n) \<Longrightarrow> within (ApproveRoutine_p code k) (n + 3)"
  unfolding ApproveRoutine_p_def
  using within_code [of "\<lambda>x. k (Inl x)" "n + 1"] within_transition [of k n] within_add [of "k _" n 1]
  by (simp add: numeral_eq_Suc)

lemma within_ApproveElevated:
  assumes "\<And>res. within (k res) n"
  shows "within (ApproveElevated_p E code root chainID addr sg k) (n + 4)"
proof -
  have "within (on_pending f (\<lambda>_ :: unit. transition_p p StateApproved k)) (n + 2)" for f p
    by (intro within_actions) (use within_transition [OF assms] in simp_all)
  then have "within (if rq_Tier r \<noteq> TierElevated then k (Inl NotElevated)
      else case ApprovalDigest E r chainID addr of None \<Rightarrow> k (Inl ApprovalDigestErr)
        | Some digest \<Rightarrow> (case verifyEOASig E root digest sg of Inl x \<Rightarrow> k (Inl x)
            | Inr _ \<Rightarrow> on_pending (\<lambda>_ st. case rheap st p of None \<Rightarrow> None
                | Some r' \<Rightarrow> Some (set_request st p (r'\<lparr>rq_StepUpSig := Some sg\<rparr>), ()))
                (\<lambda>_. transition_p p StateApproved k))) (n + 2)" for p r
    using within_add [OF assms, of _ 2] by (simp split: option.split sum.split)
  from within_code [of "\<lambda>x. k (Inl x)", OF within_add [OF assms] this]
  show ?thesis unfolding ApproveElevated_p_def by (simp add: numeral_eq_Suc)
qed

lemma within_issue: "within (issue_p E cfg req ten t g res a) 3"
  unfolding issue_p_def using within_log [of "Done _" 0]
  by (auto intro!: within_actions simp: numeral_eq_Suc split: list.split option.split sum.split)

lemma within_finish: "within (finish_p E cfg p t g res a) 5"
  unfolding finish_p_def using within_issue by (auto intro!: within_actions simp: numeral_eq_Suc)

lemma within_answer: "within (answer_p E cfg t g res a req p) 9"
  unfolding answer_p_def using within_ApproveRoutine [OF within_finish] by (auto intro!: within_actions)

lemma within_create: "within (create_p E cfg t g res a req) 12"
  unfolding create_p_def using within_log [OF within_answer] by (auto intro!: within_actions)

lemma within_request: "within (request_p E cfg t g res a) 14"
  unfolding request_p_def using within_create by (auto intro!: within_actions)

lemma within_ask: "within (ask_p E cfg r t g a) 15"
  unfolding ask_p_def using within_request by (auto intro!: within_actions split: option.split sum.split)

lemma within_token: "within (token_p E cfg r) 17"
  unfolding token_p_def using within_ask by (auto intro!: within_actions split: option.split sum.split)

lemma within_poll: "within (poll_p E cfg r) 9"
proof -
  have "within (state_p E cfg a p req) 7" for a p req
    unfolding state_p_def approved_p_def using within_finish by (auto intro!: within_actions split: State.split)
  then show ?thesis unfolding poll_p_def by (auto intro!: within_actions split: sum.split)
qed

lemma within_onboard: "within (onboard_p E cfg r) 5"
proof -
  have "within (VerifyAndOnboard_p E psa issuer thumbs k) 5" if "\<And>res. within (k res) 1" for psa issuer thumbs k
    unfolding VerifyAndOnboard_p_def Let_def using that within_add [OF that]
    by (auto intro!: within_actions split: sum.split option.split simp: within_more [OF that])
  moreover have "within (case res of Inl (_ :: tenant_err) \<Rightarrow> Done x | Inr t \<Rightarrow> (follow (the_tenant t) (\<lambda>ten. Done (y ten)) :: proc)) 1" for res x y
    by (auto intro!: within_actions split: sum.split)
  ultimately show ?thesis unfolding onboard_p_def by (simp split: option.split)
qed

lemma within_enroll: "within (enrollAgent_p E cfg r) 7"
proof -
  have "within (enroll_p E t g a root) 3" for t g a root
    unfolding enroll_p_def using within_log [of "Done _" 0]
    by (auto intro!: within_actions split: sum.split simp: numeral_eq_Suc)
  then have "within (admit_p E t g a thumb) 6" for t g a thumb
    unfolding admit_p_def by (auto intro!: within_actions split: sum.split)
  then show ?thesis
    unfolding enrollAgent_p_def by (auto intro!: within_actions split: sum.split option.split)
qed

lemma within_page: "within (approvePage_p E cfg r) 5"
proof -
  have "within (challenge_p E cfg code p req) 3" "within (page_p E cfg code p req) 3" for code p req
    unfolding page_p_def challenge_p_def
    by (auto intro!: within_actions within_ApproveRoutine [where n = 0, simplified] split: sum.split option.split)
  then show ?thesis
    unfolding approvePage_p_def Let_def ByCode_def
    using within_code [of "\<lambda>_. Done _" 3] by (simp add: numeral_eq_Suc)
qed

lemma within_confirm: "within (approveElevated_p E cfg r) 8"
proof -
  have "within (ApproveElevated_p E code root c addr sg (\<lambda>res. case res of Inl _ \<Rightarrow> Done x | Inr _ \<Rightarrow> Done y)) 4"
    for code root c addr sg x y
    using within_ApproveElevated [of "\<lambda>res. case res of Inl _ \<Rightarrow> Done x | Inr _ \<Rightarrow> Done y" 0]
    by (simp split: sum.split)
  then have "within (confirm_p E cfg code sg req) 6" for code sg req
    unfolding confirm_p_def by (auto intro!: within_actions split: option.split)
  then show ?thesis
    unfolding approveElevated_p_def Let_def ByCode_def
    using within_code [of "\<lambda>_. Done _" 6] by (simp split: option.split)
qed

lemma within_documents:
  "within (servePSA_p r) 2" "within (serveGrant_p r) 1" "within (export_p cfg r) 3" "within (devRevoke_p r) 1"
  unfolding servePSA_p_def serveGrant_p_def export_p_def devRevoke_p_def Let_def
  by (auto intro!: within_actions split: option.split sum.split simp: within_Act)

lemmas within_handlers = within_onboard within_enroll within_token within_poll within_page within_confirm
  within_documents

lemma within_for_method: "within q n \<Longrightarrow> within (for_method_p ok q) n"
  by (simp add: for_method_p_def)

lemma within_routes: "within (psd_routes_p b E cfg meth path r) 17"
proof -
  have "within (Routes_p E cfg meth path r) 17"
    unfolding Routes_p_def Let_def
    by (simp only: split: list.split)
      (intro conjI allI impI within_if within_for_method within.simps(1) [THEN fun_cong, THEN iffD2] TrueI;
       rule within_handlers [THEN within_more]; simp)
  then show ?thesis
    unfolding psd_routes_p_def using within_more [OF within_documents(4)] by (simp add: within_for_method)
qed

lemma timely_step: "pool_step b E cfg p p' \<Longrightarrow> timely 17 p \<Longrightarrow> timely 17 p'"
proof (elim pool_stepE, goal_cases)
  case 2
  then show ?case using timely_settle by blast
qed (auto simp: timely_def arrived_def within_routes)

interpretation timeliness: transition_invariant "pool_step b E cfg" "timely 17" for b E cfg
  by unfold_locales (rule timely_step)

section \<open>Properties\<close>

text \<open>C2: start from any state of the server, let any number of requests be in flight and
  their handlers' actions come in any order, with revocations in between, as long as no drawn
  identifier or code is already in use: whenever a request ends with an auth token, it is a poll by
  the agent of the request polled, that request is approved, and the token is what \<open>Mint\<close> makes of an
  authorization and a grant signed by the agent's root and of the claims the request showed; above
  the step-up threshold of that authorization the token carries a step-up, and a step-up it carries is
  the root's own signature of this very approval.\<close>

theorem interleaved_tokens_sound:
  assumes "(ps_step E cfg)\<^sup>*\<^sup>* New_server s" and "(fresh_step b E cfg)\<^sup>*\<^sup>* (resting s) p"
    and "threads p i = Some th" and "th_proc th = Done (token_reply tok)"
  shows "\<exists>rid thumb x q root.
     th_path th = [''pending'', rid] \<and> Sig cfg ((th_http th)\<lparr>path_value := rid\<rparr>) = Inr (thumb, rq_AgentID q)
     \<and> rq_ID q = rid \<and> byID (pending (shared p)) rid = Some x
     \<and> content (pending (shared p)) x = Some q \<and> decision (pending (shared p)) x = Some StateApproved
     \<and> byAgent (tenants (shared p)) (rq_AgentID q) = Some root \<and> minted E cfg root q tok"
proof -
  have "answers E cfg (th_path th) (th_http th) (shared p) (token_reply tok)"
    using pool_okD(2) [OF interleaved_ok [OF assms(1,2)] assms(3,4)] .
  then show ?thesis by (auto simp: answers_def own_token_def token_sound_def)
qed

theorem interleaved_tokens_sound_witness:
  "\<exists>s p th q root. (ps_step sample_ext sample_cfg)\<^sup>*\<^sup>* New_server s
     \<and> (fresh_step Prod sample_ext sample_cfg)\<^sup>*\<^sup>* (resting s) p
     \<and> threads p 0 = Some th \<and> th_proc th = Done (token_reply run_token)
     \<and> rq_ID q = newID ''i'' \<and> minted sample_ext sample_cfg root q run_token"
proof -
  obtain s s' where s: "(ps_step sample_ext sample_cfg)\<^sup>*\<^sup>* New_server s"
    "Routes sample_ext sample_cfg (sample_env 1020) s ''GET'' [''pending'', newID ''i''] http_poll
       = Some (s', token_reply run_token)"
    using sample_approved_state by metis
  obtain p th where p: "(fresh_step Prod sample_ext sample_cfg)\<^sup>*\<^sup>* (resting s) p" "threads p 0 = Some th"
    "th_path th = [''pending'', newID ''i'']" "th_proc th = Done (token_reply run_token)"
    using poll_interleaves [OF s(2)] by metis
  from interleaved_tokens_sound [OF s(1) p(1,2,4)] p(3) obtain q root where
    "rq_ID q = newID ''i''" "minted sample_ext sample_cfg root q run_token" by auto
  then show ?thesis using s(1) p(1,2,4) by blast
qed

text \<open>C6: under the same interleavings no handler panics, whatever the others do between its
  actions, so every request in flight has been answered or can go on; and the server holds only
  what a person signed.\<close>

theorem interleaved_never_panic:
  assumes "(ps_step E cfg)\<^sup>*\<^sup>* New_server s" and "(fresh_step b E cfg)\<^sup>*\<^sup>* (resting s) p"
  shows "(threads p i = Some th \<longrightarrow> (\<exists>rep. th_proc th = Done rep) \<or> (\<exists>f. th_proc th = Act f))
    \<and> (registered (tenants (shared p)) root = Some ten \<longrightarrow>
         psa_ok E cfg (tPSA ten) \<and> (\<forall>a g. grants ten a = Some g \<longrightarrow> grant_ok E root a g))"
proof -
  note ok = pool_okD [OF interleaved_ok [OF assms]]
  then show ?thesis using registered_docs [OF ok(1)] by (cases "th_proc th") auto
qed

theorem interleaved_never_panic_witness:
  "\<exists>s p th. threads p 0 = Some th \<and> (fresh_step Prod sample_ext sample_cfg)\<^sup>*\<^sup>* (resting s) p
     \<and> ((\<exists>rep. th_proc th = Done rep) \<or> (\<exists>f. th_proc th = Act f))"
proof -
  obtain s s' where s: "(ps_step sample_ext sample_cfg)\<^sup>*\<^sup>* New_server s"
    "Routes sample_ext sample_cfg (sample_env 1020) s ''GET'' [''pending'', newID ''i''] http_poll
       = Some (s', token_reply run_token)"
    using sample_approved_state by metis
  obtain p th where p: "(fresh_step Prod sample_ext sample_cfg)\<^sup>*\<^sup>* (resting s) p" "threads p 0 = Some th"
    using poll_interleaves [OF s(2)] by metis
  then show ?thesis using interleaved_never_panic [OF s(1) p(1), of 0 th] by blast
qed

text \<open>C7: the interleavings of the two theorems above leave out nothing but collisions: from
  every pool the server can be brought to, each step of each handler either keeps all identifiers and
  codes in use, or creates a request whose drawn identifier or approval code is in use already.\<close>

theorem only_collisions_are_left_out:
  assumes "(pool_step b E cfg)\<^sup>*\<^sup>* (resting s) p" and "pool_step b E cfg p p'"
  shows "fresh_step b E cfg p p'
    \<or> (\<exists>q. (byID (pending (shared p)) (rq_ID q) \<noteq> None \<or> byCode (pending (shared p)) (rq_Code q) \<noteq> None)
          \<and> pending (shared p') = fst (Create (pending (shared p)) q))"
proof -
  have "collision_free p"
    by (rule collisions.inv_reaches [OF assms(1)]) (simp add: collision_free_def)
  then show ?thesis
    using collision_free_step [OF assms(2)] assms(2) by (auto simp: fresh_step_def tame_def collides_def)
qed

theorem only_collisions_are_left_out_witness:
  "\<exists>p'. fresh_step Prod sample_ext sample_cfg (resting New_server) p'"
proof -
  obtain p' where p': "pool_step Prod sample_ext sample_cfg (resting New_server) p'"
    "pending (shared p') = pending New_server"
    using pool_step.arrive [of "resting New_server" 0] by (fastforce simp: resting_def)
  have "byID (pending New_server) = Map.empty" "byCode (pending New_server) = Map.empty"
    by (simp_all add: New_server_def NewStore_def)
  then show ?thesis
    using only_collisions_are_left_out [OF rtranclp.rtrancl_refl p'(1)] by (auto simp: resting_def)
qed



lemma ApproveElevated_created:
  assumes "rq_Tier q = TierElevated" and "now \<le> rq_ExpiresAt q"
    and "ApprovalDigest E q chainID addr = Some d" and "verifyEOASig E root d sig = Inr ()"
  shows "\<exists>st'. ApproveElevated E (fst (Create st q)) now (rq_Code q) root chainID addr sig = Some (st', Inr ())
    \<and> rheap st' (rnext st) = Some (q\<lparr>rq_State := StateApproved, rq_StepUpSig := Some sig\<rparr>)"
  using assms
  by (simp add: ApproveElevated_def Create_def byCodeLocked_def deref_def ApprovalDigest_frame transition_def
      set_request_def)

text \<open>C34: why collisions are left out. A root's owner posts a signature
  for an approval code; the handler looks up the root from the request the code leads to; then a
  request of any other agent is created under the same code. The handler goes on with the new
  request: if the signature fits it, the new request is approved and carries that signature as its
  step-up, whatever root the new request's agent is bound to.\<close>

theorem colliding_code_misdirects_approval:
  assumes "Option.bind (json_decode (http_body r)) signature_of_json = Some sg"
    and "byCode (pending s) (path_value r) = Some rid" "byID (pending s) rid = Some p" "rheap (pending s) p = Some q"
    and "ByAgent (tenants s) (rq_AgentID q) = Some t" "theap (tenants s) t = Some ten"
    and "rq_Code q2 = path_value r" "rq_Tier q2 = TierElevated" "clock e \<le> rq_ExpiresAt q2"
    and "ApprovalDigest E q2 (ChainID cfg) (RegistryAddr cfg) = Some d" "verifyEOASig E (Root ten) d (hexBytes sg) = Inr ()"
  shows "\<exists>rest s2. paused 4 (approveElevated_p E cfg r) e s = (s, rest)
    \<and> run rest e (s\<lparr>pending := fst (Create (pending s) q2)\<rparr>)
        = Some (s2, Reply 200 [] (JObj [(''status'', JStr ''approved'')]))
    \<and> rheap (pending s2) (rnext (pending s))
        = Some (q2\<lparr>rq_State := StateApproved, rq_StepUpSig := Some (hexBytes sg)\<rparr>)"
proof -
  have code: "ByCode (pending s) (path_value r) = Inr (Some p)"
    using assms(2,3) by (simp add: ByCode_def byCodeLocked_def)
  obtain st' where st': "ApproveElevated E (fst (Create (pending s) q2)) (clock e) (path_value r) (Root ten)
      (ChainID cfg) (RegistryAddr cfg) (hexBytes sg) = Some (st', Inr ())"
    "rheap st' (rnext (pending s)) = Some (q2\<lparr>rq_State := StateApproved, rq_StepUpSig := Some (hexBytes sg)\<rparr>)"
    using ApproveElevated_created [OF assms(8-11), of "pending s"] assms(7) by metis
  let ?rest = "ApproveElevated_p E (path_value r) (Root ten) (ChainID cfg) (RegistryAddr cfg) (hexBytes sg)
      (\<lambda>res. case res of Inl _ \<Rightarrow> Done (ErrorReply 403 ''step_up_failed'')
         | Inr _ \<Rightarrow> Done (Reply 200 [] (JObj [(''status'', JStr ''approved'')])))"
  have four: "4 = Suc (Suc (Suc (Suc 0)))" by simp
  have "paused 4 (approveElevated_p E cfg r) e s = (s, ?rest)"
    unfolding four using assms(1,4-6) code
    by (simp add: approveElevated_p_def confirm_p_def the_request_def the_tenant_def Let_def)
  then show ?thesis using st' by (simp add: run_ApproveElevated)
qed

definition other_request :: Request where
  "other_request = run_request\<lparr>rq_ID := ''j'', rq_AgentID := ''aauth:b@c''\<rparr>"

theorem colliding_code_misdirects_approval_witness:
  "\<exists>s rest s2 sg r. (ps_step sample_ext sample_cfg)\<^sup>*\<^sup>* New_server s
     \<and> paused 4 (approveElevated_p sample_ext sample_cfg r) (sample_env 1010) s = (s, rest)
     \<and> run rest (sample_env 1010) (s\<lparr>pending := fst (Create (pending s) other_request)\<rparr>)
         = Some (s2, Reply 200 [] (JObj [(''status'', JStr ''approved'')]))
     \<and> rheap (pending s2) (rnext (pending s)) = Some (other_request\<lparr>rq_State := StateApproved, rq_StepUpSig := Some sg\<rparr>)"
proof -
  obtain s where s: "(ps_step sample_ext sample_cfg)\<^sup>*\<^sup>* New_server s"
    "account (tenants s) sample_root issued_psa ''aauth:a@b'' run_grant"
    "coded (pending s) (newCode ''c'') = Some (0, run_request)"
    using sample_pending_state .
  obtain d where d: "ApprovalDigest sample_ext other_request 8453 ''0xa1'' = Some d" "length d = 32"
    using sample_digest unfolding ApprovalDigest_typed by blast
  let ?sig = "d @ replicate 32 (CHR ''k'') @ [CHR 0x1B]"
  let ?r = "(sample_http (JObj [(''signature'', JStr (hexStr ?sig))]))\<lparr>path_value := newCode ''c''\<rparr>"
  have posted: "Option.bind (json_decode (http_body (sample_http (JObj [(''signature'', JStr (hexStr x))])))) signature_of_json
      = Some (hexStr x)" for x
  proof -
    have "utf8_ok (hexStr x)" by (simp add: hexStr_def)
    then show ?thesis by (simp add: sample_body max_depth_def signature_of_json_def find_field_def)
  qed
  have body: "Option.bind (json_decode (http_body ?r)) signature_of_json = Some (hexStr ?sig)" "path_value ?r = newCode ''c''"
    using posted by simp_all
  have signed: "verifyEOASig sample_ext sample_root d (hexBytes (hexStr ?sig)) = Inr ()"
    using d(2) sample_eoaSigned [OF d(2)] sample_addresses by (simp add: verifyEOASig_agree)
  have q: "rq_Code other_request = newCode ''c''" "rq_Tier other_request = TierElevated"
    "clock (sample_env 1010) \<le> rq_ExpiresAt other_request" "rq_AgentID run_request = ''aauth:a@b''"
    by (simp_all add: other_request_def run_request_def new_request_def Second_def Minute_def)
  obtain rid where code: "byCode (pending s) (newCode ''c'') = Some rid" "byID (pending s) rid = Some 0"
    "rheap (pending s) 0 = Some run_request"
    using s(3) by (auto simp: coded_def deref_def split: option.splits)
  obtain t ten where t: "ByAgent (tenants s) ''aauth:a@b'' = Some t" "theap (tenants s) t = Some ten" "Root ten = sample_root"
    using account_live [OF reachable_ok [OF s(1)] s(2)] by metis
  from colliding_code_misdirects_approval [where r = ?r and s = s and ?q2.0 = other_request and cfg = sample_cfg
      and e = "sample_env 1010" and E = sample_ext and d = d, OF body(1), unfolded body(2), OF code _ t(2) q(1-3)]
  show ?thesis using d(1) signed t q(4) s(1) by auto
qed

end
