(* ===== verification/Fixtures.thy ===== *)
theory Fixtures
  imports Devtool "HOL-Library.List_Lexorder" "HOL-Library.Char_ord"
begin

text \<open>
  The fixtures and fakes the Go test suites share (\<open>internal/testutil\<close>): deterministic keys, signed
  documents with options, a revocation registry that can also fail, resolvers and a replay cache, and
  tokens built by hand. What the suites take from a fixture is proved of it here: the documents
  verify, the fake registry is the daemon's own, the fake cache is a replay cache. Names carry the
  suffix \<open>_fx\<close> where the program has the same name; a fatal test failure is \<open>None\<close>.
\<close>

section \<open>Constants\<close>

definition Issuer_fx :: string where "Issuer_fx = ''https://ps.example.test''"
definition AgentID_fx :: string where "AgentID_fx = ''aauth:fixture@agents.example.test''"
definition RegistryAddr_fx :: string where "RegistryAddr_fx = ''0x00000000000000000000000000000000000000a1''"
definition ChainID_fx :: int where "ChainID_fx = 8453"
definition PSANonce_fx :: "64 word" where "PSANonce_fx = 7"
definition GrantNonce_fx :: "64 word" where "GrantNonce_fx = 9"
definition MissionS256_fx :: string where
  "MissionS256_fx = ''0123456789abcdef0123456789abcdef0123456789abcdef0123456789abcdef''"

definition NotBefore_fx :: int where "NotBefore_fx = 1700000000"
definition NotAfter_fx :: int where "NotAfter_fx = 1700003600"
definition NowUnix_fx :: int where "NowUnix_fx = 1700001000"

definition Clock_fx :: "int \<Rightarrow> time" where
  "Clock_fx u = u * Second"

definition Now_fx :: time where
  "Now_fx = NowUnix_fx * Second"

section \<open>Keys\<close>

text \<open>
  \<open>K\<close> is \<open>ed25519.NewKeyFromSeed\<close>: the 32-byte seed followed by the public key, which
  \<open>Public\<close> copies out again.
\<close>

definition seed :: "nat \<Rightarrow> bytes" where
  "seed b = map (\<lambda>i. char_of ((b + i) mod 256)) [0..<32]"

definition issuerSeed :: bytes where "issuerSeed = seed 17"
definition agentSeed :: bytes where "agentSeed = seed 34"
definition otherAgentSeed :: bytes where "otherAgentSeed = seed 51"

definition RootPrivHex :: string where
  "RootPrivHex = ''4c0883a69102937d6231471b5dbb6204fe5129617082792ae468d01a3f362318''"
definition OtherRootPrivHex :: string where
  "OtherRootPrivHex = ''2a871d0798f97d79848a013d4936a73bf4cc922c825d33c1cf7073dff6d409c6''"

definition ecdsaKey :: "wallet \<Rightarrow> string \<Rightarrow> bytes option" where
  "ecdsaKey W hexPriv = EcdsaHex W hexPriv"

definition RootKey_fx :: "wallet \<Rightarrow> bytes option" where
  "RootKey_fx W = ecdsaKey W RootPrivHex"

definition OtherRootKey :: "wallet \<Rightarrow> bytes option" where
  "OtherRootKey W = ecdsaKey W OtherRootPrivHex"

definition addrOf :: "ext \<Rightarrow> wallet \<Rightarrow> bytes \<Rightarrow> string" where
  "addrOf E W k = PubkeyToAddressHex E (EcdsaPublic W k)"

definition RootAddr :: "ext \<Rightarrow> wallet \<Rightarrow> string option" where
  "RootAddr E W = map_option (addrOf E W) (RootKey_fx W)"

definition OtherRootAddr :: "ext \<Rightarrow> wallet \<Rightarrow> string option" where
  "OtherRootAddr E W = map_option (addrOf E W) (OtherRootKey W)"

definition jwkOf :: "bytes \<Rightarrow> JWK" where
  "jwkOf priv = \<lparr>Kty = ''OKP'', Crv = ''Ed25519'', X = b64_raw True (copy32 (drop 32 priv))\<rparr>"

definition IssuerKey_fx :: "(bytes \<Rightarrow> bytes) \<Rightarrow> bytes" where "IssuerKey_fx K = K issuerSeed"
definition AgentKey_fx :: "(bytes \<Rightarrow> bytes) \<Rightarrow> bytes" where "AgentKey_fx K = K agentSeed"
definition OtherAgentKey :: "(bytes \<Rightarrow> bytes) \<Rightarrow> bytes" where "OtherAgentKey K = K otherAgentSeed"

definition IssuerJWK :: "(bytes \<Rightarrow> bytes) \<Rightarrow> JWK" where "IssuerJWK K = jwkOf (IssuerKey_fx K)"
definition AgentJWK :: "(bytes \<Rightarrow> bytes) \<Rightarrow> JWK" where "AgentJWK K = jwkOf (AgentKey_fx K)"
definition OtherAgentJWK :: "(bytes \<Rightarrow> bytes) \<Rightarrow> JWK" where "OtherAgentJWK K = jwkOf (OtherAgentKey K)"

definition IssuerThumb :: "ext \<Rightarrow> (bytes \<Rightarrow> bytes) \<Rightarrow> string" where
  "IssuerThumb E K = Thumbprint E (IssuerJWK K)"

definition AgentThumb :: "ext \<Rightarrow> (bytes \<Rightarrow> bytes) \<Rightarrow> string" where
  "AgentThumb E K = Thumbprint E (AgentJWK K)"

definition OtherAgentThumb :: "ext \<Rightarrow> (bytes \<Rightarrow> bytes) \<Rightarrow> string" where
  "OtherAgentThumb E K = Thumbprint E (OtherAgentJWK K)"

definition IssuerKid :: string where "IssuerKid = ''ps-test-01''"

definition IssuerSigningKey :: "(bytes \<Rightarrow> bytes) \<Rightarrow> IssuerKey" where
  "IssuerSigningKey K = \<lparr>Kid = IssuerKid, Priv = IssuerKey_fx K, Pub = IssuerJWK K\<rparr>"

section \<open>Documents\<close>

text \<open>Options change a document before it is signed.\<close>

type_synonym PSAOpt = "PSA \<Rightarrow> PSA"
type_synonym GrantOpt = "AgentGrant \<Rightarrow> AgentGrant"

definition SignPSA_fx :: "ext \<Rightarrow> wallet \<Rightarrow> PSA \<Rightarrow> bytes \<Rightarrow> PSA option" where
  "SignPSA_fx E W p k =
     (case PSADigest E p of
        None \<Rightarrow> None
      | Some digest \<Rightarrow>
          (case EcdsaSign W digest k of None \<Rightarrow> None | Some sig \<Rightarrow> Some (p\<lparr>psa_Signature := Some sig\<rparr>)))"

definition SignGrant_fx :: "ext \<Rightarrow> wallet \<Rightarrow> AgentGrant \<Rightarrow> bytes \<Rightarrow> AgentGrant option" where
  "SignGrant_fx E W g k =
     (case AgentGrantDigest E g of
        None \<Rightarrow> None
      | Some digest \<Rightarrow>
          (case EcdsaSign W digest k of None \<Rightarrow> None | Some sig \<Rightarrow> Some (g\<lparr>ag_Signature := Some sig\<rparr>)))"

definition ValidPSA :: "ext \<Rightarrow> wallet \<Rightarrow> (bytes \<Rightarrow> bytes) \<Rightarrow> PSAOpt list \<Rightarrow> PSA option" where
  "ValidPSA E W K opts =
     (case RootKey_fx W of
        None \<Rightarrow> None
      | Some priv \<Rightarrow>
          (let p = \<lparr>psa_Root = addrOf E W priv, psa_Issuer = Issuer_fx,
                    psa_KeyThumbprints = Some [IssuerThumb E K],
                    psa_Scope = \<lparr>MaxTokenTTLSeconds = 3600, AllowedClaims = Some [''email''],
                                 PaymentCapWei = ''1000000000000000000'',
                                 StepUpAboveWei = ''100000000000000000''\<rparr>,
                    psa_NotBefore = NotBefore_fx, psa_NotAfter = NotAfter_fx,
                    psa_RegistryChain = ChainID_fx, psa_Registry = RegistryAddr_fx,
                    psa_Nonce = PSANonce_fx, psa_Signature = None\<rparr>
           in SignPSA_fx E W (fold (\<lambda>opt. opt) opts p) priv))"

definition ValidGrant :: "ext \<Rightarrow> wallet \<Rightarrow> (bytes \<Rightarrow> bytes) \<Rightarrow> GrantOpt list \<Rightarrow> AgentGrant option" where
  "ValidGrant E W K opts =
     (case RootKey_fx W of
        None \<Rightarrow> None
      | Some priv \<Rightarrow>
          (let g = \<lparr>ag_Root = addrOf E W priv, ag_AgentIdentifier = AgentID_fx,
                    ag_AgentThumbprint = AgentThumb E K, ag_AgentPubKey = X (AgentJWK K),
                    ag_MissionScopeS256 = MissionS256_fx,
                    ag_NotBefore = NotBefore_fx, ag_NotAfter = NotAfter_fx,
                    ag_RegistryChain = ChainID_fx, ag_Registry = RegistryAddr_fx,
                    ag_Nonce = GrantNonce_fx, ag_Signature = None\<rparr>
           in SignGrant_fx E W (fold (\<lambda>opt. opt) opts g) priv))"

definition WithPSAIssuer :: "string \<Rightarrow> PSAOpt" where "WithPSAIssuer iss p = p\<lparr>psa_Issuer := iss\<rparr>"

definition WithPSAWindow :: "int \<Rightarrow> int \<Rightarrow> PSAOpt" where
  "WithPSAWindow nbf naf p = p\<lparr>psa_NotBefore := nbf, psa_NotAfter := naf\<rparr>"

text \<open>Called without thumbprints, the variadic parameter is a nil slice.\<close>

definition WithPSAKeyThumbs :: "string list \<Rightarrow> PSAOpt" where
  "WithPSAKeyThumbs thumbs p = p\<lparr>psa_KeyThumbprints := (if thumbs = [] then None else Some thumbs)\<rparr>"

definition WithPSARoot :: "string \<Rightarrow> PSAOpt" where "WithPSARoot root p = p\<lparr>psa_Root := root\<rparr>"

definition WithPSANonce :: "64 word \<Rightarrow> PSAOpt" where "WithPSANonce n p = p\<lparr>psa_Nonce := n\<rparr>"

definition WithPSAScope :: "Scope \<Rightarrow> PSAOpt" where "WithPSAScope s p = p\<lparr>psa_Scope := s\<rparr>"

definition WithGrantRoot :: "string \<Rightarrow> GrantOpt" where "WithGrantRoot root g = g\<lparr>ag_Root := root\<rparr>"

definition WithGrantAgentID :: "string \<Rightarrow> GrantOpt" where
  "WithGrantAgentID i g = g\<lparr>ag_AgentIdentifier := i\<rparr>"

definition WithGrantAgentThumb :: "string \<Rightarrow> GrantOpt" where
  "WithGrantAgentThumb thumb g = g\<lparr>ag_AgentThumbprint := thumb\<rparr>"

definition WithGrantWindow :: "int \<Rightarrow> int \<Rightarrow> GrantOpt" where
  "WithGrantWindow nbf naf g = g\<lparr>ag_NotBefore := nbf, ag_NotAfter := naf\<rparr>"

definition WithGrantNonce :: "64 word \<Rightarrow> GrantOpt" where "WithGrantNonce n g = g\<lparr>ag_Nonce := n\<rparr>"

text \<open>A window around the real clock.\<close>

definition LiveWindow :: "time \<Rightarrow> int \<times> int" where
  "LiveWindow now = (let n = Unix now in (n - 60, n + 3600))"

definition FlipSigByte :: "bytes \<Rightarrow> bytes option" where
  "FlipSigByte sig =
     (if length sig \<noteq> 65 then None else Some (sig[5 := char_of (255 - char_val (sig ! 5))]))"

section \<open>The fake registry\<close>

text \<open>
  A nil map reads as an empty one, and \<open>Revoke\<close> makes it before writing. \<open>IsRevoked\<close> counts its
  calls.
\<close>

record FakeRegistry =
  fr_revoked :: "string \<rightharpoonup> bool"
  fr_err :: "string option"
  Calls :: nat

definition fake_key :: "string \<Rightarrow> 64 word \<Rightarrow> string" where
  "fake_key root nonce = root @ ''#'' @ show_nat (unat nonce)"

definition LiveRegistry :: FakeRegistry where
  "LiveRegistry = \<lparr>fr_revoked = Map.empty, fr_err = None, Calls = 0\<rparr>"

definition RevokedRegistry :: "string \<Rightarrow> 64 word \<Rightarrow> FakeRegistry" where
  "RevokedRegistry root nonce = \<lparr>fr_revoked = [fake_key root nonce \<mapsto> True], fr_err = None, Calls = 0\<rparr>"

definition ErrRegistry :: "string \<Rightarrow> FakeRegistry" where
  "ErrRegistry err = \<lparr>fr_revoked = Map.empty, fr_err = Some err, Calls = 0\<rparr>"

definition FakeIsRevoked ::
  "FakeRegistry \<Rightarrow> int \<Rightarrow> string \<Rightarrow> string \<Rightarrow> 64 word \<Rightarrow> FakeRegistry \<times> (string + bool)" where
  "FakeIsRevoked f chainID addr root nonce =
     (let f1 = f\<lparr>Calls := Calls f + 1\<rparr> in
      case fr_err f1 of
        Some e \<Rightarrow> (f1, Inl e)
      | None \<Rightarrow> (f1, Inr (case fr_revoked f1 (fake_key root nonce) of None \<Rightarrow> False | Some b \<Rightarrow> b)))"

definition FakeRevoke :: "FakeRegistry \<Rightarrow> string \<Rightarrow> 64 word \<Rightarrow> FakeRegistry" where
  "FakeRevoke f root nonce = f\<lparr>fr_revoked := (fr_revoked f)(fake_key root nonce \<mapsto> True)\<rparr>"

text \<open>What a verifier sees of it: counting changes no answer.\<close>

definition fake_answers :: "FakeRegistry \<Rightarrow> registry" where
  "fake_answers f = (\<lambda>chainID addr root nonce. snd (FakeIsRevoked f chainID addr root nonce))"

lemma fake_answers_asked [simp]: "fake_answers (fst (FakeIsRevoked f c a root n)) = fake_answers f"
  by (simp add: fake_answers_def FakeIsRevoked_def Let_def split: option.split)

text \<open>While it does not fail, the fake is the daemon's in-memory registry.\<close>

lemma fake_key_is_key: "fake_key = key"
  by (simp add: fun_eq_iff fake_key_def key_def)

lemma fake_answers_memory:
  "fake_answers f = (case fr_err f of
     Some e \<Rightarrow> (\<lambda>c a root n. Inl e) | None \<Rightarrow> IsRevoked \<lparr>revoked = fr_revoked f\<rparr>)"
  by (simp add: fake_answers_def FakeIsRevoked_def IsRevoked_def fake_key_is_key fun_eq_iff split: option.split)

text \<open>The registries that do not fail, as a type of their own, are a provider of the interface.\<close>

typedef reachable_registry = "{f :: FakeRegistry. fr_err f = None}"
  morphisms fake_of reachable
  by (rule exI [of _ LiveRegistry]) (simp add: LiveRegistry_def)

setup_lifting type_definition_reachable_registry

lift_definition revoke_fx :: "reachable_registry \<Rightarrow> string \<Rightarrow> 64 word \<Rightarrow> reachable_registry" is FakeRevoke
  by (simp add: FakeRevoke_def)

lift_definition answers_fx :: "reachable_registry \<Rightarrow> registry" is fake_answers .

lemma answers_fx_memory: "answers_fx f = IsRevoked \<lparr>revoked = fr_revoked (fake_of f)\<rparr>"
  using fake_of [of f] by (simp add: answers_fx.rep_eq fake_answers_memory)

lemma revoke_fx_memory:
  "answers_fx (revoke_fx f root n) = IsRevoked (Revoke \<lparr>revoked = fr_revoked (fake_of f)\<rparr> root n)"
  by (simp add: answers_fx_memory revoke_fx.rep_eq FakeRevoke_def Revoke_def fake_key_is_key)

interpretation fake: revocation_registry answers_fx revoke_fx
  by unfold_locales (simp_all only: revoke_fx_memory, simp_all add: answers_fx_memory memory.revoke_hits memory.revoke_keeps)

section \<open>The fake resolvers and replay cache\<close>

record FakeJWKS =
  Key_fx :: JWK
  ByKid :: "(string \<rightharpoonup> JWK) option"
  jwks_Err :: "string option"

definition NewFakeJWKS :: "(bytes \<Rightarrow> bytes) \<Rightarrow> FakeJWKS" where
  "NewFakeJWKS K = \<lparr>Key_fx = IssuerJWK K, ByKid = None, jwks_Err = None\<rparr>"

definition FakeKey :: "ext \<Rightarrow> FakeJWKS \<Rightarrow> string \<Rightarrow> string \<Rightarrow> string + JWK" where
  "FakeKey E f iss kid =
     (case jwks_Err f of
        Some e \<Rightarrow> Inl e
      | None \<Rightarrow>
          (case ByKid f of
             None \<Rightarrow> Inr (Key_fx f)
           | Some m \<Rightarrow> (case m kid of None \<Rightarrow> Inl (''no key for kid '' @ go_quote E kid) | Some k \<Rightarrow> Inr k)))"

text \<open>The documents are pointers, nil unless set.\<close>

record FakeAttest =
  PSAVal :: "PSA option"
  GrantVal :: "AgentGrant option"
  PSAErr :: "string option"
  GrantErr :: "string option"

definition FakePSA :: "FakeAttest \<Rightarrow> string \<Rightarrow> string + PSA option" where
  "FakePSA f ref = (case PSAErr f of Some e \<Rightarrow> Inl e | None \<Rightarrow> Inr (PSAVal f))"

definition FakeAgentGrant :: "FakeAttest \<Rightarrow> string \<Rightarrow> string \<Rightarrow> string + AgentGrant option" where
  "FakeAgentGrant f iss s256 = (case GrantErr f of Some e \<Rightarrow> Inl e | None \<Rightarrow> Inr (GrantVal f))"

text \<open>The set of a cache made by \<open>NewFakeReplay\<close>; a cache without one panics on its first entry.\<close>

record FakeReplay =
  Seen :: "string \<rightharpoonup> bool"

definition NewFakeReplay :: FakeReplay where
  "NewFakeReplay = \<lparr>Seen = Map.empty\<rparr>"

definition SeenJTI_fx :: "FakeReplay \<Rightarrow> string \<Rightarrow> int \<Rightarrow> FakeReplay \<times> bool" where
  "SeenJTI_fx f jti expiry =
     (if Seen f jti = Some True then (f, True) else (f\<lparr>Seen := (Seen f)(jti \<mapsto> True)\<rparr>, False))"

definition spent_fx :: "FakeReplay \<Rightarrow> string \<Rightarrow> bool" where
  "spent_fx f jti = (Seen f jti = Some True)"

interpretation fake_cache: replay_cache SeenJTI_fx spent_fx
  by unfold_locales (auto simp: SeenJTI_fx_def spent_fx_def)

section \<open>Tokens by hand\<close>

text \<open>\<open>json.Marshal\<close> writes a map in the order of its keys; the list holds each key once.\<close>

definition b64_fx :: "bytes \<Rightarrow> string" where
  "b64_fx b = b64_raw True b"

definition SignJWTRaw :: "ext \<Rightarrow> bytes \<Rightarrow> (string \<times> json) list \<Rightarrow> json \<Rightarrow> string" where
  "SignJWTRaw E priv hdr claims =
     (let h = json_print (JObj (sort_key fst hdr)); c = json_print claims;
          signing = b64_fx h @ ''.'' @ b64_fx c
      in signing @ ''.'' @ b64_fx (Ed25519Sign E priv signing))"

definition DefaultJWTHeader :: "(string \<times> json) list" where
  "DefaultJWTHeader = [(''alg'', JStr ''EdDSA''), (''typ'', JStr ''auth+jwt''), (''kid'', JStr IssuerKid)]"

text \<open>\<open>for _, r := range s\<close> walks the runes; a byte that is none is read as U+FFFD.\<close>

function split_runes :: "string \<Rightarrow> string list \<Rightarrow> string \<Rightarrow> string list" where
  "split_runes [] out cur = out @ [cur]"
| "split_runes (c # s) out cur =
     (if c = CHR ''.'' then split_runes s (out @ [cur]) []
      else if char_val c < 128 then split_runes s out (cur @ [c])
      else (let w = utf8_width (c # s) in
            if w = 0 then split_runes s out (cur @ [CHR 0xEF, CHR 0xBF, CHR 0xBD])
            else split_runes (drop (w - 1) s) out (cur @ take w (c # s))))"
  by pat_completeness auto
termination
  by (relation "measure (\<lambda>(s, _, _). length s)") auto

definition splitDot :: "string \<Rightarrow> string list" where
  "splitDot s = split_runes s [] []"

definition DecodeClaims :: "string \<Rightarrow> AuthClaims option" where
  "DecodeClaims raw =
     (let parts = splitDot raw in
      if length parts \<noteq> 3 then None
      else case b64_raw_decode True (parts ! 1) of
             None \<Rightarrow> None
           | Some body \<Rightarrow> Option.bind (json_unmarshal body) AuthClaims_of_json)"

section \<open>The documents verify\<close>

lemma signed_root:
  assumes "ecdsa_law E W k" and "EcdsaSign W d k = Some sig" and "length d = 32"
  shows "eoaSigned E (addrOf E W k) d sig"
proof -
  have sig: "length sig = 65" "char_val (sig ! 64) \<in> {0, 1}" "SigToPub E d sig = Some (EcdsaPublic W k)"
    using assms unfolding ecdsa_law_def by (metis option.inject)+
  then have "normalizeV sig = sig" by (auto simp: normalizeV_def)
  then show ?thesis using sig by (simp add: eoaSigned_def recoverAddress_def addrOf_def addrEq_def)
qed

lemma SignPSA_signs:
  assumes "ecdsa_law E W k" and "SignPSA_fx E W p k = Some p'" and "psa_Root p = addrOf E W k"
  shows "PSA_signed E v p'" "\<exists>sig. p' = p\<lparr>psa_Signature := Some sig\<rparr>"
proof -
  obtain d sig where d: "PSADigest E p = Some d" "EcdsaSign W d k = Some sig" "p' = p\<lparr>psa_Signature := Some sig\<rparr>"
    using assms(2) by (auto simp: SignPSA_fx_def split: option.splits)
  moreover have "PSADigest E p' = PSADigest E p"
    by (simp add: d(3) PSADigest_def PSA_typed_data_def PSA_message_def)
  moreover have "length d = 32" using d(1) digest_length by (simp add: PSADigest_def)
  ultimately show "PSA_signed E v p'" "\<exists>sig. p' = p\<lparr>psa_Signature := Some sig\<rparr>"
    using signed_root [OF assms(1)] assms(3) by (auto simp: PSA_signed_def rootSigned_def)
qed

lemma SignGrant_signs:
  assumes "ecdsa_law E W k" and "SignGrant_fx E W g k = Some g'" and "ag_Root g = addrOf E W k"
  shows "AgentGrant_signed E v g'" "\<exists>sig. g' = g\<lparr>ag_Signature := Some sig\<rparr>"
proof -
  obtain d sig where d: "AgentGrantDigest E g = Some d" "EcdsaSign W d k = Some sig" "g' = g\<lparr>ag_Signature := Some sig\<rparr>"
    using assms(2) by (auto simp: SignGrant_fx_def split: option.splits)
  moreover have "AgentGrantDigest E g' = AgentGrantDigest E g"
    by (simp add: d(3) AgentGrantDigest_def AgentGrant_typed_data_def AgentGrant_message_def)
  moreover have "length d = 32" using d(1) digest_length by (simp add: AgentGrantDigest_def)
  ultimately show "AgentGrant_signed E v g'" "\<exists>sig. g' = g\<lparr>ag_Signature := Some sig\<rparr>"
    using signed_root [OF assms(1)] assms(3) by (auto simp: AgentGrant_signed_def rootSigned_def)
qed

lemma fixture_time: "Unix Now_fx = NowUnix_fx" "NotBefore_fx \<le> NowUnix_fx" "NowUnix_fx \<le> NotAfter_fx"
  by (simp_all add: Unix_def Now_fx_def Second_def NowUnix_fx_def NotBefore_fx_def NotAfter_fx_def)

text \<open>A document that verifies against one registry stands or falls with the answer of another.\<close>

lemma verdict_of_registry:
  assumes "VerifyPSA E v p issuer thumb = Inr ()"
  shows "VerifyPSA E (v\<lparr>Registry := f\<rparr>) p issuer thumb =
     (case f (psa_RegistryChain p) (psa_Registry p) (psa_Root p) (psa_Nonce p) of
        Inl e \<Rightarrow> Inl (PsaRegistryUnavailable e)
      | Inr b \<Rightarrow> if b then Inl (PsaRevoked (psa_Root p) (psa_Nonce p)) else Inr ())"
  using assms by (auto simp: VerifyPSA_def Let_def split: if_splits option.splits sum.splits)

lemma grant_verdict_of_registry:
  assumes "VerifyAgentGrant E v g root a thumb = Inr ()"
  shows "VerifyAgentGrant E (v\<lparr>Registry := f\<rparr>) g root a thumb =
     (case f (ag_RegistryChain g) (ag_Registry g) (ag_Root g) (ag_Nonce g) of
        Inl e \<Rightarrow> Inl (AgRegistryUnavailable e)
      | Inr b \<Rightarrow> if b then Inl AgRevoked else Inr ())"
  using assms by (auto simp: VerifyAgentGrant_def Let_def split: if_splits option.splits sum.splits)

definition fixture_verifier :: "FakeRegistry \<Rightarrow> verifier" where
  "fixture_verifier f = \<lparr>Registry = fake_answers f, ERC1271 = None, Now = Now_fx\<rparr>"

lemma fixture_verifier_registry: "fixture_verifier f = (fixture_verifier LiveRegistry)\<lparr>Registry := fake_answers f\<rparr>"
  by (simp add: fixture_verifier_def)

lemma fake_answers_simps [simp]:
  "fake_answers LiveRegistry c a root n = Inr False"
  "fake_answers (RevokedRegistry root n) c a root' n' = Inr (root' = root \<and> n' = n)"
  "fake_answers (ErrRegistry e) c a root n = Inl e"
  by (simp_all add: fake_answers_def FakeIsRevoked_def LiveRegistry_def RevokedRegistry_def ErrRegistry_def
      fake_key_is_key)

section \<open>Hand-made tokens\<close>

lemma utf8_width_high:
  assumes "128 \<le> char_val c" and "utf8_width (c # s) \<noteq> 0"
  shows "CHR ''.'' \<notin> set (take (utf8_width (c # s)) (c # s))"
proof -
  obtain b r where s: "s = b # r" using assms(2) by (cases s) (simp_all add: utf8_width_def)
  have two: "128 \<le> char_val b" if "rune2 c b" using that by (simp add: rune2_def utf8_cont_def)
  have three: "128 \<le> char_val b" "128 \<le> char_val d" if "rune3 c b d" for d
    using that by (auto simp: rune3_def utf8_cont_def split: if_splits)
  have four: "128 \<le> char_val b" "128 \<le> char_val d" "128 \<le> char_val e" if "rune4 c b d e" for d e
    using that by (auto simp: rune4_def utf8_cont_def split: if_splits)
  have "\<forall>x \<in> set (take (utf8_width (c # s)) (c # s)). 128 \<le> char_val x"
  proof (cases "rune2 c b")
    case True
    then show ?thesis using two assms(1) by (simp add: s utf8_width_def numeral_2_eq_2)
  next
    case not2: False
    then obtain d r' where r: "r = d # r'" using assms(2) by (cases r) (simp_all add: s utf8_width_def)
    show ?thesis
    proof (cases "rune3 c b d")
      case True
      then show ?thesis using not2 three [OF True] assms(1) by (simp add: s r utf8_width_def numeral_3_eq_3)
    next
      case False
      then obtain e r'' where "r' = e # r''" "rune4 c b d e"
        using assms(2) not2 by (cases r') (auto simp: s r utf8_width_def split: if_splits)
      then show ?thesis using not2 False four assms(1) by (simp add: s r utf8_width_def numeral_eq_Suc)
    qed
  qed
  then show ?thesis by fastforce
qed

lemma split_on_prefix:
  "c \<notin> set a \<Longrightarrow> split_on c (a @ s) = (case split_on c s of [] \<Rightarrow> [a] | p # ps \<Rightarrow> (a @ p) # ps)"
proof (induction a)
  case Nil
  then show ?case by (cases "split_on c s") auto
next
  case (Cons x a)
  then show ?case by (cases "split_on c s") auto
qed

lemma split_runes_utf8:
  "utf8_ok s \<Longrightarrow> split_runes s out cur =
     out @ (case split_on (CHR ''.'') s of [] \<Rightarrow> [] | p # ps \<Rightarrow> (cur @ p) # ps)"
proof (induction s out cur rule: split_runes.induct)
  case (2 c s out cur)
  show ?case
  proof (cases "char_val c < 128")
    case True
    then show ?thesis using 2 by (cases "split_on (CHR ''.'') s") auto
  next
    case False
    let ?w = "utf8_width (c # s)"
    have w: "?w \<noteq> 0" "utf8_ok (drop (?w - 1) s)" using 2(5) False by simp_all
    have dot: "c \<noteq> CHR ''.''" using False by auto
    have "split_on (CHR ''.'') (c # s) =
        (case split_on (CHR ''.'') (drop ?w (c # s)) of [] \<Rightarrow> [take ?w (c # s)] | p # ps \<Rightarrow> (take ?w (c # s) @ p) # ps)"
      using split_on_prefix [OF utf8_width_high [OF _ w(1)], of "drop ?w (c # s)"] False by simp
    moreover have "drop ?w (c # s) = drop (?w - 1) s" using w(1) by (simp add: drop_Cons')
    ultimately show ?thesis
      using 2(4) [OF dot False refl w(1) w(2)] dot False w(1)
      by (cases "split_on (CHR ''.'') (drop (?w - 1) s)") (simp_all add: Let_def)
  qed
qed simp

lemma splitDot_split: "utf8_ok s \<Longrightarrow> splitDot s = split_on (CHR ''.'') s"
  by (cases "split_on (CHR ''.'') s") (simp_all add: splitDot_def split_runes_utf8)

lemma DecodeClaims_segment:
  assumes "is_ascii a" "CHR ''.'' \<notin> set a" and "is_ascii x" "CHR ''.'' \<notin> set x"
    and "json_clean (AuthClaims_json c)" and "AuthClaims_in_range c"
  shows "DecodeClaims (a @ ''.'' @ b64_raw True (json_print (AuthClaims_json c)) @ ''.'' @ x) = Some c"
proof -
  let ?b = "b64_raw True (json_print (AuthClaims_json c))"
  have "utf8_ok (a @ ''.'' @ ?b @ ''.'' @ x)"
    using assms(1,3) is_ascii_b64_raw [of True] by (intro is_ascii_utf8_ok) (simp add: is_ascii_def)
  then have "splitDot (a @ ''.'' @ ?b @ ''.'' @ x) = [a, ?b, x]"
    using assms(2,4) by (simp add: splitDot_split split_on_append split_on_none)
  then show ?thesis
    using json_unmarshal_print [OF assms(5) AuthClaims_json_depth] AuthClaims_of_json_json [OF assms(6)]
    by (simp add: DecodeClaims_def)
qed

lemma default_header_printed: "sort_key fst DefaultJWTHeader =
    [(''alg'', JStr ''EdDSA''), (''kid'', JStr IssuerKid), (''typ'', JStr ''auth+jwt'')]"
  by (simp add: DefaultJWTHeader_def less_eq_char_def)

lemma default_header_read:
  "decodeSeg jwtHeader_of_json (b64_raw True (json_print (JObj (sort_key fst DefaultJWTHeader))))
     = Some (auth_header (IssuerSigningKey K))"
  unfolding default_header_printed
  by (rule decodeSeg_print)
    (simp_all add: max_depth_def IssuerKid_def jwtHeader_of_json_def auth_header_def IssuerSigningKey_def
      jwtHeader_fields_def find_field_def)

lemma jwkOf_key: "b64_raw_decode True (X (jwkOf priv)) = Some (copy32 (drop 32 priv))"
  by (simp add: jwkOf_def)

section \<open>Properties\<close>

text \<open>C40: under the pinned clock the signed fixtures mean what the suites take them for: with a live
  registry both the authorization and the grant verify, with the authorization's handle revoked it is
  refused while the grant still verifies, and with a registry that cannot be reached both are refused
  for that reason, never read as not revoked.\<close>

theorem fixtures_verify:
  assumes "RootKey_fx W = Some k" and "ecdsa_law E W k"
    and "ValidPSA E W K [] = Some p" and "ValidGrant E W K [] = Some g"
  shows "VerifyPSA E (fixture_verifier LiveRegistry) p Issuer_fx (IssuerThumb E K) = Inr ()
    \<and> VerifyAgentGrant E (fixture_verifier LiveRegistry) g (addrOf E W k) AgentID_fx (AgentThumb E K) = Inr ()
    \<and> VerifyPSA E (fixture_verifier (RevokedRegistry (addrOf E W k) PSANonce_fx)) p Issuer_fx (IssuerThumb E K)
        = Inl (PsaRevoked (addrOf E W k) PSANonce_fx)
    \<and> VerifyAgentGrant E (fixture_verifier (RevokedRegistry (addrOf E W k) PSANonce_fx)) g (addrOf E W k)
        AgentID_fx (AgentThumb E K) = Inr ()
    \<and> VerifyPSA E (fixture_verifier (ErrRegistry err)) p Issuer_fx (IssuerThumb E K)
        = Inl (PsaRegistryUnavailable err)
    \<and> VerifyAgentGrant E (fixture_verifier (ErrRegistry err)) g (addrOf E W k) AgentID_fx (AgentThumb E K)
        = Inl (AgRegistryUnavailable err)"
proof -
  let ?v = "fixture_verifier LiveRegistry"
  obtain p0 where p0: "SignPSA_fx E W p0 k = Some p" "psa_Root p0 = addrOf E W k" "psa_Issuer p0 = Issuer_fx"
    "psa_KeyThumbprints p0 = Some [IssuerThumb E K]" "psa_NotBefore p0 = NotBefore_fx" "psa_NotAfter p0 = NotAfter_fx"
    "psa_Nonce p0 = PSANonce_fx"
    using assms(1,3) by (auto simp: ValidPSA_def Let_def)
  obtain g0 where g0: "SignGrant_fx E W g0 k = Some g" "ag_Root g0 = addrOf E W k" "ag_AgentIdentifier g0 = AgentID_fx"
    "ag_AgentThumbprint g0 = AgentThumb E K" "ag_NotBefore g0 = NotBefore_fx" "ag_NotAfter g0 = NotAfter_fx"
    "ag_Nonce g0 = GrantNonce_fx"
    using assms(1,4) by (auto simp: ValidGrant_def Let_def)
  obtain sig sig' where docs: "p = p0\<lparr>psa_Signature := Some sig\<rparr>" "g = g0\<lparr>ag_Signature := Some sig'\<rparr>"
    using SignPSA_signs(2) [OF assms(2) p0(1,2)] SignGrant_signs(2) [OF assms(2) g0(1,2)] by blast
  have live: "VerifyPSA E ?v p Issuer_fx (IssuerThumb E K) = Inr ()"
    "VerifyAgentGrant E ?v g (addrOf E W k) AgentID_fx (AgentThumb E K) = Inr ()"
    using SignPSA_signs(1) [OF assms(2) p0(1,2)] SignGrant_signs(1) [OF assms(2) g0(1,2)] p0(2-) g0(2-) fixture_time
    by (simp_all add: VerifyPSA_accepts VerifyAgentGrant_accepts docs fixture_verifier_def)
  have nonces: "PSANonce_fx \<noteq> GrantNonce_fx" by (simp add: PSANonce_fx_def GrantNonce_fx_def)
  show ?thesis
    unfolding fixture_verifier_registry [of "RevokedRegistry a n" for a n]
      fixture_verifier_registry [of "ErrRegistry err"] verdict_of_registry [OF live(1)]
      grant_verdict_of_registry [OF live(2)]
    using live p0(2-) g0(2-) nonces by (simp add: docs)
qed

definition fx_ext :: ext where
  "fx_ext = sample_ext\<lparr>Ed25519Sign := (\<lambda>k m. take 32 k @ checksum 7 m)\<rparr>"

lemma fx_law:
  assumes "length k = 32"
  shows "ecdsa_law fx_ext sample_wallet k"
  using assms by (auto simp: ecdsa_law_def sample_wallet_def fx_ext_def sample_ext_def nth_append)

lemma fx_root: "RootKey_fx sample_wallet = Some (fst (hex_decode RootPrivHex))"
    "length (fst (hex_decode RootPrivHex)) = 32"
  by (simp_all add: RootKey_fx_def ecdsaKey_def sample_wallet_def RootPrivHex_def hex_val_def split_beta)

theorem fixtures_verify_witness:
  "\<exists>p. ValidPSA fx_ext sample_wallet (\<lambda>s. s @ s) [] = Some p
     \<and> VerifyPSA fx_ext (fixture_verifier LiveRegistry) p Issuer_fx (IssuerThumb fx_ext (\<lambda>s. s @ s)) = Inr ()"
proof -
  obtain p g where "ValidPSA fx_ext sample_wallet (\<lambda>s. s @ s) [] = Some p"
    "ValidGrant fx_ext sample_wallet (\<lambda>s. s @ s) [] = Some g"
    using fx_root(1)
    by (simp add: ValidPSA_def ValidGrant_def SignPSA_fx_def SignGrant_fx_def Let_def PSADigest_def AgentGrantDigest_def
        typedDataDigest_def fx_ext_def sample_ext_def sample_wallet_def)
  then show ?thesis using fixtures_verify [OF fx_root(1) fx_law [OF fx_root(2)]] by blast
qed

text \<open>A token forged from the default header and any claims, signed with the
  fixture issuer key, passes the verifier's parse and signature check under the fake resolver with
  exactly the header a minted token carries and exactly those claims, and \<open>DecodeClaims\<close> reads the
  claims back both from it and from the token \<open>Mint\<close> signs for them.\<close>

theorem hand_made_token_reads_as_minted:
  assumes "json_clean (AuthClaims_json c)" and "AuthClaims_in_range c"
    and "ed25519_pair E (IssuerKey_fx K) (copy32 (drop 32 (IssuerKey_fx K)))"
  shows "parseAndCheckSig E (\<lambda>w iss kid. (w, FakeKey E (NewFakeJWKS K) iss kid)) AuthClaims_of_json Iss w
           (SignJWTRaw E (IssuerKey_fx K) DefaultJWTHeader (AuthClaims_json c)) ''auth+jwt''
         = (w, Inr (auth_header (IssuerSigningKey K), c))
    \<and> parseAndCheckSig E (\<lambda>w iss kid. (w, FakeKey E (NewFakeJWKS K) iss kid)) AuthClaims_of_json Iss w
           (signJWT E (IssuerSigningKey K) ''auth+jwt'' (AuthClaims_json c)) ''auth+jwt''
         = (w, Inr (auth_header (IssuerSigningKey K), c))
    \<and> DecodeClaims (SignJWTRaw E (IssuerKey_fx K) DefaultJWTHeader (AuthClaims_json c)) = Some c
    \<and> DecodeClaims (signJWT E (IssuerSigningKey K) ''auth+jwt'' (AuthClaims_json c)) = Some c"
proof -
  let ?h = "b64_raw True (json_print (JObj (sort_key fst DefaultJWTHeader)))"
  let ?c = "b64_raw True (json_print (AuthClaims_json c))"
  let ?x = "b64_raw True (Ed25519Sign E (IssuerKey_fx K) (?h @ ''.'' @ ?c))"
  have raw: "SignJWTRaw E (IssuerKey_fx K) DefaultJWTHeader (AuthClaims_json c) = ?h @ ''.'' @ ?c @ ''.'' @ ?x"
    by (simp add: SignJWTRaw_def Let_def b64_fx_def)
  have key: "FakeKey E (NewFakeJWKS K) iss kid = Inr (jwkOf (IssuerKey_fx K))" for iss kid
    by (simp add: FakeKey_def NewFakeJWKS_def IssuerJWK_def)
  have parts: "split3 (?h @ ''.'' @ ?c @ ''.'' @ ?x) = Inr [?h, ?c, ?x]" by (rule split3_signed) simp_all
  have claims: "decodeSeg AuthClaims_of_json ?c = Some c"
    using decodeSeg_print [OF assms(1) AuthClaims_json_depth, of AuthClaims_of_json c] AuthClaims_of_json_json [OF assms(2)] by blast
  have forged: "parseAndCheckSig E (\<lambda>w iss kid. (w, FakeKey E (NewFakeJWKS K) iss kid)) AuthClaims_of_json Iss w
      (?h @ ''.'' @ ?c @ ''.'' @ ?x) ''auth+jwt'' = (w, Inr (auth_header (IssuerSigningKey K), c))"
    using assms(3) parts claims default_header_read [of K]
    by (simp add: parseAndCheckSig_def key jwkOf_key auth_header_def ed25519_pair_def)
  have minted: "parseAndCheckSig E (\<lambda>w iss kid. (w, FakeKey E (NewFakeJWKS K) iss kid)) AuthClaims_of_json Iss w
      (signJWT E (IssuerSigningKey K) ''auth+jwt'' (AuthClaims_json c)) ''auth+jwt''
      = (w, Inr (auth_header (IssuerSigningKey K), c))"
    unfolding auth_header_def IssuerSigningKey_def IssuerKey.simps
    by (rule parse_signJWT [where key = "IssuerSigningKey K" and c = c and cj = "AuthClaims_json c" and
          jwk = "jwkOf (IssuerKey_fx K)", unfolded IssuerSigningKey_def IssuerKey.simps])
      (use assms(1,3) AuthClaims_json_depth AuthClaims_of_json_json [OF assms(2)] in \<open>simp_all add: key jwkOf_key holds_key_def IssuerSigningKey_def IssuerKid_def\<close>)
  have "DecodeClaims (a @ ''.'' @ ?c @ ''.'' @ b64_raw True y) = Some c" if "a = b64_raw True z" for a y z
    unfolding that using DecodeClaims_segment [OF _ _ _ _ assms(1,2), of "b64_raw True z" "b64_raw True y"] by simp
  then show ?thesis using forged minted unfolding raw by (simp add: signJWT_def Let_def)
qed

theorem hand_made_token_reads_as_minted_witness:
  "DecodeClaims (SignJWTRaw fx_ext (IssuerKey_fx (\<lambda>s. s @ s)) DefaultJWTHeader (AuthClaims_json sample_claims))
     = Some sample_claims"
proof -
  have "ed25519_pair fx_ext (IssuerKey_fx (\<lambda>s. s @ s)) (copy32 (drop 32 (IssuerKey_fx (\<lambda>s. s @ s))))"
    by (simp add: ed25519_pair_def fx_ext_def sample_ext_def IssuerKey_fx_def issuerSeed_def seed_def copy32_def)
  moreover have "AuthClaims_in_range sample_claims"
    unfolding AuthClaims_in_range_def sample_claims_lifetime by (simp add: in_i64_def)
  ultimately show ?thesis
    by (intro hand_made_token_reads_as_minted [OF sample_claims_clean, THEN conjunct2, THEN conjunct2, THEN conjunct1])
qed

end
