(* ===== verification/Visits.thy ===== *)
theory Visits
  imports Resource Processes
begin

text \<open>
  The resource server with any number of requests in flight. A request is a goroutine that asks the
  network up to four times and the clock up to three times, and touches the shared replay cache once, under
  its lock; between two of these anything may happen, and the network may answer differently each
  time. Run without interruption, a handler is the handler of \<open>Resource\<close>.
\<close>

section \<open>The handlers\<close>

text \<open>What a goroutine is given: the time, the answers of the network, random bytes.\<close>

record surroundings =
  r_now :: time
  r_net :: network
  r_random :: bytes

type_synonym 'r resd_proc = "(surroundings, world, 'r) process"

text \<open>The first layer: parse, fetch the key and check the signature; read the clock; ask the replay cache
  last.\<close>

definition presented_p ::
  "ext \<Rightarrow> string \<Rightarrow> string \<Rightarrow> jwtHeader \<Rightarrow> AuthClaims \<Rightarrow> (token_err + jwtHeader \<times> AuthClaims \<Rightarrow> 'r resd_proc)
   \<Rightarrow> 'r resd_proc" where
  "presented_p E aud requestSigKeyThumb hdr claims k =
     draw (\<lambda>e.
       let now = Unix (r_now e) in
       if Aud claims \<noteq> aud then k (Inl AudMismatch)
       else if now \<ge> Exp claims \<or> i64 (Exp claims - Iat claims) > 24 * 3600
       then k (Inl ExpiredOrOverlong)
       else if Thumbprint E (Cnf claims) \<noteq> requestSigKeyThumb then k (Inl CnfMismatch)
       else perform (\<lambda>_ w. SeenJTI_resd w (Jti claims) (Exp claims)) (\<lambda>seen.
              if seen then k (Inl JtiReplay) else k (Inr (hdr, claims))))"

definition verifyLayer1_p ::
  "ext \<Rightarrow> string \<Rightarrow> string \<Rightarrow> string \<Rightarrow> (token_err + jwtHeader \<times> AuthClaims \<Rightarrow> 'r resd_proc) \<Rightarrow> 'r resd_proc" where
  "verifyLayer1_p E rawJWT aud requestSigKeyThumb k =
     perform (\<lambda>e w. parseAndCheckSig E (Key_resd (r_net e)) AuthClaims_of_json Iss w rawJWT ''auth+jwt'') (\<lambda>res.
       case res of
         Inl x \<Rightarrow> k (Inl x)
       | Inr (hdr, claims) \<Rightarrow> presented_p E aud requestSigKeyThumb hdr claims k)"

text \<open>
  The second layer: fetch the authorization, fetch the issuer key again, verify; fetch the grant,
  verify. Each verification reads the clock.
\<close>

definition chain_now :: "surroundings \<Rightarrow> verifier" where
  "chain_now e = \<lparr>Registry = alwaysLive, ERC1271 = None, Now = r_now e\<rparr>"

definition granted_p ::
  "ext \<Rightarrow> AuthClaims \<Rightarrow> PSA \<Rightarrow> (token_err + AuthClaims \<Rightarrow> 'r resd_proc) \<Rightarrow> 'r resd_proc" where
  "granted_p E claims psa k =
     perform (\<lambda>e w. AgentGrant_resd E (r_net e) w (Iss claims) (AgS256 claims)) (\<lambda>given.
       case given of
         Inl x \<Rightarrow> k (Inl (GrantResolve x))
       | Inr grant \<Rightarrow>
           draw (\<lambda>e.
             case VerifyAgentGrant E (chain_now e) grant (psa_Root psa) (Agent claims)
                    (Thumbprint E (Cnf claims)) of
               Inl x \<Rightarrow> k (Inl (ChainRejected x))
             | Inr _ \<Rightarrow> k (Inr claims)))"

definition authorized_p ::
  "ext \<Rightarrow> AuthClaims \<Rightarrow> PSA \<Rightarrow> string \<Rightarrow> (token_err + AuthClaims \<Rightarrow> 'r resd_proc) \<Rightarrow> 'r resd_proc" where
  "authorized_p E claims psa issuerKeyThumb k =
     draw (\<lambda>e.
       case VerifyPSA E (chain_now e) psa (Iss claims) issuerKeyThumb of
         Inl x \<Rightarrow> k (Inl (ChainRejected x))
       | Inr _ \<Rightarrow>
           if \<not> caipEq E (''eip155:'' @ show_int (psa_RegistryChain psa) @ '':'' @ psa_Root psa) (Sub claims)
           then k (Inl SubNotRoot)
           else granted_p E claims psa k)"

definition verifyLayer2_p ::
  "ext \<Rightarrow> jwtHeader \<Rightarrow> AuthClaims \<Rightarrow> (token_err + AuthClaims \<Rightarrow> 'r resd_proc) \<Rightarrow> 'r resd_proc" where
  "verifyLayer2_p E hdr claims k =
     perform (\<lambda>e w. PSA_resd E (r_net e) w (PSARef claims)) (\<lambda>found.
       case found of
         Inl x \<Rightarrow> k (Inl (PsaResolve x))
       | Inr psa \<Rightarrow>
           perform (\<lambda>e w. issuerThumbFromHeader E (Key_resd (r_net e)) w (Iss claims) (hdr_Kid hdr)) (\<lambda>key.
             case key of
               Inl x \<Rightarrow> k (Inl x)
             | Inr issuerKeyThumb \<Rightarrow> authorized_p E claims psa issuerKeyThumb k))"

definition Verify_p ::
  "ext \<Rightarrow> string \<Rightarrow> string \<Rightarrow> string \<Rightarrow> (token_err + AuthClaims \<Rightarrow> 'r resd_proc) \<Rightarrow> 'r resd_proc" where
  "Verify_p E rawJWT aud requestSigKeyThumb k =
     verifyLayer1_p E rawJWT aud requestSigKeyThumb (\<lambda>res.
       case res of
         Inl x \<Rightarrow> k (Inl x)
       | Inr (hdr, claims) \<Rightarrow>
           if PSARef claims = [] then k (Inr claims) else verifyLayer2_p E hdr claims k)"

definition VerifyVanilla_p ::
  "ext \<Rightarrow> string \<Rightarrow> string \<Rightarrow> string \<Rightarrow> (token_err + AuthClaims \<Rightarrow> 'r resd_proc) \<Rightarrow> 'r resd_proc" where
  "VerifyVanilla_p E rawJWT aud requestSigKeyThumb k =
     verifyLayer1_p E rawJWT aud requestSigKeyThumb (\<lambda>res.
       case res of Inl x \<Rightarrow> k (Inl x) | Inr (hdr, claims) \<Rightarrow> k (Inr claims))"

definition echo :: "resource \<Rightarrow> AuthClaims \<Rightarrow> whoami_reply" where
  "echo rs claims =
     Echo (Sub claims) (Agent claims) (Iss claims)
       (if PSARef claims \<noteq> [] then ''verified'' else ''vanilla'') (requireKeyRooted rs)"

definition whoami_p :: "ext \<Rightarrow> resource \<Rightarrow> string \<Rightarrow> string \<Rightarrow> resd_reply resd_proc" where
  "whoami_p E rs authorization devThumb =
     (let tok = bearer E authorization; thumb = TrimSpace (UnicodeTrim E) devThumb in
      if tok = [] then Done (WhoamiReply MissingToken)
      else if requireKeyRooted rs
      then Verify_p E tok (self rs) thumb (\<lambda>res.
             case res of
               Inl x \<Rightarrow> Done (WhoamiReply (Forbidden (TokenErr x) (requireKeyRooted rs)))
             | Inr claims \<Rightarrow>
                 if PSARef claims = []
                 then Done (WhoamiReply (Forbidden NotKeyRooted (requireKeyRooted rs)))
                 else Done (WhoamiReply (echo rs claims)))
      else VerifyVanilla_p E tok (self rs) thumb (\<lambda>res.
             case res of
               Inl x \<Rightarrow> Done (WhoamiReply (Forbidden (TokenErr x) (requireKeyRooted rs)))
             | Inr claims \<Rightarrow> Done (WhoamiReply (echo rs claims))))"

definition challenge_resd_p :: "ext \<Rightarrow> resource \<Rightarrow> resd_reply resd_proc" where
  "challenge_resd_p E rs =
     draw (\<lambda>e. case challenge E rs (r_now e) (r_random e) of (status, v) \<Rightarrow> Done (ChallengeReply status v))"

definition resd_routes_p ::
  "ext \<Rightarrow> resource \<Rightarrow> string \<Rightarrow> string list \<Rightarrow> string \<Rightarrow> string \<Rightarrow> resd_reply resd_proc" where
  "resd_routes_p E rs meth path authorization devThumb =
     (if meth \<noteq> ''GET'' \<and> meth \<noteq> ''HEAD'' then Done (ResdMux 405)
      else if path = [''whoami''] then whoami_p E rs authorization devThumb
      else challenge_resd_p E rs)"

section \<open>A handler alone\<close>

lemma run_verifyLayer1:
  "run (verifyLayer1_p E raw aud thumb k) e w =
     (case verifyLayer1 E (resd_verifier E (r_net e) (r_now e)) w raw aud thumb of (w', res) \<Rightarrow> run (k res) e w')"
  by (simp add: verifyLayer1_p_def presented_p_def verifyLayer1_def resd_verifier_def Let_def split: prod.split sum.split)

lemma run_verifyLayer2:
  "run (verifyLayer2_p E hdr c k) e w =
     (case verifyLayer2 E (resd_verifier E (r_net e) (r_now e)) w hdr c of (w', res) \<Rightarrow> run (k res) e w')"
  by (simp add: verifyLayer2_p_def authorized_p_def granted_p_def verifyLayer2_def resd_verifier_def chain_now_def split: prod.split sum.split)

lemma run_Verify:
  "run (Verify_p E raw aud thumb k) e w =
     (case Verify E (resd_verifier E (r_net e) (r_now e)) w raw aud thumb of (w', res) \<Rightarrow> run (k res) e w')"
  by (simp add: Verify_p_def Verify_def run_verifyLayer1 run_verifyLayer2 split: prod.split sum.split)

lemma run_VerifyVanilla:
  "run (VerifyVanilla_p E raw aud thumb k) e w =
     (case VerifyVanilla E (resd_verifier E (r_net e) (r_now e)) w raw aud thumb of (w', res) \<Rightarrow> run (k res) e w')"
  by (simp add: VerifyVanilla_p_def VerifyVanilla_def run_verifyLayer1 split: prod.split sum.split)

lemma run_whoami:
  "run (whoami_p E rs auth dev) e w =
     (case whoami E (r_net e) (r_now e) rs w auth dev of (w', rep) \<Rightarrow> Some (w', WhoamiReply rep))"
  by (simp add: whoami_p_def whoami_def whoami_verify_def echo_def run_Verify run_VerifyVanilla Let_def
      split: prod.split sum.split)

lemma run_resd_routes:
  "run (resd_routes_p E rs meth path auth dev) e w =
     Some (resd_routes E (r_net e) (r_now e) (r_random e) rs w meth path auth dev)"
  by (simp add: resd_routes_p_def resd_routes_def run_whoami challenge_resd_p_def split: prod.split)

section \<open>Every request ends\<close>

lemma within_verifyLayer1:
  assumes "\<And>res. within (k res) n"
  shows "within (verifyLayer1_p E raw aud thumb k) (n + 3)"
proof -
  have later: "within (k x) m" if "n \<le> m" for x m using within_more [OF assms that] .
  have "within (presented_p E aud thumb hdr c k) (n + 2)" for hdr c
    unfolding presented_p_def Let_def by (intro within_reading within_if) (simp_all add: later within_reading within_if)
  then show ?thesis
    unfolding verifyLayer1_p_def by (intro within_reading) (auto simp: later split: sum.split)
qed

lemma within_verifyLayer2:
  assumes "\<And>res. within (k res) n"
  shows "within (verifyLayer2_p E hdr c k) (n + 5)"
proof -
  have later: "within (k x) m" if "n \<le> m" for x m using within_more [OF assms that] .
  have "within (draw (\<lambda>e. case VerifyAgentGrant E (chain_now e) g root a t of
      Inl x \<Rightarrow> k (Inl (ChainRejected x)) | Inr _ \<Rightarrow> k (Inr c))) (n + 1)" for g root a t
    by (intro within_reading) (auto simp: later split: sum.split)
  then have "within (granted_p E c psa k) (n + 2)" for psa
    unfolding granted_p_def by (intro within_reading) (auto simp: later split: sum.split)
  then have "within (authorized_p E c psa t k) (n + 3)" for psa t
    unfolding authorized_p_def by (intro within_reading) (auto simp: later split: sum.split)
  moreover have "within (k x) (n + 3)" for x by (simp add: later)
  ultimately have "within (perform f (\<lambda>key. case key of Inl x \<Rightarrow> k (Inl x) | Inr t \<Rightarrow> authorized_p E c psa t k)) (n + 4)"
    for f psa
    by (intro within_reading) (auto simp: add.commute split: sum.split)
  then show ?thesis
    unfolding verifyLayer2_p_def by (intro within_reading) (auto simp: later add.commute split: sum.split)
qed

lemma within_Verify:
  assumes "\<And>res. within (k res) n"
  shows "within (Verify_p E raw aud thumb k) (n + 8)"
proof -
  have "within (case res of Inl x \<Rightarrow> k (Inl x)
      | Inr (hdr, claims) \<Rightarrow> if PSARef claims = [] then k (Inr claims) else verifyLayer2_p E hdr claims k) (n + 5)" for res
    using assms by (auto intro: within_add within_verifyLayer2 split: sum.split prod.split)
  from within_verifyLayer1 [OF this] show ?thesis by (simp add: Verify_p_def add.assoc)
qed

text \<open>A request takes at most eight actions: four questions to the network, three to the clock, and
  one visit to the cache.\<close>

lemma within_visit: "within (resd_routes_p E rs meth path auth dev) 8"
proof -
  have vanilla: "within (verifyLayer1_p E raw aud thumb k) 8" if "\<And>res. within (k res) 0"
    for raw aud thumb and k :: "_ \<Rightarrow> resd_reply resd_proc"
    using within_add [OF within_verifyLayer1 [OF that], where m = 5] by simp
  have enhanced: "within (Verify_p E raw aud thumb k) 8" if "\<And>res. within (k res) 0"
    for raw aud thumb and k :: "_ \<Rightarrow> resd_reply resd_proc"
    using within_Verify [OF that] by simp
  have "within (whoami_p E rs auth dev) 8"
    unfolding whoami_p_def VerifyVanilla_p_def Let_def
    by (intro within_if vanilla enhanced) (auto split: sum.split prod.split)
  moreover have "within (challenge_resd_p E rs) 8"
    by (auto simp: challenge_resd_p_def intro!: within_reading split: prod.split)
  ultimately show ?thesis by (simp add: resd_routes_p_def)
qed

section \<open>Requests in flight\<close>

record visitor =
  v_method :: string
  v_path :: "string list"
  v_authorization :: string
  v_thumb :: string

type_synonym resd_thread = "(visitor, surroundings, world, resd_reply) thread"
type_synonym resd_pool = "(visitor, surroundings, world, resd_reply) pool"

definition visiting :: "ext \<Rightarrow> resource \<Rightarrow> visitor \<Rightarrow> resd_thread" where
  "visiting E rs q =
     \<lparr>th_request = q, th_proc = resd_routes_p E rs (v_method q) (v_path q) (v_authorization q) (v_thumb q)\<rparr>"

text \<open>
  A request arrives under a number never used before, or one of those in flight acts. An answered
  request stays in the pool with its reply, so the pool is the history of the server. The clock and
  the network may do anything that \<open>A\<close> allows.
\<close>

inductive visit_step :: "(surroundings \<Rightarrow> bool) \<Rightarrow> ext \<Rightarrow> resource \<Rightarrow> resd_pool \<Rightarrow> resd_pool \<Rightarrow> bool" for A E rs where
  arrive: "threads p i = None \<Longrightarrow> visit_step A E rs p (p\<lparr>threads := (threads p)(i \<mapsto> visiting E rs q)\<rparr>)"
| act: "act_step A p p' \<Longrightarrow> visit_step A E rs p p'"

inductive_cases visit_stepE: "visit_step A E rs p p'"

text \<open>What a compact token says, before any of it is checked, and the id it bears.\<close>

definition token_claims :: "string \<Rightarrow> AuthClaims option" where
  "token_claims raw =
     (case split3 raw of Inl _ \<Rightarrow> None | Inr parts \<Rightarrow> decodeSeg AuthClaims_of_json (parts ! 1))"

definition token_id :: "ext \<Rightarrow> resd_thread \<Rightarrow> string option" where
  "token_id E th = map_option Jti (token_claims (bearer E (v_authorization (th_request th))))"

definition welcomed :: "resd_reply \<Rightarrow> bool" where
  "welcomed rep = (case rep of WhoamiReply r \<Rightarrow> reply_status r = 200 | _ \<Rightarrow> False)"

lemma token_claims_parsed:
  assumes "parseAndCheckSig E keys AuthClaims_of_json Iss w raw ''auth+jwt'' = (w', Inr (hdr, c))"
  shows "token_claims raw = Some c"
  using assms
  by (auto simp: parseAndCheckSig_def token_claims_def split: sum.splits option.splits prod.splits if_splits)

lemma timely_visit: "visit_step A E rs p p' \<Longrightarrow> timely 8 p \<Longrightarrow> timely 8 p'"
proof (elim visit_stepE, goal_cases)
  case 2
  then show ?case using timely_settle act_settles by blast
qed (auto simp: timely_def visiting_def within_visit)

interpretation visit_time: transition_invariant "visit_step A E rs" "timely 8" for A E rs
  by unfold_locales (rule timely_visit)

text \<open>No visitor waits for another: at most nine steps each, and all have been answered.\<close>

lemma visits_settle:
  assumes "(visit_step A E rs)\<^sup>*\<^sup>* (resting w) p" and "(settle_step ^^ n) p p'"
  shows "n \<le> 9 * card (dom (threads p))"
proof -
  have "timely 8 p" by (rule visit_time.inv_reaches [OF assms(1)]) simp
  from funded_settles [OF assms(2) timely_funded [OF this]] show ?thesis by simp
qed

section \<open>An id is spent once\<close>

definition same_spent :: "world \<Rightarrow> world \<Rightarrow> bool" where
  "same_spent w w' = (spent w' = spent w)"

text \<open>
  A process that has not spent the id \<open>j\<close>: it can end well only by an action that finds the id
  unspent and spends it, and after that it leaves the cache alone.
\<close>

inductive unpaid :: "string option \<Rightarrow> resd_reply resd_proc \<Rightarrow> bool" for j where
  refused: "\<not> welcomed rep \<Longrightarrow> unpaid j (Done rep)"
| crashed: "unpaid j Crash"
| acts: "(\<And>e w. spent (fst (f (e, w))) = spent w \<and> unpaid j (snd (f (e, w)))
       \<or> (\<exists>i. j = Some i \<and> \<not> spent w i \<and> spent (fst (f (e, w))) = (spent w)(i := True)
            \<and> calm (snd (f (e, w))) same_spent))
    \<Longrightarrow> unpaid j (Act f)"

inductive_simps unpaid_simps: "unpaid j (Done rep)" "unpaid j Crash" "unpaid j (Act f)"

lemma unpaid_perform:
  assumes "\<And>e w w' x. f e w = (w', x) \<Longrightarrow> spent w' = spent w \<and> unpaid j (k x)"
  shows "unpaid j (perform f k)"
  using assms by (auto simp: perform_def unpaid_simps split: prod.split)

lemma unpaid_draw: "(\<And>e. unpaid j (k e)) \<Longrightarrow> unpaid j (draw k)"
  by (simp add: draw_def unpaid_simps)

lemma unpaid_if: "(b \<Longrightarrow> unpaid j p) \<Longrightarrow> (\<not> b \<Longrightarrow> unpaid j q) \<Longrightarrow> unpaid j (if b then p else q)"
  by simp

text \<open>The visit to the cache.\<close>

lemma unpaid_cache:
  assumes "calm (k False) same_spent" and "unpaid (Some i) (k True)"
  shows "unpaid (Some i) (perform (\<lambda>_ w. SeenJTI_resd w i x) k)"
proof -
  have "spent w' = (if b then spent w else (spent w)(i := True)) \<and> b = spent w i"
    if "SeenJTI_resd w i x = (w', b)" for w w' b
    using that resd_cache.seen_verdict [of w i x] resd_cache.seen_spends [of w i x] by (auto simp: fun_eq_iff)
  then show ?thesis using assms by (auto simp: perform_def unpaid_simps split: prod.split)
qed

lemma resolvers_spent:
  "Key_resd fetch w iss kid = (w', a) \<Longrightarrow> spent w' = spent w"
  "PSA_resd E fetch w ref = (w', b) \<Longrightarrow> spent w' = spent w"
  "AgentGrant_resd E fetch w iss h = (w', c) \<Longrightarrow> spent w' = spent w"
  using resd_uses_cache [of E fetch 0] unfolding uses_cache_def resd_verifier_def
  by simp_all (metis fst_conv)+

lemma calm_verifyLayer2:
  assumes "\<And>res. calm (k res) same_spent"
  shows "calm (verifyLayer2_p E hdr c k) same_spent"
proof -
  have ask: "calm (perform f l) same_spent"
    if "\<And>e w w' x. f e w = (w', x) \<Longrightarrow> spent w' = spent w" "\<And>x. calm (l x) same_spent" for f l
    using that by (auto simp: perform_def calm_Act same_spent_def split: prod.split)
  have look: "calm (draw l) same_spent" if "\<And>e. calm (l e) same_spent" for l
    using that by (simp add: draw_def calm_Act same_spent_def)
  have "calm (granted_p E c psa k) same_spent" for psa
    unfolding granted_p_def by (intro ask) (auto simp: assms resolvers_spent split: sum.split intro!: look)
  then have "calm (authorized_p E c psa t k) same_spent" for psa t
    unfolding authorized_p_def by (intro look) (simp add: assms split: sum.split)
  then show ?thesis
    unfolding verifyLayer2_p_def issuerThumbFromHeader_def
    by (intro ask)
      (auto simp: assms split: sum.split prod.splits sum.splits intro!: ask dest: resolvers_spent)
qed

lemma unpaid_presented:
  assumes "calm (k (Inr (hdr, c))) same_spent" and "\<And>j x. unpaid j (k (Inl x))"
  shows "unpaid (Some (Jti c)) (presented_p E aud thumb hdr c k)"
  unfolding presented_p_def Let_def using assms by (intro unpaid_draw unpaid_if unpaid_cache) simp_all

lemma unpaid_Layer1:
  assumes "\<And>c hdr. token_claims raw = Some c \<Longrightarrow> calm (k (Inr (hdr, c))) same_spent" and "\<And>j x. unpaid j (k (Inl x))"
  shows "unpaid (map_option Jti (token_claims raw)) (verifyLayer1_p E raw aud thumb k)"
  unfolding verifyLayer1_p_def
proof (rule unpaid_perform, rule conjI)
  fix e w w' res
  assume parsed: "parseAndCheckSig E (Key_resd (r_net e)) AuthClaims_of_json Iss w raw ''auth+jwt'' = (w', res)"
  show "spent w' = spent w"
    using parse_state [OF parsed] resolvers_spent(1) by (metis prod.collapse)
  show "unpaid (map_option Jti (token_claims raw)) (case res of Inl x \<Rightarrow> k (Inl x)
      | Inr (hdr, c) \<Rightarrow> presented_p E aud thumb hdr c k)"
  proof (cases res)
    case (Inr hc)
    then obtain hdr c where hc: "res = Inr (hdr, c)" by (cases hc) simp
    then have "token_claims raw = Some c" using token_claims_parsed [OF parsed [unfolded hc]] by simp
    then show ?thesis using unpaid_presented [OF assms(1) assms(2)] hc by simp
  qed (simp add: assms(2))
qed

lemma welcomed_simps [simp]:
  "\<not> welcomed (WhoamiReply (Forbidden x b))" "\<not> welcomed (WhoamiReply MissingToken)"
  "\<not> welcomed (ChallengeReply n v)" "\<not> welcomed (ResdMux n)"
  by (simp_all add: welcomed_def)

lemma every_visit_unpaid: "unpaid (token_id E (visiting E rs q)) (th_proc (visiting E rs q))"
proof -
  let ?tok = "bearer E (v_authorization q)"
  have "unpaid (map_option Jti (token_claims ?tok)) (whoami_p E rs (v_authorization q) (v_thumb q))"
    unfolding whoami_p_def Let_def Verify_p_def VerifyVanilla_p_def
    by (intro unpaid_if unpaid_Layer1) (auto simp: unpaid_simps intro!: calm_verifyLayer2 split: sum.split)
  moreover have "unpaid j (challenge_resd_p E rs)" for j
    by (auto simp: challenge_resd_p_def unpaid_simps intro!: unpaid_draw split: prod.split)
  ultimately show ?thesis
    by (simp add: visiting_def token_id_def resd_routes_p_def unpaid_simps)
qed

text \<open>The pool: every request has still to pay for its token, or has paid for it, and of two with
  the same id at most one has.\<close>

definition unspent :: "ext \<Rightarrow> resd_thread \<Rightarrow> bool" where
  "unspent E th = unpaid (token_id E th) (th_proc th)"

definition paid :: "ext \<Rightarrow> world \<Rightarrow> world \<Rightarrow> resd_thread \<Rightarrow> bool" where
  "paid E w0 w th =
     (\<exists>i. token_id E th = Some i \<and> \<not> spent w0 i \<and> spent w i \<and> calm (th_proc th) same_spent)"

definition once_ok :: "ext \<Rightarrow> world \<Rightarrow> resd_pool \<Rightarrow> bool" where
  "once_ok E w0 p =
     ((\<forall>i. spent w0 i \<longrightarrow> spent (shared p) i)
      \<and> (\<forall>i th. threads p i = Some th \<longrightarrow> unspent E th \<or> paid E w0 (shared p) th)
      \<and> (\<forall>i j th th'. threads p i = Some th \<and> threads p j = Some th' \<and> i \<noteq> j
           \<and> token_id E th = token_id E th' \<longrightarrow> unspent E th \<or> unspent E th'))"

lemma token_id_moved [simp]: "token_id E (th\<lparr>th_proc := q\<rparr>) = token_id E th"
  by (simp add: token_id_def)

lemma unspent_arrives: "unspent E (visiting E rs q)"
  using every_visit_unpaid by (simp add: unspent_def)

text \<open>What an action does to its own thread, and to what the others may count on.\<close>

lemma act_pays:
  assumes "unspent E th \<or> paid E w0 w th" and "th_proc th = Act f" and "f (e, w) = (w', q)"
    and "\<And>i. spent w0 i \<Longrightarrow> spent w i"
  shows "(\<forall>i. spent w i \<longrightarrow> spent w' i)
    \<and> (unspent E (th\<lparr>th_proc := q\<rparr>) \<or> paid E w0 w' (th\<lparr>th_proc := q\<rparr>))
    \<and> (unspent E th \<longrightarrow> unspent E (th\<lparr>th_proc := q\<rparr>)
         \<or> (\<exists>i. token_id E th = Some i \<and> \<not> spent w i))"
proof (cases "unspent E th")
  case True
  then have "unpaid (token_id E th) (Act f)" using assms(2) by (simp add: unspent_def)
  then have "spent w' = spent w \<and> unpaid (token_id E th) q
      \<or> (\<exists>i. token_id E th = Some i \<and> \<not> spent w i \<and> spent w' = (spent w)(i := True) \<and> calm q same_spent)"
    unfolding unpaid_simps using assms(3) by (metis fst_conv snd_conv)
  then show ?thesis using assms(4) True by (auto simp: unspent_def paid_def)
next
  case False
  then obtain i where i: "token_id E th = Some i" "\<not> spent w0 i" "spent w i" "calm (Act f) same_spent"
    using assms(1,2) by (auto simp: paid_def)
  then have "spent w' = spent w" "calm q same_spent"
    using assms(3) unfolding calm_Act same_spent_def by (metis fst_conv snd_conv)+
  then show ?thesis using i False by (auto simp: paid_def)
qed

lemma once_okD:
  assumes "once_ok E w0 p"
  shows "spent w0 i \<Longrightarrow> spent (shared p) i"
    "threads p j = Some th \<Longrightarrow> unspent E th \<or> paid E w0 (shared p) th"
    "threads p j = Some th \<Longrightarrow> threads p k = Some th' \<Longrightarrow> j \<noteq> k \<Longrightarrow> token_id E th = token_id E th' \<Longrightarrow>
     unspent E th \<or> unspent E th'"
  using assms unfolding once_ok_def by blast+

lemma paid_later: "(\<And>i. spent w i \<Longrightarrow> spent w' i) \<Longrightarrow> paid E w0 w th \<Longrightarrow> paid E w0 w' th"
  unfolding paid_def by blast

lemma once_ok_act:
  assumes ok: "once_ok E w0 p" and th: "threads p i = Some th" "th_proc th = Act f" "f (e, shared p) = (w', q)"
  shows "once_ok E w0 (moved p i th w' q)"
proof -
  let ?th = "th\<lparr>th_proc := q\<rparr>"
  have acts: "\<And>k. spent (shared p) k \<Longrightarrow> spent w' k" "unspent E ?th \<or> paid E w0 w' ?th"
    "unspent E th \<Longrightarrow> unspent E ?th \<or> (\<exists>k. token_id E th = Some k \<and> \<not> spent (shared p) k)"
    using act_pays [OF once_okD(2) [OF ok th(1)] th(2,3) once_okD(1) [OF ok]] by blast+
  have others: "unspent E th' \<or> paid E w0 w' th'" if "threads p j = Some th'" for j th'
    using once_okD(2) [OF ok that] paid_later [OF acts(1)] by blast
  have apart: "unspent E ?th \<or> unspent E th'"
    if th': "threads p j = Some th'" "i \<noteq> j" "token_id E th = token_id E th'" for j th'
  proof (cases "unspent E th'")
    case False
    then have "unspent E th" using once_okD(3) [OF ok th(1) th'] by blast
    moreover have "paid E w0 (shared p) th'" using False once_okD(2) [OF ok th'(1)] by blast
    ultimately show ?thesis using acts(3) th'(3) by (auto simp: paid_def)
  qed simp
  have pairs: "unspent E th1 \<or> unspent E th2"
    if "((threads p)(i \<mapsto> ?th)) j = Some th1" "((threads p)(i \<mapsto> ?th)) k = Some th2" "j \<noteq> k"
      "token_id E th1 = token_id E th2" for j k th1 th2
    using that once_okD(3) [OF ok] apart [of k th2] apart [of j th1] by (auto split: if_splits)
  show ?thesis
    unfolding once_ok_def moved_simps
  proof (intro conjI allI impI)
    show "unspent E th1 \<or> unspent E th2"
      if "((threads p)(i \<mapsto> ?th)) j = Some th1 \<and> ((threads p)(i \<mapsto> ?th)) k = Some th2 \<and> j \<noteq> k
        \<and> token_id E th1 = token_id E th2" for j k th1 th2
      using pairs that by blast
  qed (use once_okD(1) [OF ok] acts(1,2) others in \<open>auto split: if_splits\<close>)
qed

lemma once_ok_step: "visit_step A E rs p p' \<Longrightarrow> once_ok E w0 p \<Longrightarrow> once_ok E w0 p'"
proof (elim visit_stepE act_stepE, goal_cases)
  case (1 i q)
  note ok = 1(1) [unfolded once_ok_def]
  have "unspent E (visiting E rs q)" by (rule unspent_arrives)
  then show ?case unfolding 1(2) once_ok_def using ok by (auto split: if_splits) blast+
next
  case 2
  then show ?case using once_ok_act by blast
qed

interpretation spending: transition_invariant "visit_step A E rs" "once_ok E w0" for A E rs w0
  by unfold_locales (rule once_ok_step)

lemma spent_once:
  assumes "(visit_step A E rs)\<^sup>*\<^sup>* (resting w0) p"
  shows "once_ok E w0 p"
  by (rule spending.inv_reaches [OF assms]) (simp add: once_ok_def)

lemma welcome_paid:
  assumes "once_ok E w0 p" and "threads p i = Some th" and "th_proc th = Done rep" and "welcomed rep"
  shows "\<not> unspent E th" "\<exists>j. token_id E th = Some j \<and> \<not> spent w0 j"
proof -
  show "\<not> unspent E th" using assms(3,4) by (simp add: unspent_def unpaid_simps)
  then have "paid E w0 (shared p) th" using assms(1,2) by (auto simp: once_ok_def)
  then show "\<exists>j. token_id E th = Some j \<and> \<not> spent w0 j" by (auto simp: paid_def)
qed

section \<open>Whatever the others do\<close>

text \<open>However the state and the answers change, as long as \<open>A\<close> allows them, the process does not panic and
  ends with a reply as \<open>Q\<close> says.\<close>

inductive ends :: "('e \<Rightarrow> bool) \<Rightarrow> ('r \<Rightarrow> bool) \<Rightarrow> ('e, 's, 'r) process \<Rightarrow> bool" for A Q where
  ended: "Q rep \<Longrightarrow> ends A Q (Done rep)"
| acts: "(\<And>e s. A e \<Longrightarrow> ends A Q (snd (f (e, s)))) \<Longrightarrow> ends A Q (Act f)"

inductive_simps ends_simps: "ends A Q (Done rep)" "ends A Q Crash" "ends A Q (Act f)"

lemma ends_perform: "(\<And>e s s' x. A e \<Longrightarrow> f e s = (s', x) \<Longrightarrow> ends A Q (k x)) \<Longrightarrow> ends A Q (perform f k)"
  by (auto simp: perform_def ends_simps split: prod.split)

lemma ends_draw: "(\<And>e. A e \<Longrightarrow> ends A Q (k e)) \<Longrightarrow> ends A Q (draw k)"
  by (simp add: draw_def ends_simps)

lemma ends_if: "(b \<Longrightarrow> ends A Q p) \<Longrightarrow> (\<not> b \<Longrightarrow> ends A Q q) \<Longrightarrow> ends A Q (if b then p else q)"
  by simp

text \<open>What the first layer has checked: the token is signed by a key that the issuer's key set showed, it is
  for this resource, unexpired, and presented by its agent.\<close>

definition served_key :: "(surroundings \<Rightarrow> bool) \<Rightarrow> string \<Rightarrow> string \<Rightarrow> JWK \<Rightarrow> bool" where
  "served_key A iss kid jwk = (\<exists>e w w'. A e \<and> Key_resd (r_net e) w iss kid = (w', Inr jwk))"

definition layer1_facts ::
  "(surroundings \<Rightarrow> bool) \<Rightarrow> ext \<Rightarrow> string \<Rightarrow> string \<Rightarrow> string \<Rightarrow> jwtHeader \<Rightarrow> AuthClaims \<Rightarrow> bool" where
  "layer1_facts A E raw aud thumb hdr c =
     (token_claims raw = Some c \<and> Aud c = aud \<and> Thumbprint E (Cnf c) = thumb
      \<and> (\<exists>jwk. signed_by E raw hdr c jwk \<and> served_key A (Iss c) (hdr_Kid hdr) jwk)
      \<and> (\<exists>e. A e \<and> Unix (r_now e) < Exp c))"

lemma ends_Layer1:
  assumes "\<And>hdr c. layer1_facts A E raw aud thumb hdr c \<Longrightarrow> ends A Q (k (Inr (hdr, c)))"
    and "\<And>x. ends A Q (k (Inl x))"
  shows "ends A Q (verifyLayer1_p E raw aud thumb k)"
  unfolding verifyLayer1_p_def
proof (rule ends_perform)
  fix e w w' res
  assume e: "A e" and parsed: "parseAndCheckSig E (Key_resd (r_net e)) AuthClaims_of_json Iss w raw ''auth+jwt'' = (w', res)"
  show "ends A Q (case res of Inl x \<Rightarrow> k (Inl x) | Inr (hdr, c) \<Rightarrow> presented_p E aud thumb hdr c k)"
  proof (cases res)
    case (Inr hc)
    then obtain hdr c where hc: "res = Inr (hdr, c)" by (cases hc) simp
    from parse_accepts [OF parsed [unfolded hc]] obtain jwk where
      jwk: "Key_resd (r_net e) w (Iss c) (hdr_Kid hdr) = (w', Inr jwk)" "signed_by E raw hdr c jwk" .
    then have "layer1_facts A E raw aud thumb hdr c"
      if "Aud c = aud" "Thumbprint E (Cnf c) = thumb" "A e'" "Unix (r_now e') < Exp c" for e'
      using that e token_claims_parsed [OF parsed [unfolded hc]] unfolding layer1_facts_def served_key_def by blast
    then show ?thesis
      unfolding hc presented_p_def Let_def using assms
      by (auto intro!: ends_draw ends_if ends_perform split: sum.split)
  qed (simp add: assms(2))
qed

text \<open>What the second has: the authorization and the grant it fetched.\<close>

definition served_psa :: "(surroundings \<Rightarrow> bool) \<Rightarrow> ext \<Rightarrow> string \<Rightarrow> PSA \<Rightarrow> bool" where
  "served_psa A E ref psa = (\<exists>e w w'. A e \<and> PSA_resd E (r_net e) w ref = (w', Inr psa))"

definition served_grant :: "(surroundings \<Rightarrow> bool) \<Rightarrow> ext \<Rightarrow> string \<Rightarrow> string \<Rightarrow> AgentGrant \<Rightarrow> bool" where
  "served_grant A E iss h g = (\<exists>e w w'. A e \<and> AgentGrant_resd E (r_net e) w iss h = (w', Inr g))"

definition layer2_facts :: "(surroundings \<Rightarrow> bool) \<Rightarrow> ext \<Rightarrow> jwtHeader \<Rightarrow> AuthClaims \<Rightarrow> bool" where
  "layer2_facts A E hdr c =
     (\<exists>psa grant jwk e e'. A e \<and> A e' \<and> served_psa A E (PSARef c) psa
        \<and> served_key A (Iss c) (hdr_Kid hdr) jwk
        \<and> VerifyPSA E (chain_now e) psa (Iss c) (Thumbprint E jwk) = Inr ()
        \<and> caipEq E (''eip155:'' @ show_int (psa_RegistryChain psa) @ '':'' @ psa_Root psa) (Sub c)
        \<and> served_grant A E (Iss c) (AgS256 c) grant
        \<and> VerifyAgentGrant E (chain_now e') grant (psa_Root psa) (Agent c) (Thumbprint E (Cnf c)) = Inr ())"

lemma ends_Layer2:
  assumes "layer2_facts A E hdr c \<Longrightarrow> ends A Q (k (Inr c))" and "\<And>x. ends A Q (k (Inl x))"
  shows "ends A Q (verifyLayer2_p E hdr c k)"
proof -
  have authorized: "ends A Q (authorized_p E c psa (Thumbprint E jwk) k)"
    if served: "served_psa A E (PSARef c) psa" "served_key A (Iss c) (hdr_Kid hdr) jwk" for psa jwk
    unfolding authorized_p_def
  proof (rule ends_draw)
    fix e
    assume e: "A e"
    have "ends A Q (granted_p E c psa k)"
      if psa: "VerifyPSA E (chain_now e) psa (Iss c) (Thumbprint E jwk) = Inr ()"
        "caipEq E (''eip155:'' @ show_int (psa_RegistryChain psa) @ '':'' @ psa_Root psa) (Sub c)"
      unfolding granted_p_def
    proof (rule ends_perform)
      fix e2 w w' given
      assume given: "A e2" "AgentGrant_resd E (r_net e2) w (Iss c) (AgS256 c) = (w', given)"
      have "ends A Q (k (Inr c))" if "given = Inr g" "A e'"
        "VerifyAgentGrant E (chain_now e') g (psa_Root psa) (Agent c) (Thumbprint E (Cnf c)) = Inr ()" for g e'
        using assms(1) e served psa given that unfolding layer2_facts_def served_grant_def by blast
      then show "ends A Q (case given of Inl x \<Rightarrow> k (Inl (GrantResolve x))
          | Inr grant \<Rightarrow> draw (\<lambda>e. case VerifyAgentGrant E (chain_now e) grant (psa_Root psa) (Agent c)
              (Thumbprint E (Cnf c)) of Inl x \<Rightarrow> k (Inl (ChainRejected x)) | Inr _ \<Rightarrow> k (Inr c)))"
        using assms(2) by (auto intro!: ends_draw split: sum.split)
    qed
    then show "ends A Q (case VerifyPSA E (chain_now e) psa (Iss c) (Thumbprint E jwk) of
        Inl x \<Rightarrow> k (Inl (ChainRejected x))
      | Inr _ \<Rightarrow> if \<not> caipEq E (''eip155:'' @ show_int (psa_RegistryChain psa) @ '':'' @ psa_Root psa) (Sub c)
                 then k (Inl SubNotRoot) else granted_p E c psa k)"
      using assms(2) by (simp split: sum.split)
  qed
  have served: "A e \<Longrightarrow> PSA_resd E (r_net e) w ref = (w', Inr psa) \<Longrightarrow> served_psa A E ref psa"
    "A e \<Longrightarrow> Key_resd (r_net e) w iss kid = (w', Inr jwk) \<Longrightarrow> served_key A iss kid jwk" for e w w' ref psa iss kid jwk
    unfolding served_psa_def served_key_def by blast+
  show ?thesis
    unfolding verifyLayer2_p_def issuerThumbFromHeader_def
    by (intro ends_perform)
      (auto simp: assms(2) intro!: ends_perform authorized split: sum.split prod.splits sum.splits dest: served)
qed

text \<open>A request that an enforcing server answers with 200.\<close>

definition let_in :: "(surroundings \<Rightarrow> bool) \<Rightarrow> ext \<Rightarrow> resource \<Rightarrow> string \<Rightarrow> string \<Rightarrow> resd_reply \<Rightarrow> bool" where
  "let_in A E rs raw thumb rep =
     (welcomed rep \<longrightarrow>
        (\<exists>hdr c. layer1_facts A E raw (self rs) thumb hdr c \<and> rep = WhoamiReply (echo rs c)
           \<and> (requireKeyRooted rs \<longrightarrow> PSARef c \<noteq> [] \<and> layer2_facts A E hdr c)))"

lemma let_in_intros:
  "layer1_facts A E raw (self rs) thumb hdr c \<Longrightarrow> (requireKeyRooted rs \<Longrightarrow> PSARef c \<noteq> [] \<and> layer2_facts A E hdr c) \<Longrightarrow>
   let_in A E rs raw thumb (WhoamiReply (echo rs c))"
  "\<not> welcomed rep \<Longrightarrow> let_in A E rs raw thumb rep"
  unfolding let_in_def by blast+

lemma every_visit_ends:
  "ends A (let_in A E rs (bearer E (v_authorization q)) (TrimSpace (UnicodeTrim E) (v_thumb q)))
     (th_proc (visiting E rs q))"
proof -
  let ?Q = "let_in A E rs (bearer E (v_authorization q)) (TrimSpace (UnicodeTrim E) (v_thumb q))"
  have "ends A ?Q (whoami_p E rs (v_authorization q) (v_thumb q))"
    unfolding whoami_p_def Let_def Verify_p_def VerifyVanilla_p_def
    by (intro ends_if ends_Layer1)
      (auto simp: ends_simps let_in_intros(2) intro!: ends_Layer2 let_in_intros(1) split: sum.split)
  moreover have "ends A ?Q (challenge_resd_p E rs)"
    by (auto simp: challenge_resd_p_def ends_simps let_in_intros(2) intro!: ends_draw split: prod.split)
  ultimately show ?thesis by (simp add: visiting_def resd_routes_p_def ends_simps let_in_intros(2))
qed

definition visits_ok :: "(surroundings \<Rightarrow> bool) \<Rightarrow> ext \<Rightarrow> resource \<Rightarrow> resd_pool \<Rightarrow> bool" where
  "visits_ok A E rs p =
     (\<forall>i th. threads p i = Some th \<longrightarrow>
        ends A (let_in A E rs (bearer E (v_authorization (th_request th)))
                  (TrimSpace (UnicodeTrim E) (v_thumb (th_request th)))) (th_proc th))"

lemma visits_ok_step: "visit_step A E rs p p' \<Longrightarrow> visits_ok A E rs p \<Longrightarrow> visits_ok A E rs p'"
proof (elim visit_stepE act_stepE, goal_cases)
  case (1 i q)
  then show ?case using every_visit_ends [of A E rs q] by (simp add: visits_ok_def visiting_def)
next
  case (2 e i th f s q)
  let ?Q = "let_in A E rs (bearer E (v_authorization (th_request th))) (TrimSpace (UnicodeTrim E) (v_thumb (th_request th)))"
  have "ends A ?Q (Act f)" using 2(1,4,5) unfolding visits_ok_def by metis
  then have "ends A ?Q q" using 2(3,6) unfolding ends_simps by (metis snd_conv)
  then show ?case using 2(1) unfolding 2(2) by (simp add: visits_ok_def)
qed

interpretation visits: transition_invariant "visit_step A E rs" "visits_ok A E rs" for A E rs
  by unfold_locales (rule visits_ok_step)

text \<open>The issuers' key sets show the same key for a name whenever they show one.\<close>

definition keys_fixed :: "(surroundings \<Rightarrow> bool) \<Rightarrow> bool" where
  "keys_fixed A = (\<forall>iss kid k k'. served_key A iss kid k \<and> served_key A iss kid k' \<longrightarrow> k = k')"

lemma closed_chain:
  assumes "layer1_facts A E raw aud thumb hdr c" and "layer2_facts A E hdr c" and "keys_fixed A"
  shows "\<exists>jwk psa grant e. A e \<and> signed_by E raw hdr c jwk \<and> served_psa A E (PSARef c) psa
     \<and> Thumbprint E jwk \<in> set (elems (psa_KeyThumbprints psa)) \<and> psa_Issuer psa = Iss c
     \<and> psa_NotBefore psa \<le> Unix (r_now e) \<and> Unix (r_now e) \<le> psa_NotAfter psa
     \<and> PSA_signed E (chain_now e) psa
     \<and> caipEq E (''eip155:'' @ show_int (psa_RegistryChain psa) @ '':'' @ psa_Root psa) (Sub c)
     \<and> served_grant A E (Iss c) (AgS256 c) grant \<and> ag_Root grant = psa_Root psa
     \<and> ag_AgentIdentifier grant = Agent c \<and> ag_AgentThumbprint grant = thumb
     \<and> AgentGrant_signed E (chain_now e) grant"
proof -
  obtain jwk where one: "signed_by E raw hdr c jwk" "served_key A (Iss c) (hdr_Kid hdr) jwk" "Thumbprint E (Cnf c) = thumb"
    using assms(1) unfolding layer1_facts_def by blast
  obtain psa grant jwk' e e' where two: "A e" "served_psa A E (PSARef c) psa"
    "served_key A (Iss c) (hdr_Kid hdr) jwk'" "VerifyPSA E (chain_now e) psa (Iss c) (Thumbprint E jwk') = Inr ()"
    "caipEq E (''eip155:'' @ show_int (psa_RegistryChain psa) @ '':'' @ psa_Root psa) (Sub c)"
    "served_grant A E (Iss c) (AgS256 c) grant"
    "VerifyAgentGrant E (chain_now e') grant (psa_Root psa) (Agent c) (Thumbprint E (Cnf c)) = Inr ()"
    using assms(2) unfolding layer2_facts_def by blast
  have "jwk' = jwk" using assms(3) one(2) two(3) unfolding keys_fixed_def by blast
  moreover have "AgentGrant_signed E (chain_now e) grant = AgentGrant_signed E (chain_now e') grant"
    by (simp add: AgentGrant_signed_def rootSigned_def chain_now_def split: option.split)
  ultimately show ?thesis
    using one two unfolding VerifyPSA_accepts VerifyAgentGrant_accepts chain_now_def by auto
qed

lemma keys_fixed_stable:
  assumes "stable_network fetch" and "\<And>e. A e \<Longrightarrow> r_net e = fetch"
  shows "keys_fixed A"
proof -
  have "k = k'" if "Key_resd fetch w iss kid = (w1, Inr k)" "Key_resd fetch w' iss kid = (w2, Inr k')"
    for w w' iss kid w1 w2 k k'
    using stable_resd [OF assms(1), of undefined 0] that unfolding stable_keys_def resd_verifier_def
    by (simp add: prod_eq_iff) (metis snd_conv sum.inject(2))
  then show ?thesis using assms(2) unfolding keys_fixed_def served_key_def by blast
qed

section \<open>One visit among the others\<close>

lemma calm_True: "calm q (\<lambda>_ _. True)"
  by (induction q rule: process_induct) (simp_all add: calm_Act)

lemma one_visit:
  assumes "whoami E (r_net e) (r_now e) rs w auth dev = (w', rep)" and "A e"
  obtains p th where "(visit_step A E rs)\<^sup>*\<^sup>* (resting w) p" "threads p 0 = Some th" "shared p = w'"
    "v_authorization (th_request th) = auth" "v_thumb (th_request th) = dev" "th_proc th = Done (WhoamiReply rep)"
proof -
  let ?th = "visiting E rs \<lparr>v_method = ''GET'', v_path = [''whoami''], v_authorization = auth, v_thumb = dev\<rparr>"
  let ?p = "(resting w)\<lparr>threads := (threads (resting w))(0 \<mapsto> ?th)\<rparr>"
  have first: "visit_step A E rs (resting w) ?p" by (rule visit_step.arrive) simp
  have "run (th_proc ?th) e w = Some (w', WhoamiReply rep)"
    using assms(1) by (simp add: visiting_def run_resd_routes resd_routes_def)
  from run_interleaves [where K = "\<lambda>_ _. True" and A = A and e = e and p = ?p and i = 0 and th = ?th, OF this calm_True assms(2)]
  have "(\<lambda>p p'. act_step A p p' \<and> True)\<^sup>*\<^sup>* ?p (moved ?p 0 ?th w' (Done (WhoamiReply rep)))" by simp
  then have "(visit_step A E rs)\<^sup>*\<^sup>* ?p (moved ?p 0 ?th w' (Done (WhoamiReply rep)))"
    by (rule mono_rtranclp [rule_format, rotated]) (simp add: visit_step.act)
  with first have "(visit_step A E rs)\<^sup>*\<^sup>* (resting w) (moved ?p 0 ?th w' (Done (WhoamiReply rep)))"
    by (rule converse_rtranclp_into_rtranclp)
  then show thesis by (rule that) (simp add: visiting_def)+
qed

definition sample_surroundings :: surroundings where
  "sample_surroundings = \<lparr>r_now = 1000 * Second, r_net = sample_fetch, r_random = []\<rparr>"

definition always_sample :: "surroundings \<Rightarrow> bool" where
  "always_sample e = (e = sample_surroundings)"

lemma sample_visit:
  obtains p th where "(visit_step always_sample sample_ext sample_resource)\<^sup>*\<^sup>* (resting newReplayCache) p"
    "threads p 0 = Some th" "v_authorization (th_request th) = sample_auth"
    "th_proc th = Done (WhoamiReply (Echo (Sub sample_claims) (Agent sample_claims) (Iss sample_claims) ''verified'' True))"
proof -
  obtain w' where "whoami sample_ext sample_fetch (1000 * Second) sample_resource newReplayCache sample_auth
     (Thumbprint sample_ext sample_agent_jwk)
     = (w', Echo (Sub sample_claims) (Agent sample_claims) (Iss sample_claims) ''verified'' True)"
    by (rule sample_whoami)
  then show thesis
    using one_visit [of sample_ext sample_surroundings sample_resource newReplayCache sample_auth
        "Thumbprint sample_ext sample_agent_jwk" w' _ always_sample] that
    by (simp add: sample_surroundings_def always_sample_def) metis
qed

section \<open>Properties\<close>

text \<open>C18: a token is good for one visit, however many visitors present it at once. From any
  state of the cache, with any number of requests in flight, their actions in any order, any clocks and
  any answers of the network, enhanced or vanilla: once a request has been answered with 200 for a
  token, no other request whose token has the same id is, earlier, later or at the same time; and the
  cache had not seen the id before.\<close>

theorem token_spent_once_in_flight:
  assumes "(visit_step A E rs)\<^sup>*\<^sup>* (resting w) p"
    and "threads p i = Some th" and "th_proc th = Done (WhoamiReply rep)" and "reply_status rep = 200"
  shows "(\<exists>j. token_id E th = Some j \<and> seen w j = None)
    \<and> (\<forall>k th' rep'. threads p k = Some th' \<and> k \<noteq> i \<and> token_id E th' = token_id E th
         \<and> th_proc th' = Done (WhoamiReply rep') \<longrightarrow> reply_status rep' \<noteq> 200)"
proof -
  note ok = spent_once [OF assms(1)]
  have ok200: "welcomed (WhoamiReply rep) \<longleftrightarrow> reply_status rep = 200" for rep by (simp add: welcomed_def)
  note one = welcome_paid [OF ok assms(2,3)]
  have "reply_status rep' \<noteq> 200"
    if "threads p k = Some th'" "k \<noteq> i" "token_id E th' = token_id E th" "th_proc th' = Done (WhoamiReply rep')"
    for k th' rep'
    using one(1) welcome_paid(1) [OF ok that(1,4)] once_okD(3) [OF ok that(1) assms(2)] that(2,3) assms(4) ok200 by blast
  then show ?thesis using one(2) assms(4) ok200 by (auto simp: spent_def)
qed

theorem token_spent_once_in_flight_witness:
  "\<exists>p th. (visit_step always_sample sample_ext sample_resource)\<^sup>*\<^sup>* (resting newReplayCache) p
     \<and> threads p 0 = Some th \<and> v_authorization (th_request th) = sample_auth
     \<and> (\<exists>j. token_id sample_ext th = Some j)
     \<and> (\<forall>k th' rep'. threads p k = Some th' \<and> k \<noteq> 0 \<and> token_id sample_ext th' = token_id sample_ext th
          \<and> th_proc th' = Done (WhoamiReply rep') \<longrightarrow> reply_status rep' \<noteq> 200)"
proof -
  obtain p th where p: "(visit_step always_sample sample_ext sample_resource)\<^sup>*\<^sup>* (resting newReplayCache) p"
    "threads p 0 = Some th" "v_authorization (th_request th) = sample_auth"
    "th_proc th = Done (WhoamiReply (Echo (Sub sample_claims) (Agent sample_claims) (Iss sample_claims) ''verified'' True))"
    by (rule sample_visit)
  from token_spent_once_in_flight [OF p(1,2,4)] p show ?thesis by auto
qed

text \<open>C25: a resource server started with \<open>--require-key-rooted\<close>, with any number of requests in
  flight and a network that may answer every request differently, answers 200 only for a token whose
  chain is closed, as long as the key sets of the issuers show one key under one name: the token is
  signed by a key that the authorization lists, the authorization was live when it was checked and is
  signed by the root the token names, a grant of the same root binds the token's agent to the key
  that signed the request, and both documents are the ones whose hashes the token carries (the
  authorization when the token pins one).\<close>

theorem key_rooted_in_flight:
  assumes "(visit_step A E rs)\<^sup>*\<^sup>* (resting w) p"
    and "threads p i = Some th" and "th_proc th = Done (WhoamiReply rep)" and "reply_status rep = 200"
    and "requireKeyRooted rs" and "keys_fixed A"
  shows "\<exists>hdr c jwk psa grant e. A e \<and> rep = Echo (Sub c) (Agent c) (Iss c) ''verified'' True
     \<and> token_claims (bearer E (v_authorization (th_request th))) = Some c
     \<and> signed_by E (bearer E (v_authorization (th_request th))) hdr c jwk \<and> Aud c = self rs
     \<and> Thumbprint E jwk \<in> set (elems (psa_KeyThumbprints psa)) \<and> psa_Issuer psa = Iss c
     \<and> psa_NotBefore psa \<le> Unix (r_now e) \<and> Unix (r_now e) \<le> psa_NotAfter psa
     \<and> PSA_signed E (chain_now e) psa
     \<and> (snd (splitRef (PSARef c)) \<noteq> [] \<longrightarrow> ContentHash E (PSA_json psa) = snd (splitRef (PSARef c)))
     \<and> caipEq E (''eip155:'' @ show_int (psa_RegistryChain psa) @ '':'' @ psa_Root psa) (Sub c)
     \<and> ag_Root grant = psa_Root psa \<and> ag_AgentIdentifier grant = Agent c
     \<and> ag_AgentThumbprint grant = TrimSpace (UnicodeTrim E) (v_thumb (th_request th))
     \<and> AgentGrant_signed E (chain_now e) grant \<and> ContentHash E (AgentGrant_json grant) = AgS256 c"
proof -
  let ?raw = "bearer E (v_authorization (th_request th))" and ?thumb = "TrimSpace (UnicodeTrim E) (v_thumb (th_request th))"
  have "visits_ok A E rs p"
    by (rule visits.inv_reaches [OF assms(1)]) (simp add: visits_ok_def)
  then have "let_in A E rs ?raw ?thumb (WhoamiReply rep)"
    using assms(2,3) unfolding visits_ok_def by (metis ends_simps(1))
  then obtain hdr c where c: "layer1_facts A E ?raw (self rs) ?thumb hdr c" "rep = echo rs c" "PSARef c \<noteq> []"
    "layer2_facts A E hdr c"
    using assms(4,5) by (auto simp: let_in_def welcomed_def)
  from closed_chain [OF c(1,4) assms(6)] obtain jwk psa grant e where chain:
    "A e" "signed_by E ?raw hdr c jwk" "served_psa A E (PSARef c) psa"
    "Thumbprint E jwk \<in> set (elems (psa_KeyThumbprints psa))" "psa_Issuer psa = Iss c"
    "psa_NotBefore psa \<le> Unix (r_now e)" "Unix (r_now e) \<le> psa_NotAfter psa" "PSA_signed E (chain_now e) psa"
    "caipEq E (''eip155:'' @ show_int (psa_RegistryChain psa) @ '':'' @ psa_Root psa) (Sub c)"
    "served_grant A E (Iss c) (AgS256 c) grant" "ag_Root grant = psa_Root psa" "ag_AgentIdentifier grant = Agent c"
    "ag_AgentThumbprint grant = ?thumb" "AgentGrant_signed E (chain_now e) grant"
    by blast
  have "snd (splitRef (PSARef c)) \<noteq> [] \<longrightarrow> ContentHash E (PSA_json psa) = snd (splitRef (PSARef c))"
    "ContentHash E (AgentGrant_json grant) = AgS256 c"
    using chain(3,10) PSA_resd_pinned AgentGrant_resd_pinned unfolding served_psa_def served_grant_def by blast+
  moreover have "rep = Echo (Sub c) (Agent c) (Iss c) ''verified'' True" using c(2,3) assms(5) by (simp add: echo_def)
  moreover have "token_claims ?raw = Some c" "Aud c = self rs" using c(1) by (simp_all add: layer1_facts_def)
  ultimately show ?thesis using chain by blast
qed

theorem key_rooted_in_flight_witness:
  "\<exists>p th hdr c jwk (psa :: PSA). (visit_step always_sample sample_ext sample_resource)\<^sup>*\<^sup>* (resting newReplayCache) p
     \<and> threads p 0 = Some th \<and> v_authorization (th_request th) = sample_auth
     \<and> signed_by sample_ext (bearer sample_ext sample_auth) hdr c jwk \<and> Aud c = ''https://res''
     \<and> Thumbprint sample_ext jwk \<in> set (elems (psa_KeyThumbprints psa)) \<and> psa_Issuer psa = Iss c"
proof -
  obtain p th where p: "(visit_step always_sample sample_ext sample_resource)\<^sup>*\<^sup>* (resting newReplayCache) p"
    "threads p 0 = Some th" "v_authorization (th_request th) = sample_auth"
    "th_proc th = Done (WhoamiReply (Echo (Sub sample_claims) (Agent sample_claims) (Iss sample_claims) ''verified'' True))"
    by (rule sample_visit)
  have fixed: "keys_fixed always_sample"
    by (rule keys_fixed_stable [OF stable_sample]) (simp add: always_sample_def sample_surroundings_def)
  have rs: "requireKeyRooted sample_resource" "self sample_resource = ''https://res''"
    by (simp_all add: sample_resource_def)
  obtain hdr c jwk and psa :: PSA where
    "signed_by sample_ext (bearer sample_ext (v_authorization (th_request th))) hdr c jwk" "Aud c = self sample_resource"
    "Thumbprint sample_ext jwk \<in> set (elems (psa_KeyThumbprints psa))" "psa_Issuer psa = Iss c"
    using key_rooted_in_flight [OF p(1,2,4) reply_status.simps(3) rs(1) fixed] by blast
  then show ?thesis using p(1-3) rs(2) by metis
qed

end
