(* ===== verification/Delivery.thy ===== *)
theory Delivery
  imports Interleaving Visits End_To_End
begin

text \<open>
  The two servers together, each with its requests in flight: a token that any interleaving of the
  person server hands out is accepted by a resource that fetches the documents from any later state
  of it; and what a network that shows two different keys can do to the second layer.
\<close>

section \<open>Tokens of an interleaving\<close>

lemma root_step_up_ascii: "root_step_up E cfg root q u \<Longrightarrow> is_ascii (su_Digest u) \<and> is_ascii (su_Sig u)"
  by (auto simp: root_step_up_def hexStr_def)

text \<open>Both documents are in their windows, and the token minted at \<open>issued\<close> has not expired.\<close>

definition in_force :: "PSA \<Rightarrow> AgentGrant \<Rightarrow> time \<Rightarrow> time \<Rightarrow> bool" where
  "in_force psa g issued now =
     (psa_NotBefore psa \<le> Unix now \<and> Unix now \<le> psa_NotAfter psa
      \<and> ag_NotBefore g \<le> Unix now \<and> Unix now \<le> ag_NotAfter g
      \<and> issued \<le> now \<and> Unix now < Unix (issued + mintTTL (MaxTokenTTLSeconds (psa_Scope psa)) Hour)
      \<and> 0 \<le> Unix issued \<and> in_i64 (Unix issued + 3600))"

text \<open>The reply to a token that was minted for a request, at a resource that fetches from the server.\<close>

lemma minted_welcome:
  assumes "ps_ok E cfg s" and "minted_from E cfg root q psa g issued rnd su tok"
    and "account (tenants s) root psa (rq_AgentID q) g" and "serves E cfg s fetch"
    and "TrimRight (CHR ''/'') (IssuerURL cfg) = IssuerURL cfg"
    and "CHR ''#'' \<notin> set (IssuerURL cfg)" and "plain_segment root"
    and "IssuerKeys cfg = k # ks" and "holds_key E k (Pub k)" and "utf8_ok (Kid k)"
    and "\<forall>k \<in> set (IssuerKeys cfg). JWK_text_ok (Pub k)"
    and "Thumbprint E (agentKeyFromGrant g) = ag_AgentThumbprint g"
    and "in_force psa g issued now"
    and "self rs = rq_Resource q" and "seen w (newJTI rnd) = None"
    and "\<forall>text. SHA256 E text \<noteq> []"
    and "\<nexists>g'. GrantByS256 (tenants s) (ContentHash E (AgentGrant_json g)) = Some g'
           \<and> collision (SHA256 E) (json_print (AgentGrant_json g)) (json_print (AgentGrant_json g'))"
  shows "\<exists>w'. whoami E fetch now rs w (''AAuth '' @ tok) (ag_AgentThumbprint g)
     = (w', Echo (''eip155:'' @ show_int (psa_RegistryChain psa) @ '':'' @ root) (rq_AgentID q)
              (IssuerURL cfg) ''verified'' (requireKeyRooted rs))"
proof -
  let ?m = "mint_for cfg root psa g (resourceOf q) (rq_AgentID q) su"
  have given: "Mint E issued rnd k ?m = Inr tok" "resource_ok (resourceOf q)" "rc_Iss (resourceOf q) = rq_Resource q"
    "psa_Root psa = root" "\<forall>u. su = Some u \<longrightarrow> is_ascii (su_Digest u) \<and> is_ascii (su_Sig u)"
    using assms(2,8) root_step_up_ascii by (auto simp: minted_from_def request_faithful_def)
  have m: "psa_Issuer psa = IssuerURL cfg" "mi_PSA ?m = psa" "mi_AgentID ?m = rq_AgentID q"
    "mi_PSABlobURL ?m = IssuerURL cfg @ ''/psa/'' @ root"
    using account_documents [OF assms(1,3)] by (simp_all add: mint_for_def finish_input_def)
  have "snd (Verify E (resd_verifier E fetch now) w tok (self rs) (Thumbprint E (agentKeyFromGrant g)))
      = Inr (mintClaims E issued rnd ?m)"
    using minted_at_resource [OF assms(1,4,3,5-12) _ _ _ _ _ _ _ _ given(2,5,1) assms(15,17) spec [OF assms(16)]]
      assms(13) by (simp add: given(3) assms(12,14) in_force_def)
  note reply = whoami_verified [OF this]
  have "tok = signJWT E k ''auth+jwt'' (AuthClaims_json (mintClaims E issued rnd ?m))"
    using given(1) by (simp add: Mint_ok)
  from reply [OF this] show ?thesis by (simp add: m given(4) assms(12))
qed

text \<open>What an uninterrupted poll hands out was minted from the account's documents.\<close>

lemma polled_minted_from:
  assumes "ps_ok E cfg s" and "Routes E cfg e s ''GET'' [''pending'', rid] r = Some (s', token_reply tok)"
    and "byID (pending s) rid = Some p" and "rheap (pending s) p = Some q"
    and "account (tenants s) root psa (rq_AgentID q) g"
  shows "minted_from E cfg root (frozen q) psa g (clock e) (rand_jti e) (step_up E cfg q) tok"
proof -
  from account_live [OF assms(1,5)] obtain t ten where t: "registered (tenants s) root = Some ten" "Root ten = root"
    "tPSA ten = psa" by metis
  note docs = account_documents [OF assms(1,5)] and same = frozen_same [OF refl [of "frozen q"]]
  obtain k ks where k: "IssuerKeys cfg = k # ks" using issuer_has_key [OF docs(1)] by (cases "IssuerKeys cfg") auto
  have "byAgent (tenants s) (rq_AgentID q) = Some root" using assms(5) by (simp add: account_def)
  then have "root_step_up E cfg root (frozen q) u" if "step_up E cfg q = Some u" for u
    using signed_step_up [OF assms(1,4) _] that same(5)
    by (fastforce simp: root_step_up_def step_up_def split: if_splits)
  moreover have "Mint E (clock e) (rand_jti e) k (finish_input cfg ten g (resourceOf (frozen q)) (rq_AgentID (frozen q))
      (step_up E cfg q)) = Inr tok"
    using polled_token(1) [OF assms] finish_input_tenant [OF t(2,3)] k same by simp
  moreover have "request_faithful (frozen q)" using request_shows_mint [OF assms(1,4)] same by simp
  ultimately show ?thesis
    using issue_minted_from [of E cfg ten root "frozen q" g k ks] docs t k same by auto
qed

section \<open>A network with two faces\<close>

text \<open>
  What the URL of an issuer can do: show the key \<open>jwk\<close> to the request number \<open>m\<close>, and be the network
  \<open>fetch\<close> to every other.
\<close>

definition two_faced :: "network \<Rightarrow> nat \<Rightarrow> string \<Rightarrow> JWK \<Rightarrow> network" where
  "two_faced fetch m iss jwk n url =
     (if n = m \<and> url = TrimRight (CHR ''/'') iss @ ''/jwks.json''
      then served (JObj [(''keys'', JArr [JWK_json jwk])])
      else fetch n url)"

lemma two_faced_first:
  assumes "JWK_text_ok jwk" and "requests w = m"
  shows "\<exists>w'. Key_resd (two_faced fetch m iss jwk) w iss kid = (w', Inr jwk) \<and> requests w' = m + 1 \<and> seen w' = seen w"
proof -
  let ?k = "\<lparr>Kid = kid, Priv = [], Pub = jwk\<rparr>"
  have "snd (getJSON (two_faced fetch m iss jwk) jwks_of_json w (TrimRight (CHR ''/'') iss @ ''/jwks.json''))
      = Inr (Some [jwk])"
    using getJSON_served [of "two_faced fetch m iss jwk" w _ "JObj [(''keys'', JArr [JWK_json jwk])]" jwks_of_json]
      jwks_text [of "[?k]"] jwks_read [of "[?k]"] assms by (simp add: two_faced_def)
  then show ?thesis using assms(2) by (simp add: Key_resd_def getJSON_def)
qed

lemma two_faced_getJSON: "requests w \<noteq> m \<Longrightarrow> getJSON (two_faced fetch m i jwk) f w url = getJSON fetch f w url"
  by (simp add: getJSON_def two_faced_def)

lemma two_faced_later:
  assumes "requests w \<noteq> m"
  shows "Key_resd (two_faced fetch m i jwk) w iss kid = Key_resd fetch w iss kid"
    "PSA_resd E (two_faced fetch m i jwk) w ref = PSA_resd E fetch w ref"
    "AgentGrant_resd E (two_faced fetch m i jwk) w iss h = AgentGrant_resd E fetch w iss h"
  using assms by (simp_all add: Key_resd_def PSA_resd_def AgentGrant_resd_def two_faced_getJSON)

lemma resolvers_count:
  "Key_resd fetch w iss kid = (w', a) \<Longrightarrow> requests w' = requests w + 1"
  "PSA_resd E fetch w ref = (w', b) \<Longrightarrow> requests w' = requests w + 1"
  by (auto simp: Key_resd_def PSA_resd_def getJSON_def split: prod.splits sum.splits option.splits if_splits)

section \<open>Properties\<close>

text \<open>C3: whoever polls a token out of the server can use it, whatever else is in flight. Start from any
  state of the server and let the handlers' actions come in any order: a token that ends up in a reply was
  minted for the request polled; and from then on, in every later state in which the agent's account
  still holds the authorization and the grant it was minted from, while these are in their windows and
  the token has not expired, a resource server that fetches keys and documents from the person server
  answers the agent's request with 200 and the root, the agent and the issuer, in the enhanced mode as in
  the vanilla one, provided the grant names the thumbprint of the key it carries and the token id is
  fresh (or the server holds under the grant's hash another grant, whose text has the same SHA-256).\<close>

theorem interleaved_token_accepted:
  assumes "(ps_step E cfg)\<^sup>*\<^sup>* New_server s" and "(fresh_step b E cfg)\<^sup>*\<^sup>* (resting s) p"
    and "threads p i = Some th" and "th_proc th = Done (token_reply tok)"
    and "TrimRight (CHR ''/'') (IssuerURL cfg) = IssuerURL cfg" and "CHR ''#'' \<notin> set (IssuerURL cfg)"
    and "IssuerKeys cfg = k # ks" and "holds_key E k (Pub k)" and "utf8_ok (Kid k)"
    and "\<forall>k \<in> set (IssuerKeys cfg). JWK_text_ok (Pub k)" and "\<forall>text. SHA256 E text \<noteq> []"
  shows "\<exists>x q root.
     th_path th = [''pending'', rq_ID q] \<and> byID (pending (shared p)) (rq_ID q) = Some x
     \<and> content (pending (shared p)) x = Some q
     \<and> byAgent (tenants (shared p)) (rq_AgentID q) = Some root \<and> minted E cfg root q tok
     \<and> (\<forall>psa g issued rnd su p' fetch now rs w.
          minted_from E cfg root q psa g issued rnd su tok
          \<and> (fresh_step b E cfg)\<^sup>*\<^sup>* p p' \<and> account (tenants (shared p')) root psa (rq_AgentID q) g
          \<and> serves E cfg (shared p') fetch \<and> plain_segment root
          \<and> Thumbprint E (agentKeyFromGrant g) = ag_AgentThumbprint g
          \<and> in_force psa g issued now
          \<and> self rs = rq_Resource q \<and> seen w (newJTI rnd) = None \<longrightarrow>
          (\<exists>w'. whoami E fetch now rs w (''AAuth '' @ tok) (ag_AgentThumbprint g)
             = (w', Echo (''eip155:'' @ show_int (psa_RegistryChain psa) @ '':'' @ root) (rq_AgentID q)
                      (IssuerURL cfg) ''verified'' (requireKeyRooted rs)))
          \<or> (\<exists>g'. GrantByS256 (tenants (shared p')) (ContentHash E (AgentGrant_json g)) = Some g'
                \<and> collision (SHA256 E) (json_print (AgentGrant_json g)) (json_print (AgentGrant_json g'))))"
proof -
  have "answers E cfg (th_path th) (th_http th) (shared p) (token_reply tok)"
    using pool_okD(2) [OF interleaved_ok [OF assms(1,2)] assms(3,4)] .
  then obtain x q root where q: "th_path th = [''pending'', rq_ID q]" "byID (pending (shared p)) (rq_ID q) = Some x"
    "content (pending (shared p)) x = Some q" "byAgent (tenants (shared p)) (rq_AgentID q) = Some root"
    "minted E cfg root q tok"
    by (auto simp: answers_def own_token_def token_sound_def)
  have later: "ps_ok E cfg (shared p')" if "(fresh_step b E cfg)\<^sup>*\<^sup>* p p'" for p'
    using pool_okD(1) [OF interleaved_ok [OF assms(1) rtranclp_trans [OF assms(2) that]]] .
  show ?thesis
    using q minted_welcome [OF later _ _ _ assms(5,6) _ assms(7-10) _ _ _ _ assms(11)]
    by (intro exI [of _ x] exI [of _ q] exI [of _ root]) blast
qed

theorem interleaved_token_accepted_witness:
  "\<exists>s p th w'. (ps_step sample_ext sample_cfg)\<^sup>*\<^sup>* New_server s
     \<and> (fresh_step Prod sample_ext sample_cfg)\<^sup>*\<^sup>* (resting s) p
     \<and> threads p 0 = Some th \<and> th_proc th = Done (token_reply run_token)
     \<and> whoami sample_ext (ps_network sample_ext sample_cfg (sample_env 1030) (shared p) http_poll) (1030 * Second)
           sample_resource newReplayCache (''AAuth '' @ run_token) (Thumbprint sample_ext sample_agent_jwk)
         = (w', Echo (''eip155:8453:'' @ sample_root) ''aauth:a@b'' ''https://ps'' ''verified'' True)"
proof -
  let ?q = "run_request\<lparr>rq_StepUpSig := Some run_signature, rq_State := StateApproved\<rparr>"
  obtain s s' where s: "(ps_step sample_ext sample_cfg)\<^sup>*\<^sup>* New_server s"
    "Routes sample_ext sample_cfg (sample_env 1020) s ''GET'' [''pending'', newID ''i''] http_poll
       = Some (s', token_reply run_token)"
    "account (tenants s) sample_root issued_psa (rq_AgentID ?q) run_grant"
    "GrantByS256 (tenants s) (ContentHash sample_ext (AgentGrant_json run_grant)) = Some run_grant"
    "byID (pending s) (newID ''i'') = Some 0" "rheap (pending s) 0 = Some ?q"
    by (rule sample_approved_state) (simp add: run_request_def new_request_def)
  note polled = polled_token [OF reachable_ok [OF s(1)] s(2,5,6,3)]
  have from_docs: "minted_from sample_ext sample_cfg sample_root (frozen ?q) issued_psa run_grant
      (1020 * Second) (rand_jti (sample_env 1020)) (step_up sample_ext sample_cfg ?q) run_token"
    using polled_minted_from [OF reachable_ok [OF s(1)] s(2,5,6,3)] by simp
  have q: "rq_AgentID (frozen ?q) = ''aauth:a@b''" "rq_Resource (frozen ?q) = ''https://res''" "rq_AgentID ?q = ''aauth:a@b''"
    by (simp_all add: run_request_def new_request_def run_claims_ok frozen_def)
  obtain p th where p: "(fresh_step Prod sample_ext sample_cfg)\<^sup>*\<^sup>* (resting s) p" "threads p 0 = Some th"
    "shared p = s'" "th_path th = [''pending'', newID ''i'']" "th_proc th = Done (token_reply run_token)"
    using poll_interleaves [OF s(2)] by metis
  have held: "GrantByS256 (tenants s') (ContentHash sample_ext (AgentGrant_json run_grant)) = Some run_grant"
    using polled(3) s(4) by (simp add: GrantByS256_def)
  let ?fetch = "ps_network sample_ext sample_cfg (sample_env 1030) (shared p) http_poll"
  obtain x q root where found: "th_path th = [''pending'', rq_ID q]" "byID (pending (shared p)) (rq_ID q) = Some x"
    "content (pending (shared p)) x = Some q" "byAgent (tenants (shared p)) (rq_AgentID q) = Some root" and
    used: "\<And>psa g issued rnd su p' fetch now rs w.
          minted_from sample_ext sample_cfg root q psa g issued rnd su run_token
          \<and> (fresh_step Prod sample_ext sample_cfg)\<^sup>*\<^sup>* p p' \<and> account (tenants (shared p')) root psa (rq_AgentID q) g
          \<and> serves sample_ext sample_cfg (shared p') fetch \<and> plain_segment root
          \<and> Thumbprint sample_ext (agentKeyFromGrant g) = ag_AgentThumbprint g
          \<and> in_force psa g issued now
          \<and> self rs = rq_Resource q \<and> seen w (newJTI rnd) = None \<Longrightarrow>
          (\<exists>w'. whoami sample_ext fetch now rs w (''AAuth '' @ run_token) (ag_AgentThumbprint g)
             = (w', Echo (''eip155:'' @ show_int (psa_RegistryChain psa) @ '':'' @ root) (rq_AgentID q)
                      (IssuerURL sample_cfg) ''verified'' (requireKeyRooted rs)))
          \<or> (\<exists>g'. GrantByS256 (tenants (shared p')) (ContentHash sample_ext (AgentGrant_json g)) = Some g'
                \<and> collision (SHA256 sample_ext) (json_print (AgentGrant_json g)) (json_print (AgentGrant_json g')))"
    using interleaved_token_accepted [OF s(1) p(1,2,5), of sample_key "[]"] sample_issuer sample_hashes
    by simp metis
  have same1: "q = frozen ?q"
    using found(1-3) s(5,6) p(3,4) polled(4) content_frozen [OF s(6)] by simp
  have same2: "root = sample_root"
    using found(4) polled(2) p(3) q(1,3) unfolding same1 by (simp add: account_def)
  note same = same1 same2
  have "Unix (1020 * Second) = 1020" "Unix (1030 * Second) = 1030" by (simp_all add: Unix_def Second_def)
  then have force: "in_force issued_psa run_grant (1020 * Second) (1030 * Second)"
    using sample_issuer(6,7) sample_expiry by (simp add: in_force_def in_i64_def Second_def)
  have served: "serves sample_ext sample_cfg (shared p) ?fetch" by (rule ps_network_serves)
  have "\<exists>w'. whoami sample_ext ?fetch (1030 * Second) sample_resource newReplayCache (''AAuth '' @ run_token)
        (ag_AgentThumbprint run_grant)
      = (w', Echo (''eip155:'' @ show_int (psa_RegistryChain issued_psa) @ '':'' @ sample_root) (rq_AgentID (frozen ?q))
               (IssuerURL sample_cfg) ''verified'' (requireKeyRooted sample_resource))"
    using used [of issued_psa run_grant "1020 * Second" "rand_jti (sample_env 1020)" _ p ?fetch "1030 * Second"
        sample_resource newReplayCache, unfolded same] from_docs force served polled(2) held sample_issuer(4) q
    by (simp add: p(3) sample_resource_def newReplayCache_def Thumbprint_def collision_def)
  then show ?thesis
    using s(1) p(1,2,5) sample_caip q(1) by (auto simp: sample_resource_def)
qed


text \<open>C19: the key is looked up twice. The first layer checks the token's signature with the key that the
  issuer's URL shows first; the second asks again and looks that key up in the authorization. So whoever
  decides what this URL serves, and holds no key that the authorization lists, can sign any claims with
  a key of their own: a resource server that demands key-rooting answers 200 and reports the chain as
  verified, as long as the authorization and the grant are genuine.\<close>

theorem second_key_lookup_opens_chain:
  assumes "requireKeyRooted rs" and "holds_key E intruder (Pub intruder)" and "JWK_text_ok (Pub intruder)"
    and "utf8_ok (Kid intruder)" and "json_clean (AuthClaims_json c)" and "AuthClaims_in_range c"
    and "Aud c = self rs" and "Unix now < Exp c" and "i64 (Exp c - Iat c) \<le> 86400"
    and "Thumbprint E (Cnf c) = TrimSpace (UnicodeTrim E) dev" and "seen w (Jti c) = None" and "PSARef c \<noteq> []"
    and "\<forall>w. snd (Key_resd fetch w (Iss c) (Kid intruder)) = Inr listed"
    and "\<forall>w. snd (PSA_resd E fetch w (PSARef c)) = Inr psa"
    and "\<forall>w. snd (AgentGrant_resd E fetch w (Iss c) (AgS256 c)) = Inr g"
    and "VerifyPSA E (Chain (resd_verifier E fetch now)) psa (Iss c) (Thumbprint E listed) = Inr ()"
    and "caipEq E (''eip155:'' @ show_int (psa_RegistryChain psa) @ '':'' @ psa_Root psa) (Sub c)"
    and "VerifyAgentGrant E (Chain (resd_verifier E fetch now)) g (psa_Root psa) (Agent c)
           (Thumbprint E (Cnf c)) = Inr ()"
  shows "\<exists>w'. whoami E (two_faced fetch (requests w) (Iss c) (Pub intruder)) now rs w
      (''AAuth '' @ signJWT E intruder ''auth+jwt'' (AuthClaims_json c)) dev
      = (w', Echo (Sub c) (Agent c) (Iss c) ''verified'' True)"
proof -
  let ?net = "two_faced fetch (requests w) (Iss c) (Pub intruder)"
  let ?v = "resd_verifier E ?net now" and ?tok = "signJWT E intruder ''auth+jwt'' (AuthClaims_json c)"
  obtain w1 where w1: "Key_resd ?net w (Iss c) (Kid intruder) = (w1, Inr (Pub intruder))" "requests w1 = requests w + 1"
    "seen w1 = seen w"
    using two_faced_first [OF assms(3) refl] by blast
  obtain w2 where w2: "SeenJTI_resd w1 (Jti c) (Exp c) = (w2, False)" "requests w2 = requests w + 1"
    using assms(11) w1 by (simp add: SeenJTI_resd_def)
  have one: "verifyLayer1 E ?v w ?tok (self rs) (TrimSpace (UnicodeTrim E) dev) = (w2, Inr (auth_header intruder, c))"
    using verifyLayer1_signed [OF assms(5,6,4), of ?v w w1 "Pub intruder"] assms(2,7-10) w1 w2
    by (simp add: resd_verifier_def)
  obtain w3 where w3: "PSA_resd E ?net w2 (PSARef c) = (w3, Inr psa)"
    using assms(14) w2(2) by (simp add: two_faced_later) (metis prod.collapse)
  then have r3: "requests w3 = requests w + 2" using resolvers_count(2) w2(2) by fastforce
  obtain w4 where w4: "Key_resd ?net w3 (Iss c) (Kid intruder) = (w4, Inr listed)"
    using assms(13) r3 by (simp add: two_faced_later) (metis prod.collapse)
  then have r4: "requests w4 = requests w + 3" using resolvers_count(1) r3 by fastforce
  obtain w5 where w5: "AgentGrant_resd E ?net w4 (Iss c) (AgS256 c) = (w5, Inr g)"
    using assms(15) r4 by (simp add: two_faced_later) (metis prod.collapse)
  have "verifyLayer2 E ?v w2 (auth_header intruder) c = (w5, Inr c)"
    using w3 w4 w5 assms(16-18) by (simp add: verifyLayer2_def issuerThumbFromHeader_def resd_verifier_def auth_header_def)
  then have "Verify E ?v w ?tok (self rs) (TrimSpace (UnicodeTrim E) dev) = (w5, Inr c)"
    using one assms(12) by (simp add: Verify_def)
  moreover have "?tok \<noteq> []" by (simp add: signJWT_def Let_def)
  ultimately show ?thesis
    using assms(1,12) bearer_signed [of E intruder] by (simp add: whoami_def whoami_verify_def Let_def)
qed

text \<open>The key of an intruder that the sample authorization does not list: the canonical texts of the two keys
  differ in the parity of their characters, and so do the checksums.\<close>

definition sample_intruder :: IssuerKey where
  "sample_intruder = \<lparr>Kid = ''k1'', Priv = replicate 30 (CHR ''k'') @ ''kz'',
     Pub = \<lparr>Kty = ''OKP'', Crv = ''Ed25519'', X = b64_raw True (replicate 30 (CHR ''k'') @ ''kz'')\<rparr>\<rparr>"

lemma sample_intruder_key: "holds_key sample_ext sample_intruder (Pub sample_intruder)"
  using sample_ed25519_pair [of "replicate 30 (CHR ''k'') @ ''kz''"]
  by (simp add: holds_key_def sample_intruder_def)

lemma b64_raw_replicate: "\<exists>t. \<forall>s. b64_raw url (concat (replicate n [a, b, c]) @ s) = t @ b64_raw url s"
proof (induction n)
  case (Suc n)
  then obtain t where "b64_raw url (concat (replicate n [a, b, c]) @ s) = t @ b64_raw url s" for s by blast
  then have "\<exists>u. \<forall>s. b64_raw url (a # b # c # concat (replicate n [a, b, c]) @ s) = u @ b64_raw url s"
    by (simp only: b64_raw.simps) (metis append_Cons)
  then show ?case by simp
qed (simp add: exI [of _ "[]"])

lemma checksum_parity:
  "even (foldl (\<lambda>a c. (5 * a + char_val c) mod 256) a s) = even (a + sum_list (map char_val s))"
  by (induction s arbitrary: a) (auto simp: dvd_mod_iff)

lemma checksum_apart:
  assumes "even (sum_list (map char_val s)) \<noteq> even (sum_list (map char_val t))"
  shows "checksum 5 s \<noteq> checksum 5 t"
proof
  assume "checksum 5 s = checksum 5 t"
  then have "of_char (char_of (foldl (\<lambda>a c. (5 * a + char_val c) mod 256) 7 s) :: char)
    = (of_char (char_of (foldl (\<lambda>a c. (5 * a + char_val c) mod 256) 7 t) :: char) :: nat)"
    by (simp add: checksum_def)
  then have "even (foldl (\<lambda>a c. (5 * a + char_val c) mod 256) 7 s mod 256) = even (foldl (\<lambda>a c. (5 * a + char_val c) mod 256) 7 t mod 256)"
    by simp
  then have "even (foldl (\<lambda>a c. (5 * a + char_val c) mod 256) 7 s) = even (foldl (\<lambda>a c. (5 * a + char_val c) mod 256) 7 t)"
    by (simp only: dvd_mod_iff [of 2 256] even_numeral)
  then show False using assms by (simp add: checksum_parity)
qed

lemma quote_b64: "go_quote E (b64_raw url bs) = dquote # b64_raw url bs @ [dquote]"
proof -
  have one: "quote_ascii c = [c]" if "b64_class c" for c
    using that by (auto simp: quote_ascii_def b64_class_def Let_def dquote_def bslash_def)
  have "concat (map quote_ascii s) = s" if "\<forall>c \<in> set s. b64_class c" for s
    using that by (induction s) (simp_all add: one)
  then show ?thesis using set_b64_raw by (simp add: go_quote_def)
qed

lemma sample_jwk_bytes: "replicate 32 (CHR ''k'') = concat (replicate 10 ''kkk'') @ ''kk''"
  "replicate 30 (CHR ''k'') @ ''kz'' = concat (replicate 10 ''kkk'') @ ''kz''"
  by code_simp+

lemma b64_ends: "b64_raw True ''kk'' = ''a2s''" "b64_raw True ''kz'' = ''a3o''"
  by code_simp+

lemma sample_intruder_unlisted:
  "Thumbprint sample_ext (Pub sample_intruder) \<notin> set (elems (psa_KeyThumbprints issued_psa))"
proof -
  obtain t where t: "b64_raw True (concat (replicate 10 ''kkk'') @ s) = t @ b64_raw True s" for s
    using b64_raw_replicate by blast
  have x: "X (Pub sample_intruder) = t @ ''a3o''" "X sample_jwk = t @ ''a2s''"
    by (simp_all only: sample_intruder_def sample_jwk_def JWK.simps IssuerKey.simps sample_jwk_bytes t b64_ends)
  have "checksum 5 (JWK_canonical sample_ext (Pub sample_intruder)) \<noteq> checksum 5 (JWK_canonical sample_ext sample_jwk)"
  proof (rule checksum_apart)
    show "even (sum_list (map char_val (JWK_canonical sample_ext (Pub sample_intruder))))
      \<noteq> even (sum_list (map char_val (JWK_canonical sample_ext sample_jwk)))"
      using quote_b64 [of sample_ext True "replicate 32 (CHR ''k'')"] quote_b64 [of sample_ext True "replicate 30 (CHR ''k'') @ ''kz''"] x
      by (simp add: JWK_canonical_def sample_intruder_def sample_jwk_def)
  qed
  then show ?thesis by (simp add: Thumbprint_def sample_ext_def)
qed

theorem second_key_lookup_opens_chain_witness:
  "\<exists>fetch w'. Thumbprint sample_ext (Pub sample_intruder) \<notin> set (elems (psa_KeyThumbprints issued_psa))
     \<and> requireKeyRooted sample_resource
     \<and> whoami sample_ext fetch (1000 * Second) sample_resource newReplayCache
         (''AAuth '' @ signJWT sample_ext sample_intruder ''auth+jwt'' (AuthClaims_json sample_claims))
         (Thumbprint sample_ext sample_agent_jwk)
       = (w', Echo (Sub sample_claims) (Agent sample_claims) (Iss sample_claims) ''verified'' True)"
proof -
  have m: "mi_PSA sample_input = issued_psa" "mi_Grant sample_input = issued_grant"
    "mi_AgentID sample_input = ''aauth:a@b''" "mi_AgentKey sample_input = sample_agent_jwk"
    "rc_Iss (mi_Resource sample_input) = ''https://res''"
    by (simp_all add: sample_input_def)
  have rs: "requireKeyRooted sample_resource" "self sample_resource = ''https://res''"
    by (simp_all add: sample_resource_def)
  have psa: "PSARef sample_claims \<noteq> []" unfolding sample_psa_ref by simp
  have key: "JWK_text_ok (Pub sample_intruder)" "utf8_ok (Kid sample_intruder)" "Kid sample_intruder = ''k1''"
    by (simp_all add: sample_intruder_def JWK_text_ok_def)
  have claims: "AuthClaims_in_range sample_claims" "Unix (1000 * Second) < Exp sample_claims"
    "i64 (Exp sample_claims - Iat sample_claims) \<le> 86400"
    using sample_claims_lifetime by (simp_all add: AuthClaims_in_range_def in_i64_def i64_def Unix_def Second_def)
  have chain: "VerifyPSA sample_ext (Chain (resd_verifier sample_ext sample_fetch (1000 * Second))) issued_psa ''https://ps''
      (Thumbprint sample_ext sample_jwk) = Inr ()"
    "VerifyAgentGrant sample_ext (Chain (resd_verifier sample_ext sample_fetch (1000 * Second))) issued_grant sample_root
       ''aauth:a@b'' (Thumbprint sample_ext sample_agent_jwk) = Inr ()"
    using issued_verify issued_signed
    by (simp_all add: VerifyPSA_accepts VerifyAgentGrant_accepts resd_verifier_def alwaysLive_def sample_verifier_def)
  have caip: "caipEq sample_ext (''eip155:'' @ show_int 8453 @ '':'' @ sample_root) (''eip155:'' @ show_int 8453 @ '':'' @ sample_root)"
    unfolding sample_caip by (rule caipEq_refl) (simp add: sample_root_def)
  have "\<exists>w'. whoami sample_ext (two_faced sample_fetch (requests newReplayCache) (Iss sample_claims) (Pub sample_intruder))
      (1000 * Second) sample_resource newReplayCache
      (''AAuth '' @ signJWT sample_ext sample_intruder ''auth+jwt'' (AuthClaims_json sample_claims))
      (Thumbprint sample_ext sample_agent_jwk)
    = (w', Echo (Sub sample_claims) (Agent sample_claims) (Iss sample_claims) ''verified'' True)"
    by (rule second_key_lookup_opens_chain [OF rs(1) sample_intruder_key key(1,2) sample_claims_clean claims(1) _ claims(2,3)
          _ _ psa, where listed = sample_jwk and psa = issued_psa and g = issued_grant])
      (use rs(2) chain caip sample_jwks sample_psa_served sample_grant_served in \<open>simp_all add: m newReplayCache_def TrimSpace_Thumbprint\<close>)
  then show ?thesis using sample_intruder_unlisted rs(1) by blast
qed

end
