(* ===== verification/Spec2Isabelle.thy ===== *)
theory Spec2Isabelle
  imports Server_Safety End_To_End Interleaving Fixtures Delivery
begin

text \<open>
  A verification development for signet-ps, a non-custodial AAuth person server written in Go.

  The program. A person holds a root key (an Ethereum address). With it the person signs an
  authorization for a person server (PSA) that lists the server's issuer keys and a scope, and a
  grant (AgentGrant) for each agent. The person server stores these documents, takes token requests
  from agents, has the person approve them (a click below the step-up threshold of the scope, a
  signature of the root key above it) and mints tokens that carry references to the documents. A
  resource server fetches the documents, checks their hashes and signatures and accepts or refuses
  the token. The server cannot author any of the documents.

  Parts and theories, in the order they build on each other:

  \<^item> \<open>Prelude\<close>: the development's collections of rewrite rules, lemmas on maps and lists, and the
    two locales for state machines, \<open>transition_invariant\<close> and \<open>permanent_facts\<close>.
  \<^item> \<open>Go_Std\<close>, \<open>Go_Json\<close>, \<open>Json_Read\<close>, \<open>Json_Texts\<close>: what the program uses of the Go library: decimal numerals,
    \<open>math/big\<close> parsing, hex and base64, string splitting and trimming, 64-bit durations, and
    \<open>encoding/json\<close>, printed and read, with its UTF-8 rules, its struct decoding (case-insensitive
    keys, null, partial objects) and the proof that a clean value reads back as itself.
  \<^item> \<open>Go_Flag\<close>: command-line flags with Go's number syntax, and query strings, escaped and parsed.
  \<^item> \<open>Extern\<close>: the record \<open>ext\<close> of the functions whose code is not in the repository (EIP-712 hashing
    and secp256k1 recovery of go-ethereum, hashes, Ed25519, Unicode and time tables).
  \<^item> \<open>Attest\<close> (\<open>internal/attest/psa.go\<close>): PSA, AgentGrant, their digests, signature checks,
    \<open>VerifyPSA\<close>, \<open>VerifyAgentGrant\<close>, content hashes.
  \<^item> \<open>Registry\<close> (\<open>internal/store/registry.go\<close>): the revocation registries; the locale
    \<open>revocation_registry\<close>, interpreted on the in-memory registry.
  \<^item> \<open>Missions\<close> (\<open>internal/missions/missions.go\<close>): the hash-chained log of each agent.
  \<^item> \<open>Tenants\<close> (\<open>internal/store/tenants.go\<close>): tenants on a heap, shared between the maps of the
    store; onboarding, enrollment, grants by hash; the view \<open>registered\<close> abstracts the heap away.
  \<^item> \<open>Consent\<close> (\<open>internal/consent/consent.go\<close>): pending requests as a state machine, the approval
    digest, the step-up signature; critical sections interleave in any order.
  \<^item> \<open>Tokens\<close> (\<open>internal/tokens\<close>): claims, thumbprints, \<open>Mint\<close> and its envelope, both verification
    layers; the locale \<open>replay_cache\<close> for the cache a verifier is given.
  \<^item> \<open>Resource\<close> (\<open>cmd/resd/main.go\<close>): the demo resource server, its resolvers over a network that
    may answer anything, its replay cache (an instance of \<open>replay_cache\<close>), its command line and routes.
  \<^item> \<open>Documents\<close>: what the JSON reader makes of documents is well typed and prints back.
  \<^item> \<open>Server\<close> (\<open>internal/server\<close>): every HTTP handler and the routes, on the state \<open>ps\<close> that joins
    tenants, pending requests and registry, with the invariant \<open>ps_ok\<close> that joins theirs.
  \<^item> \<open>Server_Steps\<close>, \<open>Server_Run\<close>, \<open>Sample_Run\<close>: the server as a step relation, what each handler does when its
    caller follows the protocol, the whole step-up protocol, and one concrete run on which the
    witnesses rest.
  \<^item> \<open>Server_Safety\<close>: the properties of the whole server. \<open>End_To_End\<close>: the server and the resource
    together. \<open>Psd\<close> (\<open>cmd/psd\<close>): the daemon in its two builds, as a refinement of the server.
  \<^item> \<open>Json_Indent\<close>: \<open>json.MarshalIndent\<close> and the proof that indented text reads back. \<open>Devtool\<close>
    (\<open>cmd/devtool/main.go\<close>): the wallet, its key files and signing commands; what it signs is what
    the server accepts, and what it revokes the daemon records.
  \<^item> \<open>Processes\<close>: goroutines as processes of atomic actions, a pool of them over a shared state, how a
    process runs alone and that it ends; the two servers instantiate it.
  \<^item> \<open>Handlers\<close>: every handler once more as the goroutine that runs it, a process that takes one
    atomic action for each critical section and each unlocked access to a shared field; run alone it
    is the handler of \<open>Server\<close>. \<open>Concurrent\<close>: rely and guarantee for these processes: what no action
    takes back (\<open>steady\<close>), and that every handler is \<open>safe\<close> however the state moves on between its
    actions. \<open>Interleaving\<close>: the pool of requests in flight, its invariant, and the bound on the
    actions of each.
  \<^item> \<open>Visits\<close> (\<open>cmd/resd/main.go\<close> and the verification of \<open>internal/tokens\<close>): the resource server
    with its requests in flight, one action for each question to the network, each reading of the
    clock and the visit to the replay cache. \<open>Delivery\<close>: both servers with their requests in flight:
    tokens of any interleaving are accepted; what an issuer URL that shows two keys can do.
  \<^item> \<open>Fixtures\<close> (\<open>internal/testutil\<close>): the keys, documents, fakes and forged tokens of the test
    suites; the fake registry and the fake cache are instances of the two interfaces.

  Correspondence. A Go struct is a record with the same fields (a prefix where two structs share a
  field name), a Go function or method the definition of its name; an error return is \<open>Inl\<close> of an
  error datatype, a nil dereference or panic is \<open>None\<close>. A mutex-guarded method is one step. Tenants
  and requests are reached through pointers, so they live in heaps (\<open>theap\<close>, \<open>rheap\<close>) and maps hold
  addresses. \<open>int64\<close> and \<open>uint64\<close> arithmetic that can overflow is written with \<open>i64\<close> or on 64-bit
  words. Slices that may be nil are \<open>option\<close> lists, since nil and empty print differently.

  What the lemma groups show: that each component keeps its invariant and never panics; the exact
  condition under which each operation succeeds, with its effect; that digests, thumbprints, content
  hashes and log heads pin what they commit to, or a hash collision is exhibited; that a token the
  server gives out was approved, by the root's own signature above the threshold, and that a
  resource accepts it; that nothing accepted was minted without the root's documents.

  Concurrency. In \<open>Server_Steps\<close> a handler is one step with one reading of the clock. In
  \<open>Interleaving\<close> any number of handlers take their actions in any order, revocations in between; the
  guarantees about tokens, panics and documents hold there too, for the runs in which no drawn
  identifier or approval code is already in use (\<open>fresh_step\<close>). \<open>Create\<close> overwrites such an entry;
  nothing else is left out (\<open>only_collisions_are_left_out\<close>), and what a collision can do is shown by
  \<open>colliding_code_misdirects_approval\<close>.
  The stores are also verified with their own operations interleaved. The resource server is treated
  alike (\<open>visit_step\<close>), its network and clock answering anything at each action: a token id is accepted
  once however the visits interleave (\<open>token_spent_once_in_flight\<close>), and with \<open>--require-key-rooted\<close> an
  accepted token has its whole chain closed (\<open>key_rooted_in_flight\<close>), provided an issuer's key set shows one
  key under one name (\<open>keys_fixed\<close>): the code fetches the key twice and compares nothing, and
  \<open>second_key_lookup_opens_chain\<close> shows what follows without that.

  Bounds. The JSON reader recurses on fuel twice the length of the text plus one, which is enough
  for every text (\<open>read_fuel_enough\<close>), and refuses nesting beyond 10000 as the Go scanner does. A
  handler of the person server takes at most seventeen actions (\<open>within_routes\<close>), one of the resource
  server at most eight (\<open>within_visit\<close>).

  Not modelled, and why: the implementations behind \<open>ext\<close> and \<open>wallet\<close>, which are not in the repository; the HTTP
  loops, printed progress messages, usage texts and logging of the commands, which are input and output; failures to
  write a file; the texts of
  error replies beyond their code; \<open>SuccessorStatement\<close>, which no code uses; what a data race may do
  beyond reordering (fields read without their lock are read whole). The iteration order of Go maps
  does not matter where the code iterates.
\<close>

end
